theory Spec2Isabelle
  imports Complex_Main "HOL-Library.Word"
begin

unbundle bit_operations_syntax

section \<open>Errors and constants (types.ts, utils.ts)\<close>

text \<open>The two error classes of the library; every \<^verbatim>\<open>throw\<close> of the source is an
  \<open>Inl\<close> of the model.\<close>

datatype error = GifValidationError | GifEncodingError

type_synonym bytes = "nat list"

definition GIF_SIGNATURE :: bytes where
  "GIF_SIGNATURE = [0x47, 0x49, 0x46]"

definition GIF_VERSION_89A :: bytes where
  "GIF_VERSION_89A = [0x38, 0x39, 0x61]"

definition GIF_TRAILER :: nat where
  "GIF_TRAILER = 0x3b"

definition MAX_COLORS :: nat where
  "MAX_COLORS = 256"

definition MAX_CODE_VALUE :: nat where
  "MAX_CODE_VALUE = 0xfff"

subsection \<open>Numbers\<close>

text \<open>JavaScript's \<^verbatim>\<open>a << n\<close>: the operand as a 32-bit integer, the shift count modulo 32,
  the result read as a signed 32-bit integer.\<close>

definition shl32 :: "int \<Rightarrow> nat \<Rightarrow> int" where
  "shl32 a n = sint (push_bit (n mod 32) (word_of_int a :: 32 word))"

subsection \<open>calculateColorTableSize and padColorTable\<close>

text \<open>The loop \<^verbatim>\<open>while (pow2 < colorCount) { size++; pow2 <<= 1; }\<close>. Entered with
  \<open>pow2 = 0\<close> it never ends, so not returning is the value \<open>None\<close>. The loop is only
  reached with \<open>colorCount \<le> 256\<close> and \<open>pow2\<close> stays below 512, where \<^verbatim>\<open><<= 1\<close>
  is doubling.\<close>

partial_function (option) colorTableSize_loop :: "nat \<Rightarrow> nat \<Rightarrow> nat \<Rightarrow> nat option" where
  "colorTableSize_loop sz pow2 colorCount =
     (if pow2 < colorCount then colorTableSize_loop (sz + 1) (pow2 * 2) colorCount
      else Some sz)"

declare colorTableSize_loop.simps [code]

definition calculateColorTableSize :: "int \<Rightarrow> (error + nat) option" where
  "calculateColorTableSize colorCount =
     (if colorCount \<le> 0 \<or> colorCount > int MAX_COLORS then Some (Inl GifValidationError)
      else map_option Inr (colorTableSize_loop 0 2 (nat colorCount)))"

text \<open>\<^verbatim>\<open>padColorTable(palette, requiredSize)\<close>. \<open>currentColors = palette.length / 3\<close> is a
  fraction when the length is no multiple of 3; \<open>new Uint8Array(n)\<close> is \<open>n\<close> zero bytes and
  \<open>padded.set(palette)\<close> overwrites its first \<open>palette.length\<close> bytes.\<close>

definition padColorTable :: "bytes \<Rightarrow> nat \<Rightarrow> bytes" where
  "padColorTable palette requiredSize =
     (let currentColors = (of_nat (length palette) / 3 :: rat);
          targetColors = shl32 1 (requiredSize + 1)
      in if currentColors \<ge> of_int targetColors then palette
         else palette @ replicate (nat targetColors * 3 - length palette) 0)"

subsection \<open>Images and options (types.ts)\<close>

text \<open>\<^verbatim>\<open>ImageData\<close> is width, height and RGBA bytes; an \<^verbatim>\<open>IndexedImage\<close> has the same
  three fields (its data being palette indices) and a palette of RGB triplets.\<close>

record ImageData =
  width :: int
  height :: int
  data :: bytes

record IndexedImage = ImageData +
  palette :: bytes

datatype DisposalMethod = NoDisposal | DoNotDispose | RestoreToBackground | RestoreToPrevious

text \<open>The numeric values of the enum (\<^verbatim>\<open>None = 0\<close> is \<open>NoDisposal\<close> here).\<close>

fun disposal_value :: "DisposalMethod \<Rightarrow> nat" where
  "disposal_value NoDisposal = 0"
| "disposal_value DoNotDispose = 1"
| "disposal_value RestoreToBackground = 2"
| "disposal_value RestoreToPrevious = 3"

text \<open>Optional fields are \<open>None\<close> when \<^verbatim>\<open>undefined\<close>.\<close>

record GlobalColorTableOptions =
  opt_colors :: "bytes option"
  opt_sorted :: "bool option"
  opt_backgroundColorIndex :: "int option"
  opt_pixelAspectRatio :: "int option"

record ImageOptions =
  opt_left :: "int option"
  opt_top :: "int option"
  opt_delay :: "rat option"
  opt_disposal :: "DisposalMethod option"
  opt_transparentIndex :: "int option"

record AnimationOptions =
  opt_loops :: "int option"

definition no_GlobalColorTableOptions :: GlobalColorTableOptions where
  "no_GlobalColorTableOptions =
     \<lparr>opt_colors = None, opt_sorted = None, opt_backgroundColorIndex = None,
      opt_pixelAspectRatio = None\<rparr>"

definition no_ImageOptions :: ImageOptions where
  "no_ImageOptions =
     \<lparr>opt_left = None, opt_top = None, opt_delay = None, opt_disposal = None,
      opt_transparentIndex = None\<rparr>"

definition no_AnimationOptions :: AnimationOptions where
  "no_AnimationOptions = \<lparr>opt_loops = None\<rparr>"

subsection \<open>Validation, 16-bit values, delays (utils.ts)\<close>

text \<open>Numbers are integers here, so the \<^verbatim>\<open>Number.isInteger\<close> tests are true.\<close>

definition validateDimensions :: "int \<Rightarrow> int \<Rightarrow> error + unit" where
  "validateDimensions w h =
     (if w \<le> 0 \<or> w > 65535 then Inl GifValidationError
      else if h \<le> 0 \<or> h > 65535 then Inl GifValidationError
      else Inr ())"

definition validatePalette :: "bytes \<Rightarrow> error + unit" where
  "validatePalette pal =
     (if length pal = 0 \<or> length pal mod 3 \<noteq> 0 then Inl GifValidationError
      else if length pal div 3 > MAX_COLORS then Inl GifValidationError
      else Inr ())"

definition write16BitLE :: "int \<Rightarrow> error + bytes" where
  "write16BitLE v =
     (if v < 0 \<or> v > 65535 then Inl GifValidationError
      else Inr [nat (v AND 0xff), nat (drop_bit 8 v AND 0xff)])"

text \<open>\<^verbatim>\<open>Math.round\<close> rounds to the nearest integer, a half upwards. A delay in
  milliseconds is a \<^verbatim>\<open>number\<close>, whole or not: a rational here, with the exact quotient
  for \<^verbatim>\<open>ms / 10\<close>. The quotient of doubles is rounded to the nearest double, which keeps
  it on the same side of every half \<open>n + 1 / 2\<close> below \<open>2 ^ 52\<close>: the halves are doubles, and
  a double \<open>ms\<close> other than \<open>10 * n + 5\<close> is at least one unit in its last place away from
  it, so the exact quotient is more than half a unit in the last place away from the
  half. So \<^verbatim>\<open>Math.round\<close> of the quotient of doubles is that of the exact one.\<close>

definition Math_round :: "rat \<Rightarrow> int" where
  "Math_round x = \<lfloor>x + 1 / 2\<rfloor>"

definition msToGifDelay :: "rat \<Rightarrow> int" where
  "msToGifDelay ms = max 0 (Math_round (ms / 10))"

definition gifDelayToMs :: "int \<Rightarrow> int" where
  "gifDelayToMs d = d * 10"

definition NETSCAPE_APPLICATION_IDENTIFIER :: bytes where
  "NETSCAPE_APPLICATION_IDENTIFIER = [0x4e, 0x45, 0x54, 0x53, 0x43, 0x41, 0x50, 0x45]"

definition NETSCAPE_APPLICATION_AUTHENTICATION_CODE :: bytes where
  "NETSCAPE_APPLICATION_AUTHENTICATION_CODE = [0x32, 0x2e, 0x30]"

section \<open>LZW compression (lzw.ts)\<close>

text \<open>A JavaScript string is a sequence of UTF-16 code units; \<^verbatim>\<open>String.fromCharCode(b)\<close>
  of a byte is the one-unit string \<open>[b]\<close>.\<close>

type_synonym jsstring = "nat list"

subsection \<open>CodeToBytesConverter\<close>

record CodeToBytesConverter =
  c2b_output :: bytes
  remainingBits :: nat
  remainingValue :: nat

definition new_CodeToBytesConverter :: CodeToBytesConverter where
  "new_CodeToBytesConverter = \<lparr>c2b_output = [], remainingBits = 0, remainingValue = 0\<rparr>"

text \<open>The \<^verbatim>\<open>while (numBits > 0)\<close> loop of \<^verbatim>\<open>push\<close>. Codes and bit counts are naturals
  below \<open>2 ^ 31\<close>, where \<^verbatim>\<open>&\<close>, \<^verbatim>\<open>|\<close>, \<^verbatim>\<open><<\<close> and \<^verbatim>\<open>>>\<close> are the bit operations on
  naturals.\<close>

function push_loop :: "CodeToBytesConverter \<Rightarrow> nat \<Rightarrow> nat \<Rightarrow> CodeToBytesConverter" where
  "push_loop c code numBits =
     (if numBits > 0 then
        (let bitsToTake = min numBits (8 - remainingBits c);
             mask = 2 ^ bitsToTake - 1;
             bits = code AND mask;
             rv = remainingValue c OR push_bit (remainingBits c) bits;
             rb = remainingBits c + bitsToTake;
             c' = (if rb \<ge> 8
                   then \<lparr>c2b_output = c2b_output c @ [rv AND 0xff], remainingBits = rb - 8,
                          remainingValue = drop_bit 8 rv\<rparr>
                   else \<lparr>c2b_output = c2b_output c, remainingBits = rb, remainingValue = rv\<rparr>)
         in push_loop c' (drop_bit bitsToTake code) (numBits - bitsToTake))
      else c)"
  by pat_completeness auto
termination
  by (relation "measures [\<lambda>(c, code, numBits). numBits, \<lambda>(c, code, numBits). remainingBits c]")
     (auto simp: min_def)

declare push_loop.simps [simp del]

text \<open>\<^verbatim>\<open>push(code, numBits)\<close>; a code is a natural here, so only \<^verbatim>\<open>numBits <= 0\<close> can throw.\<close>

definition push :: "CodeToBytesConverter \<Rightarrow> nat \<Rightarrow> nat \<Rightarrow> error + CodeToBytesConverter" where
  "push c code numBits =
     (if numBits \<le> 0 then Inl GifEncodingError else Inr (push_loop c code numBits))"

definition flush :: "CodeToBytesConverter \<Rightarrow> bytes" where
  "flush c =
     (if remainingBits c > 0 then c2b_output c @ [remainingValue c AND 0xff] else c2b_output c)"

subsection \<open>LZWDictionary\<close>

record LZWDictionary =
  enc_dictionary :: "jsstring \<rightharpoonup> nat"
  enc_nextCode :: nat
  enc_clearCode :: nat
  enc_endCode :: nat

definition LZWDictionary_reset :: "LZWDictionary \<Rightarrow> LZWDictionary" where
  "LZWDictionary_reset d =
     d\<lparr>enc_dictionary := fold (\<lambda>i m. m([i] \<mapsto> i)) [0..<enc_clearCode d] Map.empty,
       enc_nextCode := enc_endCode d + 1\<rparr>"

definition new_LZWDictionary :: "nat \<Rightarrow> LZWDictionary" where
  "new_LZWDictionary initialCodeSize =
     LZWDictionary_reset
       \<lparr>enc_dictionary = Map.empty, enc_nextCode = 0,
        enc_clearCode = 2 ^ initialCodeSize, enc_endCode = 2 ^ initialCodeSize + 1\<rparr>"

definition LZWDictionary_shouldReset :: "LZWDictionary \<Rightarrow> bool" where
  "LZWDictionary_shouldReset d = (enc_nextCode d > MAX_CODE_VALUE)"

definition LZWDictionary_add :: "LZWDictionary \<Rightarrow> jsstring \<Rightarrow> error + LZWDictionary" where
  "LZWDictionary_add d str =
     (if enc_nextCode d > MAX_CODE_VALUE then Inl GifEncodingError
      else Inr (d\<lparr>enc_dictionary := (enc_dictionary d)(str \<mapsto> enc_nextCode d),
                  enc_nextCode := enc_nextCode d + 1\<rparr>))"

subsection \<open>calculateCodeBits and compressLZW\<close>

function calculateCodeBits_loop :: "nat \<Rightarrow> nat \<Rightarrow> nat \<Rightarrow> nat" where
  "calculateCodeBits_loop bits mx maxCode =
     (if mx \<le> maxCode \<and> bits < 12 then calculateCodeBits_loop (bits + 1) (mx * 2) maxCode
      else bits)"
  by pat_completeness auto
termination
  by (relation "measure (\<lambda>(bits, mx, maxCode). 12 - bits)") auto

declare calculateCodeBits_loop.simps [simp del]

definition calculateCodeBits :: "nat \<Rightarrow> nat \<Rightarrow> nat" where
  "calculateCodeBits maxCode initialBits =
     (if maxCode < 2 ^ initialBits then initialBits
      else min (calculateCodeBits_loop initialBits (2 ^ initialBits) maxCode) 12)"

record compress_state =
  converter :: CodeToBytesConverter
  dictionary :: LZWDictionary
  currentBits :: nat
  currentString :: jsstring

text \<open>One pass of the \<^verbatim>\<open>for\<close> loop of \<^verbatim>\<open>compressLZW\<close>, for the byte \<open>b = data[i]\<close>.\<close>

definition compress_step :: "nat \<Rightarrow> nat \<Rightarrow> compress_state \<Rightarrow> error + compress_state" where
  "compress_step initialCodeSize b st =
     (let char = [b]; newString = currentString st @ char
      in if enc_dictionary (dictionary st) newString \<noteq> None
         then Inr (st\<lparr>currentString := newString\<rparr>)
         else
           (case enc_dictionary (dictionary st) (currentString st) of
              None \<Rightarrow> Inl GifEncodingError
            | Some code \<Rightarrow>
               (case push (converter st) code (currentBits st) of
                  Inl e \<Rightarrow> Inl e
                | Inr conv1 \<Rightarrow>
                   if \<not> LZWDictionary_shouldReset (dictionary st) then
                     (case LZWDictionary_add (dictionary st) newString of
                        Inl e \<Rightarrow> Inl e
                      | Inr dict1 \<Rightarrow>
                         (let newBits = calculateCodeBits (enc_nextCode dict1 - 1) (initialCodeSize + 1)
                          in Inr \<lparr>converter = conv1, dictionary = dict1,
                                  currentBits = (if newBits > currentBits st \<and> newBits \<le> 12
                                                 then newBits else currentBits st),
                                  currentString = char\<rparr>))
                   else
                     (case push conv1 (enc_clearCode (dictionary st)) (currentBits st) of
                        Inl e \<Rightarrow> Inl e
                      | Inr conv2 \<Rightarrow>
                         Inr \<lparr>converter = conv2, dictionary = LZWDictionary_reset (dictionary st),
                              currentBits = initialCodeSize + 1, currentString = char\<rparr>))))"

fun compress_loop :: "nat \<Rightarrow> bytes \<Rightarrow> compress_state \<Rightarrow> error + compress_state" where
  "compress_loop initialCodeSize [] st = Inr st"
| "compress_loop initialCodeSize (b # bs) st =
     (case compress_step initialCodeSize b st of
        Inl e \<Rightarrow> Inl e
      | Inr st' \<Rightarrow> compress_loop initialCodeSize bs st')"

text \<open>What follows the loop: the code of the final string, the end code, the flush.\<close>

definition compress_finish :: "compress_state \<Rightarrow> error + bytes" where
  "compress_finish st =
     (case (if length (currentString st) > 0
            then (case enc_dictionary (dictionary st) (currentString st) of
                    None \<Rightarrow> Inl GifEncodingError
                  | Some code \<Rightarrow> push (converter st) code (currentBits st))
            else Inr (converter st)) of
        Inl e \<Rightarrow> Inl e
      | Inr conv1 \<Rightarrow>
         (case push conv1 (enc_endCode (dictionary st)) (currentBits st) of
            Inl e \<Rightarrow> Inl e
          | Inr conv2 \<Rightarrow> Inr (flush conv2)))"

definition compressLZW :: "bytes \<Rightarrow> int \<Rightarrow> error + bytes" where
  "compressLZW d initialCodeSize =
     (if length d = 0 then Inl GifEncodingError
      else if initialCodeSize < 1 \<or> initialCodeSize > 8 then Inl GifEncodingError
      else
        (let ics = nat initialCodeSize;
             dict0 = new_LZWDictionary ics;
             bits0 = ics + 1
         in case push new_CodeToBytesConverter (enc_clearCode dict0) bits0 of
              Inl e \<Rightarrow> Inl e
            | Inr conv0 \<Rightarrow>
               (case compress_loop ics d
                       \<lparr>converter = conv0, dictionary = dict0, currentBits = bits0,
                        currentString = []\<rparr> of
                  Inl e \<Rightarrow> Inl e
                | Inr st \<Rightarrow> compress_finish st)))"

section \<open>LZW decompression (lzw.ts)\<close>

subsection \<open>BytesToCodeConverter\<close>

record BytesToCodeConverter =
  b2c_data :: bytes
  b2c_position :: nat
  bitBuffer :: nat
  bitsInBuffer :: nat

definition new_BytesToCodeConverter :: "bytes \<Rightarrow> BytesToCodeConverter" where
  "new_BytesToCodeConverter d =
     \<lparr>b2c_data = d, b2c_position = 0, bitBuffer = 0, bitsInBuffer = 0\<rparr>"

text \<open>The loop of \<^verbatim>\<open>readCode\<close> that refills the bit buffer from the data.\<close>

function readCode_fill :: "BytesToCodeConverter \<Rightarrow> nat \<Rightarrow> BytesToCodeConverter" where
  "readCode_fill c numBits =
     (if bitsInBuffer c < numBits \<and> b2c_position c < length (b2c_data c)
      then readCode_fill
             (c\<lparr>bitBuffer := bitBuffer c OR push_bit (bitsInBuffer c) (b2c_data c ! b2c_position c),
                b2c_position := b2c_position c + 1,
                bitsInBuffer := bitsInBuffer c + 8\<rparr>) numBits
      else c)"
  by pat_completeness auto
termination
  by (relation "measure (\<lambda>(c, numBits). length (b2c_data c) - b2c_position c)") auto

declare readCode_fill.simps [simp del]

text \<open>\<^verbatim>\<open>readCode(numBits)\<close>: an error, or the code (\<open>None\<close> for \<^verbatim>\<open>null\<close>) and the converter
  after the read.\<close>

definition readCode ::
  "BytesToCodeConverter \<Rightarrow> nat \<Rightarrow> error + (nat option \<times> BytesToCodeConverter)" where
  "readCode c numBits =
     (if numBits \<le> 0 \<or> numBits > 16 then Inl GifEncodingError
      else
        (let c1 = readCode_fill c numBits
         in if bitsInBuffer c1 < numBits then Inr (None, c1)
            else
              (let mask = 2 ^ numBits - 1; code = bitBuffer c1 AND mask
               in Inr (Some code,
                       c1\<lparr>bitBuffer := drop_bit numBits (bitBuffer c1),
                          bitsInBuffer := bitsInBuffer c1 - numBits\<rparr>))))"

definition hasMore :: "BytesToCodeConverter \<Rightarrow> bool" where
  "hasMore c = (b2c_position c < length (b2c_data c) \<or> bitsInBuffer c > 0)"

subsection \<open>LZWDecodeDictionary\<close>

text \<open>The dictionary is a JavaScript array of strings with \<^verbatim>\<open>undefined\<close> (\<open>None\<close>) in the
  slots of the clear and end codes. Assigning at an index from the length on extends the
  array, the slots in between being \<^verbatim>\<open>undefined\<close>.\<close>

definition array_set :: "'a option list \<Rightarrow> nat \<Rightarrow> 'a option \<Rightarrow> 'a option list" where
  "array_set xs i v =
     (if i < length xs then xs[i := v] else xs @ replicate (i - length xs) None @ [v])"

record LZWDecodeDictionary =
  dec_dictionary :: "jsstring option list"
  dec_nextCode :: nat
  dec_clearCode :: nat
  dec_endCode :: nat

definition LZWDecodeDictionary_reset :: "LZWDecodeDictionary \<Rightarrow> LZWDecodeDictionary" where
  "LZWDecodeDictionary_reset d =
     d\<lparr>dec_dictionary :=
         array_set
           (array_set (fold (\<lambda>i xs. array_set xs i (Some [i])) [0..<dec_clearCode d] [])
              (dec_clearCode d) None)
           (dec_endCode d) None,
       dec_nextCode := dec_endCode d + 1\<rparr>"

definition new_LZWDecodeDictionary :: "nat \<Rightarrow> LZWDecodeDictionary" where
  "new_LZWDecodeDictionary initialCodeSize =
     LZWDecodeDictionary_reset
       \<lparr>dec_dictionary = [], dec_nextCode = 0,
        dec_clearCode = 2 ^ initialCodeSize, dec_endCode = 2 ^ initialCodeSize + 1\<rparr>"

definition LZWDecodeDictionary_get :: "LZWDecodeDictionary \<Rightarrow> nat \<Rightarrow> jsstring option" where
  "LZWDecodeDictionary_get d code =
     (if code \<ge> length (dec_dictionary d) then None else dec_dictionary d ! code)"

definition LZWDecodeDictionary_add :: "LZWDecodeDictionary \<Rightarrow> jsstring \<Rightarrow> LZWDecodeDictionary" where
  "LZWDecodeDictionary_add d str =
     (if dec_nextCode d < MAX_CODE_VALUE
      then d\<lparr>dec_dictionary := array_set (dec_dictionary d) (dec_nextCode d) (Some str),
             dec_nextCode := dec_nextCode d + 1\<rparr>
      else d)"

subsection \<open>decompressLZW\<close>

record decompress_state =
  dec_converter :: BytesToCodeConverter
  dec_dict :: LZWDecodeDictionary
  dec_output :: bytes
  dec_currentBits :: nat
  previousString :: jsstring

text \<open>The bits the converter has not handed out yet: what the loop of \<^verbatim>\<open>decompressLZW\<close>
  uses up.\<close>

definition bits_left :: "BytesToCodeConverter \<Rightarrow> nat" where
  "bits_left c = 8 * (length (b2c_data c) - b2c_position c) + bitsInBuffer c"

text \<open>What the loop does with a data code: the string of the code (an error for a code
  that cannot be in the dictionary), the output, the new dictionary entry, the bit width.\<close>

definition decode_data_code ::
  "nat \<Rightarrow> decompress_state \<Rightarrow> error + decompress_state" where
  "decode_data_code code st =
     (case (if code < dec_nextCode (dec_dict st)
            then Inr (case LZWDecodeDictionary_get (dec_dict st) code of
                        None \<Rightarrow> [] | Some str \<Rightarrow> str)
            else if code = dec_nextCode (dec_dict st)
            then (if length (previousString st) = 0 then Inl GifEncodingError
                  else Inr (previousString st @ take 1 (previousString st)))
            else Inl GifEncodingError) of
        Inl e \<Rightarrow> Inl e
      | Inr cur \<Rightarrow>
         (let out = dec_output st @ cur;
              grow = (length (previousString st) > 0 \<and> dec_nextCode (dec_dict st) < MAX_CODE_VALUE);
              dict1 = (if grow
                       then LZWDecodeDictionary_add (dec_dict st) (previousString st @ take 1 cur)
                       else dec_dict st);
              bits1 = (if grow \<and> dec_nextCode dict1 \<ge> 2 ^ dec_currentBits st
                          \<and> dec_currentBits st < 12
                       then dec_currentBits st + 1 else dec_currentBits st)
          in Inr (st\<lparr>dec_dict := dict1, dec_output := out, dec_currentBits := bits1,
                     previousString := cur\<rparr>)))"

lemma readCode_fill_bits_left: "bits_left (readCode_fill c n) = bits_left c"
proof (induction c n rule: readCode_fill.induct)
  case (1 c numBits)
  define c' where "c' = c\<lparr>bitBuffer := bitBuffer c OR push_bit (bitsInBuffer c) (b2c_data c ! b2c_position c),
                     b2c_position := b2c_position c + 1,
                     bitsInBuffer := bitsInBuffer c + 8\<rparr>"
  show ?case
  proof (cases "bitsInBuffer c < numBits \<and> b2c_position c < length (b2c_data c)")
    case True
    have "length (b2c_data c) - b2c_position c = Suc (length (b2c_data c) - Suc (b2c_position c))"
      using True by arith
    then have a: "bits_left c' = bits_left c"
      by (simp add: bits_left_def c'_def)
    have b: "bits_left (readCode_fill c' numBits) = bits_left c'"
      unfolding c'_def by (rule "1.IH" [OF True])
    have "readCode_fill c numBits = readCode_fill c' numBits"
      unfolding c'_def by (subst readCode_fill.simps) (simp only: True simp_thms if_True)
    then show ?thesis using a b by (simp only:)
  next
    case False
    have "readCode_fill c numBits = c"
      by (subst readCode_fill.simps) (simp only: False if_False)
    then show ?thesis by (simp only:)
  qed
qed

lemma readCode_consumes:
  "readCode c n = Inr (Some code, c') \<Longrightarrow> bits_left c' < bits_left c"
proof -
  assume a: "readCode c n = Inr (Some code, c')"
  then have n: "0 < n" "bitsInBuffer (readCode_fill c n) \<ge> n"
    and c': "c' = (readCode_fill c n)\<lparr>bitBuffer := drop_bit n (bitBuffer (readCode_fill c n)),
                          bitsInBuffer := bitsInBuffer (readCode_fill c n) - n\<rparr>"
    by (auto simp: readCode_def Let_def split: if_splits)
  have "bits_left c' < bits_left (readCode_fill c n)"
    using n unfolding c' bits_left_def by simp
  then show ?thesis by (simp add: readCode_fill_bits_left)
qed

lemma decode_data_code_converter:
  "decode_data_code code st = Inr st1 \<Longrightarrow> dec_converter st1 = dec_converter st"
  by (auto simp: decode_data_code_def Let_def split: if_splits sum.splits)

function decompress_loop :: "nat \<Rightarrow> decompress_state \<Rightarrow> error + bytes" where
  "decompress_loop initialCodeSize st =
     (if hasMore (dec_converter st) then
        (case readCode (dec_converter st) (dec_currentBits st) of
           Inl e \<Rightarrow> Inl e
         | Inr (None, conv1) \<Rightarrow> Inr (dec_output st)
         | Inr (Some code, conv1) \<Rightarrow>
            if code = dec_clearCode (dec_dict st) then
              decompress_loop initialCodeSize
                (st\<lparr>dec_converter := conv1,
                    dec_dict := LZWDecodeDictionary_reset (dec_dict st),
                    dec_currentBits := initialCodeSize + 1,
                    previousString := []\<rparr>)
            else if code = dec_endCode (dec_dict st) then Inr (dec_output st)
            else
              (case decode_data_code code (st\<lparr>dec_converter := conv1\<rparr>) of
                 Inl e \<Rightarrow> Inl e
               | Inr st1 \<Rightarrow> decompress_loop initialCodeSize st1))
      else Inr (dec_output st))"
  by pat_completeness auto
termination
proof (relation "measure (\<lambda>(initialCodeSize, st). bits_left (dec_converter st))")
  show "wf (measure (\<lambda>(initialCodeSize, st). bits_left (dec_converter st)))" by simp
next
  fix initialCodeSize st x2 x1 y x2a
  assume "readCode (dec_converter st) (dec_currentBits st) = Inr x2" "(x1, y) = x2" "x1 = Some x2a"
  then have "bits_left y < bits_left (dec_converter st)"
    using readCode_consumes [of "dec_converter st" "dec_currentBits st" x2a y] by simp
  then show "((initialCodeSize,
         st\<lparr>dec_converter := y, dec_dict := LZWDecodeDictionary_reset (dec_dict st),
            dec_currentBits := initialCodeSize + 1, previousString := []\<rparr>),
        initialCodeSize, st) \<in> measure (\<lambda>(initialCodeSize, st). bits_left (dec_converter st))"
    by simp
next
  fix initialCodeSize st x2 x1 y x2a x2b
  assume "readCode (dec_converter st) (dec_currentBits st) = Inr x2" "(x1, y) = x2" "x1 = Some x2a"
    and d: "decode_data_code x2a (st\<lparr>dec_converter := y\<rparr>) = Inr x2b"
  then have "bits_left y < bits_left (dec_converter st)"
    using readCode_consumes [of "dec_converter st" "dec_currentBits st" x2a y] by simp
  then show "((initialCodeSize, x2b), initialCodeSize, st)
      \<in> measure (\<lambda>(initialCodeSize, st). bits_left (dec_converter st))"
    using decode_data_code_converter [OF d] by simp
qed

declare decompress_loop.simps [simp del]

definition decompressLZW :: "bytes \<Rightarrow> int \<Rightarrow> error + bytes" where
  "decompressLZW compressedData initialCodeSize =
     (if length compressedData = 0 then Inr []
      else if initialCodeSize < 1 \<or> initialCodeSize > 8 then Inl GifEncodingError
      else
        decompress_loop (nat initialCodeSize)
          \<lparr>dec_converter = new_BytesToCodeConverter compressedData,
           dec_dict = new_LZWDecodeDictionary (nat initialCodeSize),
           dec_output = [],
           dec_currentBits = nat initialCodeSize + 1,
           previousString = []\<rparr>)"

subsection \<open>The codes that decompressLZW reads\<close>

text \<open>The data codes that the loop of \<open>decompressLZW\<close> reads, each with the state in which
  it is decoded: an observation of the run, defined by the recursion of the loop.\<close>

function codes_read_loop :: "nat \<Rightarrow> decompress_state \<Rightarrow> (nat \<times> decompress_state) list" where
  "codes_read_loop initialCodeSize st =
     (if hasMore (dec_converter st) then
        (case readCode (dec_converter st) (dec_currentBits st) of
           Inl e \<Rightarrow> []
         | Inr (None, conv1) \<Rightarrow> []
         | Inr (Some code, conv1) \<Rightarrow>
            if code = dec_clearCode (dec_dict st) then
              codes_read_loop initialCodeSize
                (st\<lparr>dec_converter := conv1,
                    dec_dict := LZWDecodeDictionary_reset (dec_dict st),
                    dec_currentBits := initialCodeSize + 1,
                    previousString := []\<rparr>)
            else if code = dec_endCode (dec_dict st) then []
            else
              (code, st\<lparr>dec_converter := conv1\<rparr>) #
              (case decode_data_code code (st\<lparr>dec_converter := conv1\<rparr>) of
                 Inl e \<Rightarrow> []
               | Inr st1 \<Rightarrow> codes_read_loop initialCodeSize st1))
      else [])"
  by pat_completeness auto
termination
proof (relation "measure (\<lambda>(initialCodeSize, st). bits_left (dec_converter st))")
  show "wf (measure (\<lambda>(initialCodeSize, st). bits_left (dec_converter st)))" by simp
next
  fix initialCodeSize st x2 x1 y x2a
  assume "readCode (dec_converter st) (dec_currentBits st) = Inr x2" "(x1, y) = x2" "x1 = Some x2a"
  then have "bits_left y < bits_left (dec_converter st)"
    using readCode_consumes [of "dec_converter st" "dec_currentBits st" x2a y] by simp
  then show "((initialCodeSize,
         st\<lparr>dec_converter := y, dec_dict := LZWDecodeDictionary_reset (dec_dict st),
            dec_currentBits := initialCodeSize + 1, previousString := []\<rparr>),
        initialCodeSize, st) \<in> measure (\<lambda>(initialCodeSize, st). bits_left (dec_converter st))"
    by simp
next
  fix initialCodeSize st x2 x1 y x2a x2b
  assume "readCode (dec_converter st) (dec_currentBits st) = Inr x2" "(x1, y) = x2" "x1 = Some x2a"
    and d: "decode_data_code x2a (st\<lparr>dec_converter := y\<rparr>) = Inr x2b"
  then have "bits_left y < bits_left (dec_converter st)"
    using readCode_consumes [of "dec_converter st" "dec_currentBits st" x2a y] by simp
  then show "((initialCodeSize, x2b), initialCodeSize, st)
      \<in> measure (\<lambda>(initialCodeSize, st). bits_left (dec_converter st))"
    using decode_data_code_converter [OF d] by simp
qed

declare codes_read_loop.simps [simp del]

definition codes_read :: "bytes \<Rightarrow> int \<Rightarrow> (nat \<times> decompress_state) list" where
  "codes_read compressedData initialCodeSize =
     (if length compressedData = 0 \<or> initialCodeSize < 1 \<or> initialCodeSize > 8 then []
      else
        codes_read_loop (nat initialCodeSize)
          \<lparr>dec_converter = new_BytesToCodeConverter compressedData,
           dec_dict = new_LZWDecodeDictionary (nat initialCodeSize),
           dec_output = [],
           dec_currentBits = nat initialCodeSize + 1,
           previousString = []\<rparr>)"

text \<open>The string that a data code stands for in a state: its dictionary entry, or, for the
  next code to be assigned, the previous string and its first character again.\<close>

definition code_string :: "nat \<Rightarrow> decompress_state \<Rightarrow> jsstring" where
  "code_string code st =
     (if code < dec_nextCode (dec_dict st)
      then (case LZWDecodeDictionary_get (dec_dict st) code of None \<Rightarrow> [] | Some str \<Rightarrow> str)
      else previousString st @ take 1 (previousString st))"

definition known_code :: "nat \<Rightarrow> decompress_state \<Rightarrow> bool" where
  "known_code code st =
     (code < dec_nextCode (dec_dict st) \<or>
      (code = dec_nextCode (dec_dict st) \<and> previousString st \<noteq> []))"


section \<open>The writer (writer.ts)\<close>

text \<open>A method of the writer changes the writer and then returns or throws; what it wrote
  before a throw stays written. So a method is a function from the writer to an outcome
  and the writer after the call. \<open>Diverged\<close> is the outcome of a call that does not return.\<close>

datatype outcome = Returned | Thrown error | Diverged

text \<open>\<open>output_data\<close> is the byte array of the writer's output stream.\<close>

record GifWriter =
  output_data :: bytes
  hasWrittenHeader :: bool
  hasWrittenLogicalScreen :: bool
  frameCount :: nat

text \<open>\<^verbatim>\<open>new GifWriter()\<close>, whose output stream is a new \<^verbatim>\<open>ByteArrayOutputStream\<close>.\<close>

definition new_GifWriter :: GifWriter where
  "new_GifWriter =
     \<lparr>output_data = [], hasWrittenHeader = False, hasWrittenLogicalScreen = False, frameCount = 0\<rparr>"

text \<open>Sequencing: the second call runs only if the first returned.\<close>

definition and_then ::
  "outcome \<times> GifWriter \<Rightarrow> (GifWriter \<Rightarrow> outcome \<times> GifWriter) \<Rightarrow> outcome \<times> GifWriter" where
  "and_then r f = (case r of (Returned, w) \<Rightarrow> f w | (Thrown e, w) \<Rightarrow> r | (Diverged, w) \<Rightarrow> r)"

subsection \<open>ByteArrayOutputStream\<close>

definition writeByte :: "GifWriter \<Rightarrow> int \<Rightarrow> outcome \<times> GifWriter" where
  "writeByte w byte =
     (if byte < 0 \<or> byte > 255 then (Thrown GifValidationError, w)
      else (Returned, w\<lparr>output_data := output_data w @ [nat byte]\<rparr>))"

text \<open>\<^verbatim>\<open>writeBytes\<close> of a \<^verbatim>\<open>number[]\<close> validates byte by byte; of a \<^verbatim>\<open>Uint8Array\<close> it
  appends the bytes as they are.\<close>

fun writeBytes :: "GifWriter \<Rightarrow> int list \<Rightarrow> outcome \<times> GifWriter" where
  "writeBytes w [] = (Returned, w)"
| "writeBytes w (b # bs) = and_then (writeByte w b) (\<lambda>w. writeBytes w bs)"

definition writeBytes_Uint8Array :: "GifWriter \<Rightarrow> bytes \<Rightarrow> outcome \<times> GifWriter" where
  "writeBytes_Uint8Array w bs = (Returned, w\<lparr>output_data := output_data w @ bs\<rparr>)"

subsection \<open>GifWriter\<close>

definition writeHeader :: "GifWriter \<Rightarrow> outcome \<times> GifWriter" where
  "writeHeader w =
     (if hasWrittenHeader w then (Thrown GifEncodingError, w)
      else
        and_then (writeBytes_Uint8Array w GIF_SIGNATURE) (\<lambda>w.
        and_then (writeBytes_Uint8Array w GIF_VERSION_89A) (\<lambda>w.
        (Returned, w\<lparr>hasWrittenHeader := True\<rparr>))))"

text \<open>The colour table settings of \<^verbatim>\<open>writeLogicalScreen\<close>: the flag, the size field and
  the padded table; a throw of \<^verbatim>\<open>validatePalette\<close> or \<^verbatim>\<open>calculateColorTableSize\<close>;
  \<open>None\<close> if the size loop does not return.\<close>

definition globalColorTable_settings ::
  "bytes option \<Rightarrow> (error + bool \<times> nat \<times> bytes option) option" where
  "globalColorTable_settings colors =
     (case colors of
        None \<Rightarrow> Some (Inr (False, 0, None))
      | Some cs \<Rightarrow>
         if length cs > 0 then
           (case validatePalette cs of
              Inl e \<Rightarrow> Some (Inl e)
            | Inr _ \<Rightarrow>
               (case calculateColorTableSize (int (length cs div 3)) of
                  None \<Rightarrow> None
                | Some (Inl e) \<Rightarrow> Some (Inl e)
                | Some (Inr colorTableSize) \<Rightarrow>
                   Some (Inr (True, colorTableSize, Some (padColorTable cs colorTableSize)))))
         else Some (Inr (False, 0, None)))"

text \<open>\<^verbatim>\<open>this.output.writeBytes(write16BitLE(v))\<close>: the conversion may throw before a byte
  is written.\<close>

definition write16 :: "GifWriter \<Rightarrow> int \<Rightarrow> outcome \<times> GifWriter" where
  "write16 w v =
     (case write16BitLE v of Inl e \<Rightarrow> (Thrown e, w) | Inr bs \<Rightarrow> writeBytes_Uint8Array w bs)"

definition writeLogicalScreen ::
  "GifWriter \<Rightarrow> int \<Rightarrow> int \<Rightarrow> GlobalColorTableOptions \<Rightarrow> outcome \<times> GifWriter" where
  "writeLogicalScreen w wd ht options =
     (if \<not> hasWrittenHeader w then (Thrown GifEncodingError, w)
      else if hasWrittenLogicalScreen w then (Thrown GifEncodingError, w)
      else
        (case validateDimensions wd ht of
           Inl e \<Rightarrow> (Thrown e, w)
         | Inr _ \<Rightarrow>
            (let sorted_flag = (case opt_sorted options of None \<Rightarrow> False | Some b \<Rightarrow> b);
                 backgroundColorIndex =
                   (case opt_backgroundColorIndex options of None \<Rightarrow> 0 | Some i \<Rightarrow> i);
                 pixelAspectRatio =
                   (case opt_pixelAspectRatio options of None \<Rightarrow> 0 | Some i \<Rightarrow> i)
             in case globalColorTable_settings (opt_colors options) of
                  None \<Rightarrow> (Diverged, w)
                | Some (Inl e) \<Rightarrow> (Thrown e, w)
                | Some (Inr (globalColorTableFlag, colorTableSize, paddedColorTable)) \<Rightarrow>
                   (let packedFields =
                          (if globalColorTableFlag then 0x80 else 0x00) OR 0x70 OR
                          (if sorted_flag then 0x08 else 0x00) OR int colorTableSize
                    in and_then (write16 w wd) (\<lambda>w.
                       and_then (write16 w ht) (\<lambda>w.
                       and_then (writeByte w packedFields) (\<lambda>w.
                       and_then (writeByte w (backgroundColorIndex AND 0xff)) (\<lambda>w.
                       and_then (writeByte w (pixelAspectRatio AND 0xff)) (\<lambda>w.
                       and_then
                         (case paddedColorTable of
                            None \<Rightarrow> (Returned, w)
                          | Some t \<Rightarrow> writeBytes_Uint8Array w t) (\<lambda>w.
                       (Returned, w\<lparr>hasWrittenLogicalScreen := True\<rparr>)))))))))))"

definition writeAnimationInfo :: "GifWriter \<Rightarrow> AnimationOptions \<Rightarrow> outcome \<times> GifWriter" where
  "writeAnimationInfo w options =
     (if \<not> hasWrittenLogicalScreen w then (Thrown GifEncodingError, w)
      else
        (let loops = (case opt_loops options of None \<Rightarrow> 0 | Some n \<Rightarrow> n);
             loopCount = max 0 (min 65535 loops)
         in case write16BitLE loopCount of
              Inl e \<Rightarrow> (Thrown e, w)
            | Inr lbytes \<Rightarrow>
               writeBytes w
                 ([0x21, 0xff, 11] @ map int NETSCAPE_APPLICATION_IDENTIFIER
                    @ map int NETSCAPE_APPLICATION_AUTHENTICATION_CODE
                    @ [3, 0x01] @ map int lbytes @ [0x00])))"

definition writeGraphicsControl :: "GifWriter \<Rightarrow> ImageOptions \<Rightarrow> outcome \<times> GifWriter" where
  "writeGraphicsControl w options =
     (let delay = (case opt_delay options of None \<Rightarrow> 0 | Some d \<Rightarrow> d);
          disposal = (case opt_disposal options of None \<Rightarrow> RestoreToBackground | Some d \<Rightarrow> d);
          transparentIndex = (case opt_transparentIndex options of None \<Rightarrow> - 1 | Some t \<Rightarrow> t);
          delayTime = msToGifDelay delay;
          hasTransparency = (transparentIndex \<ge> 0 \<and> transparentIndex \<le> 255)
      in and_then (writeBytes w [0x21, 0xf9, 0x04]) (\<lambda>w.
         (let packedFields =
                push_bit 2 (int (disposal_value disposal) AND 0x07) OR
                (if hasTransparency then 0x01 else 0x00)
          in and_then (writeByte w packedFields) (\<lambda>w.
             and_then (write16 w delayTime) (\<lambda>w.
             and_then (writeByte w (if hasTransparency then transparentIndex AND 0xff else 0)) (\<lambda>w.
             writeByte w 0x00))))))"

text \<open>\<^verbatim>\<open>writeImageDescriptor\<close>: \<^verbatim>\<open>validatePalette\<close> and \<^verbatim>\<open>calculateColorTableSize\<close> run
  before the first byte is written.\<close>

definition writeImageDescriptor ::
  "GifWriter \<Rightarrow> IndexedImage \<Rightarrow> ImageOptions \<Rightarrow> outcome \<times> GifWriter" where
  "writeImageDescriptor w img options =
     (let left = (case opt_left options of None \<Rightarrow> 0 | Some l \<Rightarrow> l);
          top = (case opt_top options of None \<Rightarrow> 0 | Some t \<Rightarrow> t)
      in case validatePalette (palette img) of
           Inl e \<Rightarrow> (Thrown e, w)
         | Inr _ \<Rightarrow>
            (case calculateColorTableSize (int (length (palette img) div 3)) of
               None \<Rightarrow> (Diverged, w)
             | Some (Inl e) \<Rightarrow> (Thrown e, w)
             | Some (Inr colorTableSize) \<Rightarrow>
                and_then (writeByte w 0x2c) (\<lambda>w.
                and_then (write16 w left) (\<lambda>w.
                and_then (write16 w top) (\<lambda>w.
                and_then (write16 w (width img)) (\<lambda>w.
                and_then (write16 w (height img)) (\<lambda>w.
                writeByte w (0x80 OR 0x00 OR 0x00 OR int colorTableSize))))))))"

text \<open>\<^verbatim>\<open>validateLZWParams\<close> of lzw.ts, for a \<^verbatim>\<open>Uint8Array\<close> and a whole code size.\<close>

definition validateLZWParams :: "bytes \<Rightarrow> int \<Rightarrow> error + unit" where
  "validateLZWParams d codeSize =
     (if length d = 0 then Inl GifEncodingError
      else if codeSize < 1 \<or> codeSize > 8 then Inl GifEncodingError
      else if \<exists>v \<in> set d. int v > 2 ^ nat codeSize - 1 then Inl GifEncodingError
      else Inr ())"

text \<open>\<^verbatim>\<open>writeDataSubBlocks\<close>: blocks of at most 255 bytes, each after its length.\<close>

function writeDataSubBlocks_loop :: "GifWriter \<Rightarrow> bytes \<Rightarrow> nat \<Rightarrow> outcome \<times> GifWriter" where
  "writeDataSubBlocks_loop w d offset =
     (if offset < length d then
        (let blockSize = min 255 (length d - offset)
         in and_then (writeByte w (int blockSize)) (\<lambda>w.
            and_then (writeBytes w (map int (take blockSize (drop offset d)))) (\<lambda>w.
            writeDataSubBlocks_loop w d (offset + blockSize))))
      else (Returned, w))"
  by pat_completeness auto
termination
  by (relation "measure (\<lambda>(w, d, offset). length d - offset)") auto

declare writeDataSubBlocks_loop.simps [simp del]

definition writeDataSubBlocks :: "GifWriter \<Rightarrow> bytes \<Rightarrow> outcome \<times> GifWriter" where
  "writeDataSubBlocks w d = writeDataSubBlocks_loop w d 0"

text \<open>\<^verbatim>\<open>Math.ceil(Math.log2(n))\<close> for a whole number \<open>n \<ge> 1\<close>: the least \<open>k\<close> with
  \<open>n \<le> 2 ^ k\<close>, found by counting up.\<close>

function ceil_log2_from :: "nat \<Rightarrow> nat \<Rightarrow> nat" where
  "ceil_log2_from k n = (if 2 ^ k < n then ceil_log2_from (k + 1) n else k)"
  by pat_completeness auto
termination
  by (relation "measure (\<lambda>(k, n). n - 2 ^ k)") (auto intro: diff_less_mono2)

declare ceil_log2_from.simps [simp del]

definition ceil_log2 :: "nat \<Rightarrow> nat" where
  "ceil_log2 n = ceil_log2_from 0 n"

text \<open>\<^verbatim>\<open>writeImageData\<close>. It runs after \<^verbatim>\<open>validatePalette\<close>, so \<open>colorCount\<close> is a whole
  number.\<close>

definition writeImageData :: "GifWriter \<Rightarrow> IndexedImage \<Rightarrow> outcome \<times> GifWriter" where
  "writeImageData w img =
     (if int (length (data img)) \<noteq> width img * height img
      then (Thrown GifValidationError, w)
      else
        (let colorCount = length (palette img) div 3;
             minCodeSize = (if colorCount \<le> 2 then 2 else int (ceil_log2 colorCount));
             lzwCodeSize = max 2 minCodeSize;
             maxIndex = int colorCount - 1
         in if \<exists>v \<in> set (data img). int v > maxIndex then (Thrown GifValidationError, w)
            else
              (case validateLZWParams (data img) lzwCodeSize of
                 Inl e \<Rightarrow> (Thrown e, w)
               | Inr _ \<Rightarrow>
                  (case compressLZW (data img) lzwCodeSize of
                     Inl e \<Rightarrow> (Thrown e, w)
                   | Inr compressedData \<Rightarrow>
                      and_then (writeByte w lzwCodeSize) (\<lambda>w.
                      and_then (writeDataSubBlocks w compressedData) (\<lambda>w.
                      writeByte w 0x00))))))"

definition writeImage :: "GifWriter \<Rightarrow> IndexedImage \<Rightarrow> ImageOptions \<Rightarrow> outcome \<times> GifWriter" where
  "writeImage w img options =
     (if \<not> hasWrittenLogicalScreen w then (Thrown GifEncodingError, w)
      else
        (case validateDimensions (width img) (height img) of
           Inl e \<Rightarrow> (Thrown e, w)
         | Inr _ \<Rightarrow>
            (case validatePalette (palette img) of
               Inl e \<Rightarrow> (Thrown e, w)
             | Inr _ \<Rightarrow>
                (let needsGraphicsControl =
                       (frameCount w > 0 \<or> opt_delay options \<noteq> None \<or>
                        opt_disposal options \<noteq> None \<or> opt_transparentIndex options \<noteq> None)
                 in and_then (if needsGraphicsControl then writeGraphicsControl w options
                              else (Returned, w)) (\<lambda>w.
                    and_then (writeImageDescriptor w img options) (\<lambda>w.
                    (case calculateColorTableSize (int (length (palette img) div 3)) of
                       None \<Rightarrow> (Diverged, w)
                     | Some (Inl e) \<Rightarrow> (Thrown e, w)
                     | Some (Inr sz) \<Rightarrow>
                        and_then (writeBytes_Uint8Array w (padColorTable (palette img) sz)) (\<lambda>w.
                        and_then (writeImageData w img) (\<lambda>w.
                        (Returned, w\<lparr>frameCount := frameCount w + 1\<rparr>))))))))))"

definition writeTrailer :: "GifWriter \<Rightarrow> outcome \<times> GifWriter" where
  "writeTrailer w = writeByte w (int GIF_TRAILER)"

definition writeStaticGif ::
  "GifWriter \<Rightarrow> IndexedImage \<Rightarrow> GlobalColorTableOptions \<Rightarrow> ImageOptions \<Rightarrow> outcome \<times> GifWriter" where
  "writeStaticGif w img globalOptions imageOptions =
     and_then (writeHeader w) (\<lambda>w.
     and_then (writeLogicalScreen w (width img) (height img) globalOptions) (\<lambda>w.
     and_then (writeImage w img imageOptions) (\<lambda>w.
     writeTrailer w)))"

text \<open>The \<^verbatim>\<open>imgs.forEach\<close> of \<^verbatim>\<open>writeAnimatedGif\<close>, from the index \<open>index\<close> on;
  \<^verbatim>\<open>imageOptions[index] || {}\<close> is the empty options past the end of the array.\<close>

fun writeImages ::
  "GifWriter \<Rightarrow> IndexedImage list \<Rightarrow> ImageOptions list \<Rightarrow> nat \<Rightarrow> outcome \<times> GifWriter" where
  "writeImages w [] imageOptions index = (Returned, w)"
| "writeImages w (img # imgs) imageOptions index =
     and_then
       (writeImage w img
          (if index < length imageOptions then imageOptions ! index else no_ImageOptions)) (\<lambda>w.
     writeImages w imgs imageOptions (index + 1))"

definition writeAnimatedGif ::
  "GifWriter \<Rightarrow> IndexedImage list \<Rightarrow> GlobalColorTableOptions \<Rightarrow> AnimationOptions \<Rightarrow>
     ImageOptions list \<Rightarrow> outcome \<times> GifWriter" where
  "writeAnimatedGif w imgs globalOptions animationOptions imageOptions =
     (if length imgs = 0 then (Thrown GifValidationError, w)
      else
        and_then (writeHeader w) (\<lambda>w.
        and_then (writeLogicalScreen w (width (hd imgs)) (height (hd imgs)) globalOptions) (\<lambda>w.
        and_then (writeAnimationInfo w animationOptions) (\<lambda>w.
        and_then (writeImages w imgs imageOptions 0) (\<lambda>w.
        writeTrailer w)))))"

subsection \<open>Calls on a writer\<close>

text \<open>A caller makes calls on one writer, one after the other, whatever each returns or
  throws.\<close>

datatype call =
  WriteHeader
| WriteLogicalScreen int int GlobalColorTableOptions
| WriteAnimationInfo AnimationOptions
| WriteImage IndexedImage ImageOptions
| WriteTrailer

fun perform :: "GifWriter \<Rightarrow> call \<Rightarrow> outcome \<times> GifWriter" where
  "perform w WriteHeader = writeHeader w"
| "perform w (WriteLogicalScreen wd ht options) = writeLogicalScreen w wd ht options"
| "perform w (WriteAnimationInfo options) = writeAnimationInfo w options"
| "perform w (WriteImage img options) = writeImage w img options"
| "perform w WriteTrailer = writeTrailer w"

fun run :: "GifWriter \<Rightarrow> call list \<Rightarrow> GifWriter" where
  "run w [] = w"
| "run w (c # cs) = run (snd (perform w c)) cs"

text \<open>What a call may do to a writer: append to the output and set flags.\<close>

definition extends :: "GifWriter \<Rightarrow> GifWriter \<Rightarrow> bool" where
  "extends w w' =
     ((\<exists>bs. output_data w' = output_data w @ bs) \<and>
      (hasWrittenHeader w \<longrightarrow> hasWrittenHeader w') \<and>
      (hasWrittenLogicalScreen w \<longrightarrow> hasWrittenLogicalScreen w'))"

section \<open>The reader (reader.ts)\<close>

subsection \<open>Reading bytes\<close>

record GifReader =
  r_data :: bytes
  r_position :: nat

text \<open>The constructor: \<^verbatim>\<open>validateHeader\<close>, which leaves the position after the six header
  bytes. \<^verbatim>\<open>firstChars\<close> is the string of the first four bytes.\<close>

definition validateHeader :: "bytes \<Rightarrow> error + GifReader" where
  "validateHeader d =
     (if length d < 6 then Inl GifValidationError
      else if d ! 0 = 0x3c then Inl GifValidationError
      else if take 3 d = [0x50, 0x4e, 0x47] \<or> take 3 (drop 1 d) = [0x50, 0x4e, 0x47]
      then Inl GifValidationError
      else if d ! 0 = 0xff \<and> d ! 1 = 0xd8 then Inl GifValidationError
      else if take 3 d \<noteq> [0x47, 0x49, 0x46] then Inl GifValidationError
      else if take 3 (drop 3 d) \<noteq> [0x38, 0x37, 0x61] \<and> take 3 (drop 3 d) \<noteq> [0x38, 0x39, 0x61]
      then Inl GifValidationError
      else Inr \<lparr>r_data = d, r_position = 6\<rparr>)"

definition readByte :: "GifReader \<Rightarrow> error + (nat \<times> GifReader)" where
  "readByte r =
     (if r_position r \<ge> length (r_data r) then Inl GifValidationError
      else Inr (r_data r ! r_position r, r\<lparr>r_position := r_position r + 1\<rparr>))"

definition read16 :: "GifReader \<Rightarrow> error + (nat \<times> GifReader)" where
  "read16 r =
     (case readByte r of
        Inl e \<Rightarrow> Inl e
      | Inr (low, r1) \<Rightarrow>
         (case readByte r1 of
            Inl e \<Rightarrow> Inl e
          | Inr (high, r2) \<Rightarrow> Inr (low OR push_bit 8 high, r2)))"

definition readBytes :: "GifReader \<Rightarrow> nat \<Rightarrow> error + (bytes \<times> GifReader)" where
  "readBytes r count =
     (if r_position r + count > length (r_data r) then Inl GifValidationError
      else Inr (take count (drop (r_position r) (r_data r)),
                r\<lparr>r_position := r_position r + count\<rparr>))"

text \<open>\<^verbatim>\<open>skipDataSubBlocks\<close>: the position may be moved past the end of the data; the next
  \<^verbatim>\<open>readByte\<close> throws then.\<close>

function skipDataSubBlocks :: "GifReader \<Rightarrow> error + GifReader" where
  "skipDataSubBlocks r =
     (case readByte r of
        Inl e \<Rightarrow> Inl e
      | Inr (blockSize, r1) \<Rightarrow>
         if blockSize > 0 then skipDataSubBlocks (r1\<lparr>r_position := r_position r1 + blockSize\<rparr>)
         else Inr r1)"
  by pat_completeness auto
termination
  by (relation "measure (\<lambda>r. length (r_data r) - r_position r)")
     (auto simp: readByte_def split: if_splits)

declare skipDataSubBlocks.simps [simp del]

text \<open>\<^verbatim>\<open>readDataSubBlocks\<close>, with the bytes of the blocks read so far.\<close>

function readDataSubBlocks_loop :: "GifReader \<Rightarrow> bytes \<Rightarrow> error + (bytes \<times> GifReader)" where
  "readDataSubBlocks_loop r acc =
     (case readByte r of
        Inl e \<Rightarrow> Inl e
      | Inr (blockSize, r1) \<Rightarrow>
         if blockSize > 0 then
           (case readBytes r1 blockSize of
              Inl e \<Rightarrow> Inl e
            | Inr (blockData, r2) \<Rightarrow> readDataSubBlocks_loop r2 (acc @ blockData))
         else Inr (acc, r1))"
  by pat_completeness auto
termination
  by (relation "measure (\<lambda>(r, acc). length (r_data r) - r_position r)")
     (auto simp: readByte_def readBytes_def split: if_splits)

declare readDataSubBlocks_loop.simps [simp del]

definition readDataSubBlocks :: "GifReader \<Rightarrow> error + (bytes \<times> GifReader)" where
  "readDataSubBlocks r = readDataSubBlocks_loop r []"

subsection \<open>The canvas\<close>

text \<open>A read of a typed array past its end is \<^verbatim>\<open>undefined\<close>, which a
  \<^verbatim>\<open>Uint8ClampedArray\<close> stores as 0; a write past the end of a typed array is ignored, as
  by \<open>xs[i := v]\<close>.\<close>

definition byte_at :: "bytes \<Rightarrow> nat \<Rightarrow> nat" where
  "byte_at xs i = (if i < length xs then xs ! i else 0)"

definition set_pixel :: "bytes \<Rightarrow> nat \<Rightarrow> nat \<Rightarrow> nat \<Rightarrow> nat \<Rightarrow> nat \<Rightarrow> bytes" where
  "set_pixel canvas canvasIndex r g b a =
     canvas[canvasIndex := r, canvasIndex + 1 := g, canvasIndex + 2 := b, canvasIndex + 3 := a]"

text \<open>The background colour: that of the global colour table at the background index,
  opaque, or transparent black. The table has a multiple of 3 bytes, so
  \<^verbatim>\<open>backgroundColorIndex < globalColorTable.length / 3\<close> compares whole numbers.\<close>

definition background_rgba :: "bytes option \<Rightarrow> nat \<Rightarrow> nat \<times> nat \<times> nat \<times> nat" where
  "background_rgba globalColorTable backgroundColorIndex =
     (case globalColorTable of
        None \<Rightarrow> (0, 0, 0, 0)
      | Some t \<Rightarrow>
         if backgroundColorIndex * 3 < length t
         then (byte_at t (backgroundColorIndex * 3), byte_at t (backgroundColorIndex * 3 + 1),
               byte_at t (backgroundColorIndex * 3 + 2), 255)
         else (0, 0, 0, 0))"

definition clearFrameArea ::
  "bytes \<Rightarrow> nat \<Rightarrow> nat \<Rightarrow> nat \<Rightarrow> nat \<Rightarrow> bytes option \<Rightarrow> nat \<Rightarrow> nat \<Rightarrow> bytes" where
  "clearFrameArea canvas frameLeft frameTop wd ht globalColorTable backgroundColorIndex canvasWidth =
     (case background_rgba globalColorTable backgroundColorIndex of
        (bgR, bgG, bgB, bgA) \<Rightarrow>
         fold (\<lambda>y canvas.
           fold (\<lambda>x canvas.
             (let canvasX = frameLeft + x; canvasY = frameTop + y
              in if canvasX < canvasWidth then
                   (let canvasIndex = (canvasY * canvasWidth + canvasX) * 4
                    in if canvasIndex < length canvas
                       then set_pixel canvas canvasIndex bgR bgG bgB bgA
                       else canvas)
                 else canvas)) [0..<wd] canvas) [0..<ht] canvas)"

text \<open>\<^verbatim>\<open>Math.ceil(a / b)\<close> for whole \<open>a\<close> and positive \<open>b\<close>.\<close>

definition ceil_div :: "int \<Rightarrow> int \<Rightarrow> int" where
  "ceil_div a b = - ((- a) div b)"

definition deinterlaceY :: "nat \<Rightarrow> nat \<Rightarrow> int" where
  "deinterlaceY y ht =
     (let h = int ht; p1 = ceil_div h 8; p2 = ceil_div (h - 4) 8; p3 = ceil_div (h - 2) 4
      in if int y < p1 then int y * 8
         else if int y < p1 + p2 then (int y - p1) * 8 + 4
         else if int y < p1 + p2 + p3 then (int y - p1 - p2) * 4 + 2
         else (int y - p1 - p2 - p3) * 2 + 1)"

text \<open>\<^verbatim>\<open>compositeFrame\<close>; a transparent index of \<open>-1\<close> matches no pixel.\<close>

definition compositeFrame ::
  "bytes \<Rightarrow> bytes \<Rightarrow> nat \<Rightarrow> nat \<Rightarrow> nat \<Rightarrow> nat \<Rightarrow> bytes option \<Rightarrow> int \<Rightarrow> bool \<Rightarrow> nat \<Rightarrow> nat
     \<Rightarrow> bytes" where
  "compositeFrame canvas indexData frameLeft frameTop wd ht colorTable transparentIndex interlaced
       canvasWidth canvasHeight =
     fold (\<lambda>i canvas.
       (let colorIndex = indexData ! i
        in if int colorIndex = transparentIndex then canvas
           else
             (let frameX = i mod wd; frameY = i div wd;
                  actualY = (if interlaced then deinterlaceY frameY ht else int frameY);
                  canvasX = int frameLeft + int frameX;
                  canvasY = int frameTop + actualY
              in if canvasX \<ge> 0 \<and> canvasX < int canvasWidth \<and> canvasY \<ge> 0 \<and>
                    canvasY < int canvasHeight then
                   (let canvasIndex = nat ((canvasY * int canvasWidth + canvasX) * 4)
                    in if canvasIndex < length canvas then
                         (case colorTable of
                            Some t \<Rightarrow>
                             if colorIndex * 3 + 2 < length t
                             then set_pixel canvas canvasIndex (t ! (colorIndex * 3))
                                    (t ! (colorIndex * 3 + 1)) (t ! (colorIndex * 3 + 2)) 255
                             else set_pixel canvas canvasIndex 0 0 0 255
                          | None \<Rightarrow> set_pixel canvas canvasIndex 0 0 0 255)
                       else canvas)
                 else canvas)))
       [0..<min (length indexData) (wd * ht)] canvas"

subsection \<open>getFrames\<close>

record GifFrame =
  imageData :: ImageData
  delay :: int
  disposal :: DisposalMethod
  left :: int
  top' :: int
  transparentIndex :: int

text \<open>The local variables of \<^verbatim>\<open>getFrames\<close> that its loop changes, with the reader and the
  frames collected so far. The screen fields do not change.\<close>

record frames_state =
  reader :: GifReader
  canvas :: bytes
  previousCanvas :: "bytes option"
  currentDelay :: int
  currentDisposal :: DisposalMethod
  currentTransparentIndex :: int
  frames :: "GifFrame list"

record screen =
  screen_width :: nat
  screen_height :: nat
  globalColorTable :: "bytes option"
  backgroundColorIndex :: nat

text \<open>The graphics control extension (label \<open>0xf9\<close>).\<close>

definition read_graphics_control :: "frames_state \<Rightarrow> error + frames_state" where
  "read_graphics_control st =
     (case readByte (reader st) of
        Inl e \<Rightarrow> Inl e
      | Inr (blockSize, r1) \<Rightarrow>
         if blockSize = 4 then
           (case readByte r1 of
              Inl e \<Rightarrow> Inl e
            | Inr (packedFlags, r2) \<Rightarrow>
               (case read16 r2 of
                  Inl e \<Rightarrow> Inl e
                | Inr (d, r3) \<Rightarrow>
                   (case readByte r3 of
                      Inl e \<Rightarrow> Inl e
                    | Inr (t, r4) \<Rightarrow>
                       (let disposalFlag = drop_bit 2 (packedFlags AND 0x1c);
                            disp = (if disposalFlag = 1 then DoNotDispose
                                    else if disposalFlag = 2 then RestoreToBackground
                                    else if disposalFlag = 3 then RestoreToPrevious
                                    else DoNotDispose);
                            transp = (if packedFlags AND 0x01 = 0 then - 1 else int t)
                        in case readByte r4 of
                             Inl e \<Rightarrow> Inl e
                           | Inr (terminator, r5) \<Rightarrow>
                              Inr (st\<lparr>reader := r5, currentDelay := int d * 10,
                                      currentDisposal := disp,
                                      currentTransparentIndex := transp\<rparr>)))))
         else
           (case readByte (r1\<lparr>r_position := r_position r1 + blockSize\<rparr>) of
              Inl e \<Rightarrow> Inl e
            | Inr (terminator, r2) \<Rightarrow> Inr (st\<lparr>reader := r2\<rparr>)))"

text \<open>An extension (separator \<open>0x21\<close>): the new state and whether the loop goes on. In
  \<^verbatim>\<open>getFrames\<close> every branch of the application extension (label \<open>0xff\<close>), whatever the
  identifier, skips the sub-blocks and goes on. For a label that no branch names, a failing
  skip is caught and ends the loop.\<close>

definition read_extension :: "frames_state \<Rightarrow> error + (bool \<times> frames_state)" where
  "read_extension st =
     (case readByte (reader st) of
        Inl e \<Rightarrow> Inl e
      | Inr (label, r1) \<Rightarrow>
         if label = 0xff then
           (case readByte r1 of
              Inl e \<Rightarrow> Inl e
            | Inr (blockSize, r2) \<Rightarrow>
               (case readBytes r2 blockSize of
                  Inl e \<Rightarrow> Inl e
                | Inr (appData, r3) \<Rightarrow>
                   (case skipDataSubBlocks r3 of
                      Inl e \<Rightarrow> Inl e
                    | Inr r4 \<Rightarrow> Inr (True, st\<lparr>reader := r4\<rparr>))))
         else if label = 0xf9 then
           (case read_graphics_control (st\<lparr>reader := r1\<rparr>) of
              Inl e \<Rightarrow> Inl e
            | Inr st1 \<Rightarrow> Inr (True, st1))
         else if label = 0xfe then
           (case skipDataSubBlocks r1 of
              Inl e \<Rightarrow> Inl e
            | Inr r2 \<Rightarrow> Inr (True, st\<lparr>reader := r2\<rparr>))
         else if label = 0x01 then
           (case readByte r1 of
              Inl e \<Rightarrow> Inl e
            | Inr (blockSize, r2) \<Rightarrow>
               (case readBytes r2 blockSize of
                  Inl e \<Rightarrow> Inl e
                | Inr (grid, r3) \<Rightarrow>
                   (case skipDataSubBlocks r3 of
                      Inl e \<Rightarrow> Inl e
                    | Inr r4 \<Rightarrow> Inr (True, st\<lparr>reader := r4\<rparr>))))
         else if label = 0xfd then
           (case skipDataSubBlocks r1 of
              Inl e \<Rightarrow> Inl e
            | Inr r2 \<Rightarrow> Inr (True, st\<lparr>reader := r2\<rparr>))
         else if label \<ge> 0x80 \<and> label \<le> 0xfc then
           (case skipDataSubBlocks r1 of
              Inl e \<Rightarrow> Inl e
            | Inr r2 \<Rightarrow> Inr (True, st\<lparr>reader := r2\<rparr>))
         else
           (case skipDataSubBlocks r1 of
              Inl e \<Rightarrow> Inr (False, st\<lparr>reader := r1\<rparr>)
            | Inr r2 \<Rightarrow> Inr (True, st\<lparr>reader := r2\<rparr>)))"

text \<open>The \<^verbatim>\<open>try\<close> block of an image: the disposal step and the snapshot, which change the
  canvas before \<^verbatim>\<open>decompressLZW\<close> can throw, then the frame; and the \<^verbatim>\<open>catch\<close> block with
  its placeholder frame.\<close>

definition apply_disposal ::
  "screen \<Rightarrow> frames_state \<Rightarrow> nat \<Rightarrow> nat \<Rightarrow> nat \<Rightarrow> nat \<Rightarrow> frames_state" where
  "apply_disposal scr st frameLeft frameTop frameWidth frameHeight =
     (let canvas1 =
            (if previousCanvas st \<noteq> None \<and> currentDisposal st = RestoreToPrevious
             then the (previousCanvas st)
             else if currentDisposal st = RestoreToBackground
             then clearFrameArea (canvas st) frameLeft frameTop frameWidth frameHeight
                    (globalColorTable scr) (backgroundColorIndex scr) (screen_width scr)
             else canvas st);
          previousCanvas1 =
            (if currentDisposal st = RestoreToPrevious then Some canvas1 else previousCanvas st)
      in st\<lparr>canvas := canvas1, previousCanvas := previousCanvas1\<rparr>)"

definition emit_frame ::
  "screen \<Rightarrow> frames_state \<Rightarrow> bytes \<Rightarrow> nat \<Rightarrow> nat \<Rightarrow> nat \<Rightarrow> nat \<Rightarrow> bytes option \<Rightarrow> bool
     \<Rightarrow> frames_state" where
  "emit_frame scr st indexData frameLeft frameTop frameWidth frameHeight colorTable interlaceFlag =
     (let canvas1 = compositeFrame (canvas st) indexData frameLeft frameTop frameWidth frameHeight
                      colorTable (currentTransparentIndex st) interlaceFlag
                      (screen_width scr) (screen_height scr);
          frame = \<lparr>imageData = \<lparr>width = int (screen_width scr), height = int (screen_height scr),
                                 data = canvas1\<rparr>,
                   delay = currentDelay st, disposal = currentDisposal st, left = 0, top' = 0,
                   transparentIndex = currentTransparentIndex st\<rparr>
      in st\<lparr>canvas := canvas1, frames := frames st @ [frame], currentDelay := 100,
            currentDisposal := DoNotDispose, currentTransparentIndex := - 1\<rparr>)"

definition emit_placeholder :: "frames_state \<Rightarrow> nat \<Rightarrow> nat \<Rightarrow> nat \<Rightarrow> nat \<Rightarrow> frames_state" where
  "emit_placeholder st frameLeft frameTop frameWidth frameHeight =
     (let errorFrame =
            \<lparr>imageData = \<lparr>width = int frameWidth, height = int frameHeight,
                           data = replicate (frameWidth * frameHeight * 4) 255\<rparr>,
             delay = currentDelay st, disposal = currentDisposal st, left = int frameLeft,
             top' = int frameTop, transparentIndex = currentTransparentIndex st\<rparr>
      in st\<lparr>frames := frames st @ [errorFrame], currentDelay := 100,
            currentDisposal := DoNotDispose, currentTransparentIndex := - 1\<rparr>)"

text \<open>An image (separator \<open>0x2c\<close>).\<close>

definition read_image :: "screen \<Rightarrow> frames_state \<Rightarrow> error + frames_state" where
  "read_image scr st =
     (case read16 (reader st) of Inl e \<Rightarrow> Inl e | Inr (frameLeft, r1) \<Rightarrow>
      case read16 r1 of Inl e \<Rightarrow> Inl e | Inr (frameTop, r2) \<Rightarrow>
      case read16 r2 of Inl e \<Rightarrow> Inl e | Inr (frameWidth, r3) \<Rightarrow>
      case read16 r3 of Inl e \<Rightarrow> Inl e | Inr (frameHeight, r4) \<Rightarrow>
      case readByte r4 of Inl e \<Rightarrow> Inl e | Inr (framePacked, r5) \<Rightarrow>
        (let localColorTableFlag = (framePacked AND 0x80 \<noteq> 0);
             interlaceFlag = (framePacked AND 0x40 \<noteq> 0);
             localColorTableSize =
               (if localColorTableFlag then push_bit (framePacked AND 0x07) 2 else 0)
         in case (if localColorTableFlag
                  then (case readBytes r5 (localColorTableSize * 3) of
                          Inl e \<Rightarrow> Inl e
                        | Inr (t, r6) \<Rightarrow> Inr (Some t, r6))
                  else Inr (None, r5)) of
              Inl e \<Rightarrow> Inl e
            | Inr (localColorTable, r6) \<Rightarrow>
               (let colorTable = (case localColorTable of Some t \<Rightarrow> Some t
                                  | None \<Rightarrow> globalColorTable scr)
                in case readByte r6 of Inl e \<Rightarrow> Inl e | Inr (lzwMinimumCodeSize, r7) \<Rightarrow>
                   case readDataSubBlocks r7 of Inl e \<Rightarrow> Inl e | Inr (compressedData, r8) \<Rightarrow>
                     (let st1 = apply_disposal scr (st\<lparr>reader := r8\<rparr>)
                                  frameLeft frameTop frameWidth frameHeight
                      in case decompressLZW compressedData (int lzwMinimumCodeSize) of
                           Inr indexData \<Rightarrow>
                            Inr (emit_frame scr st1 indexData frameLeft frameTop frameWidth
                                   frameHeight colorTable interlaceFlag)
                         | Inl e \<Rightarrow>
                            Inr (emit_placeholder st1 frameLeft frameTop frameWidth frameHeight)))))"

text \<open>One pass of the \<^verbatim>\<open>while\<close> loop of \<^verbatim>\<open>getFrames\<close>.\<close>

definition frames_step :: "screen \<Rightarrow> frames_state \<Rightarrow> error + (bool \<times> frames_state)" where
  "frames_step scr st =
     (case readByte (reader st) of
        Inl e \<Rightarrow> Inl e
      | Inr (separator, r1) \<Rightarrow>
         if separator = 0x21 then read_extension (st\<lparr>reader := r1\<rparr>)
         else if separator = 0x2c then
           (case read_image scr (st\<lparr>reader := r1\<rparr>) of
              Inl e \<Rightarrow> Inl e
            | Inr st1 \<Rightarrow> Inr (True, st1))
         else if separator = 0x3b then Inr (False, st\<lparr>reader := r1\<rparr>)
         else Inl GifValidationError)"

text \<open>Every read leaves the data alone and moves the position forward; a pass of the loop
  that goes on has read at least its separator. This is why the loop ends.\<close>

definition advances :: "GifReader \<Rightarrow> GifReader \<Rightarrow> bool" where
  "advances r r' = (r_data r' = r_data r \<and> r_position r \<le> r_position r')"

lemma advances_refl: "advances r r"
  by (simp add: advances_def)

lemma advances_trans: "advances r r1 \<Longrightarrow> advances r1 r2 \<Longrightarrow> advances r r2"
  by (auto simp: advances_def)

lemma readByte_advances:
  "readByte r = Inr (b, r') \<Longrightarrow>
     r_data r' = r_data r \<and> r_position r' = r_position r + 1 \<and> r_position r < length (r_data r)"
  by (auto simp: readByte_def split: if_splits)

lemma readByte_advances': "readByte r = Inr (b, r') \<Longrightarrow> advances r r'"
  by (auto simp: advances_def dest: readByte_advances)

lemma read16_advances: "read16 r = Inr (v, r') \<Longrightarrow> advances r r'"
  by (auto simp: read16_def split: sum.splits prod.splits
           dest!: readByte_advances' intro: advances_trans)

lemma readBytes_advances: "readBytes r n = Inr (bs, r') \<Longrightarrow> advances r r'"
  by (auto simp: readBytes_def advances_def split: if_splits)

lemma skipDataSubBlocks_advances: "skipDataSubBlocks r = Inr r' \<Longrightarrow> advances r r'"
proof (induction r rule: skipDataSubBlocks.induct)
  case (1 r)
  from "1.prems" obtain blockSize r1 where rb: "readByte r = Inr (blockSize, r1)"
    by (subst (asm) skipDataSubBlocks.simps) (auto split: sum.splits)
  show ?case
  proof (cases "blockSize > 0")
    case True
    then have "skipDataSubBlocks (r1\<lparr>r_position := r_position r1 + blockSize\<rparr>) = Inr r'"
      using "1.prems" rb by (subst (asm) skipDataSubBlocks.simps) simp
    then have "advances (r1\<lparr>r_position := r_position r1 + blockSize\<rparr>) r'"
      using "1.IH" rb True by simp
    then show ?thesis
      using readByte_advances [OF rb] by (auto simp: advances_def)
  next
    case False
    then have "r' = r1"
      using "1.prems" rb by (subst (asm) skipDataSubBlocks.simps) simp
    then show ?thesis using readByte_advances' [OF rb] by simp
  qed
qed

lemma readDataSubBlocks_loop_advances:
  "readDataSubBlocks_loop r acc = Inr (bs, r') \<Longrightarrow> advances r r'"
proof (induction r acc rule: readDataSubBlocks_loop.induct)
  case (1 r acc)
  from "1.prems" obtain blockSize r1 where rb: "readByte r = Inr (blockSize, r1)"
    by (subst (asm) readDataSubBlocks_loop.simps) (auto split: sum.splits)
  show ?case
  proof (cases "blockSize > 0")
    case True
    with "1.prems" rb obtain blockData r2 where
      rbs: "readBytes r1 blockSize = Inr (blockData, r2)"
      and rec: "readDataSubBlocks_loop r2 (acc @ blockData) = Inr (bs, r')"
      by (subst (asm) readDataSubBlocks_loop.simps) (auto split: sum.splits)
    have "advances r2 r'"
      using "1.IH" rb True rbs rec by simp
    then show ?thesis
      using readByte_advances' [OF rb] readBytes_advances [OF rbs] by (blast intro: advances_trans)
  next
    case False
    then have "r' = r1"
      using "1.prems" rb by (subst (asm) readDataSubBlocks_loop.simps) simp
    then show ?thesis using readByte_advances' [OF rb] by simp
  qed
qed

lemma readDataSubBlocks_advances: "readDataSubBlocks r = Inr (bs, r') \<Longrightarrow> advances r r'"
  unfolding readDataSubBlocks_def by (rule readDataSubBlocks_loop_advances)

lemmas reads_advance =
  readByte_advances' [unfolded advances_def] read16_advances [unfolded advances_def]
  readBytes_advances [unfolded advances_def] skipDataSubBlocks_advances [unfolded advances_def]
  readDataSubBlocks_advances [unfolded advances_def]

lemma read_graphics_control_advances:
  "read_graphics_control st = Inr st' \<Longrightarrow> advances (reader st) (reader st')"
  unfolding read_graphics_control_def
  by (auto simp: Let_def advances_def split: sum.splits prod.splits if_splits
           dest!: reads_advance)

lemma read_extension_advances:
  "read_extension st = Inr (b, st') \<Longrightarrow> advances (reader st) (reader st')"
  unfolding read_extension_def
  by (auto simp: Let_def advances_def split: sum.splits prod.splits if_splits
           dest!: reads_advance read_graphics_control_advances [unfolded advances_def])

lemma apply_disposal_reader [simp]: "reader (apply_disposal scr st l t w h) = reader st"
  by (simp add: apply_disposal_def Let_def)

lemma emit_frame_reader [simp]: "reader (emit_frame scr st ix l t w h ct il) = reader st"
  by (simp add: emit_frame_def Let_def)

lemma emit_placeholder_reader [simp]: "reader (emit_placeholder st l t w h) = reader st"
  by (simp add: emit_placeholder_def Let_def)

lemma read_image_advances:
  "read_image scr st = Inr st' \<Longrightarrow> advances (reader st) (reader st')"
  unfolding read_image_def
  by (auto simp: Let_def advances_def split: sum.splits prod.splits if_splits
           dest!: reads_advance)

lemma frames_step_advances:
  assumes "frames_step scr st = Inr (b, st')"
  shows "r_data (reader st') = r_data (reader st) \<and> r_position (reader st) < r_position (reader st')"
proof -
  from assms obtain separator r1 where rb: "readByte (reader st) = Inr (separator, r1)"
    by (auto simp: frames_step_def split: sum.splits)
  have "advances r1 (reader st')"
    using assms rb
    by (auto simp: frames_step_def advances_def split: sum.splits if_splits
             dest!: read_extension_advances [unfolded advances_def]
                    read_image_advances [unfolded advances_def])
  then show ?thesis
    using readByte_advances [OF rb] by (auto simp: advances_def)
qed

function getFrames_loop :: "screen \<Rightarrow> frames_state \<Rightarrow> error + GifFrame list" where
  "getFrames_loop scr st =
     (if r_position (reader st) < length (r_data (reader st)) then
        (case frames_step scr st of
           Inl e \<Rightarrow> Inl e
         | Inr (continue, st1) \<Rightarrow>
            if continue then getFrames_loop scr st1 else Inr (frames st1))
      else Inr (frames st))"
  by pat_completeness auto
termination
proof (relation "measure (\<lambda>(scr, st). length (r_data (reader st)) - r_position (reader st))")
  show "wf (measure (\<lambda>(scr, st). length (r_data (reader st)) - r_position (reader st)))"
    by simp
next
  fix scr st x2 x1 y
  assume "r_position (reader st) < length (r_data (reader st))"
    and "frames_step scr st = Inr x2" and "(x1, y) = x2" and "x1"
  then show "((scr, y), scr, st)
      \<in> measure (\<lambda>(scr, st). length (r_data (reader st)) - r_position (reader st))"
    using frames_step_advances [of scr st x1 y] by auto
qed

declare getFrames_loop.simps [simp del]

text \<open>\<^verbatim>\<open>getFrames\<close> of a reader that has no frames yet: the logical screen descriptor, the
  canvas in the background colour, the loop.\<close>

definition getFrames :: "GifReader \<Rightarrow> error + GifFrame list" where
  "getFrames r0 =
     (case read16 (r0\<lparr>r_position := 6\<rparr>) of Inl e \<Rightarrow> Inl e | Inr (wd, r1) \<Rightarrow>
      case read16 r1 of Inl e \<Rightarrow> Inl e | Inr (ht, r2) \<Rightarrow>
      case readByte r2 of Inl e \<Rightarrow> Inl e | Inr (packed, r3) \<Rightarrow>
      case readByte r3 of Inl e \<Rightarrow> Inl e | Inr (bgIndex, r4) \<Rightarrow>
      case readByte r4 of Inl e \<Rightarrow> Inl e | Inr (aspect, r5) \<Rightarrow>
        (let globalColorTableFlag = (packed AND 0x80 \<noteq> 0);
             globalColorTableSize = push_bit (packed AND 0x07) 2
         in case (if globalColorTableFlag
                  then (case readBytes r5 (globalColorTableSize * 3) of
                          Inl e \<Rightarrow> Inl e
                        | Inr (t, r6) \<Rightarrow> Inr (Some t, r6))
                  else Inr (None, r5)) of
              Inl e \<Rightarrow> Inl e
            | Inr (gct, r6) \<Rightarrow>
               (let scr = \<lparr>screen_width = wd, screen_height = ht, globalColorTable = gct,
                           backgroundColorIndex = bgIndex\<rparr>;
                    canvas0 =
                      (case background_rgba gct bgIndex of
                         (bgR, bgG, bgB, bgA) \<Rightarrow>
                          if bgA = 255 then concat (replicate (wd * ht) [bgR, bgG, bgB, 255])
                          else replicate (wd * ht * 4) 0)
                in getFrames_loop scr
                     \<lparr>reader = r6, canvas = canvas0, previousCanvas = None, currentDelay = 100,
                      currentDisposal = DoNotDispose, currentTransparentIndex = - 1,
                      frames = []\<rparr>)))"

text \<open>\<^verbatim>\<open>new GifReader(data).getFrames()\<close>.\<close>

definition decodeFrames :: "bytes \<Rightarrow> error + GifFrame list" where
  "decodeFrames d = (case validateHeader d of Inl e \<Rightarrow> Inl e | Inr r \<Rightarrow> getFrames r)"

subsection \<open>Reading what the writer wrote\<close>

text \<open>The bytes from the position of a reader on, and the reader \<open>n\<close> bytes further.\<close>

definition remaining :: "GifReader \<Rightarrow> bytes" where
  "remaining r = drop (r_position r) (r_data r)"

definition skip :: "nat \<Rightarrow> GifReader \<Rightarrow> GifReader" where
  "skip n r = r\<lparr>r_position := r_position r + n\<rparr>"

text \<open>\<open>blocks\<close>, then a zero, are read as the sub-blocks with the bytes \<open>d\<close>.\<close>

definition sub_blocks :: "bytes \<Rightarrow> bytes \<Rightarrow> bool" where
  "sub_blocks blocks d =
     (\<forall>r acc rest. remaining r = blocks @ 0 # rest \<longrightarrow>
        readDataSubBlocks_loop r acc = Inr (acc @ d, skip (Suc (length blocks)) r))"

text \<open>The bytes of one frame, as \<^verbatim>\<open>getFrames\<close> reads them: a pass or two of the loop add one
  frame, with the delay \<open>dl\<close> of the graphics control extension, or the current delay if
  there is none, and leave the reader behind the block.\<close>

definition frame_block :: "bytes \<Rightarrow> int option \<Rightarrow> bool" where
  "frame_block blk dl =
     (\<forall>scr st rest. remaining (reader st) = blk @ rest \<longrightarrow>
        (\<exists>st' f. getFrames_loop scr st = getFrames_loop scr st' \<and>
           frames st' = frames st @ [f] \<and>
           delay f = (case dl of None \<Rightarrow> currentDelay st | Some c \<Rightarrow> c) \<and>
           currentDelay st' = 100 \<and> remaining (reader st') = rest))"

text \<open>The bytes of several frames, read from the default delay on.\<close>

definition frames_block :: "bytes \<Rightarrow> int option list \<Rightarrow> bool" where
  "frames_block blk dls =
     (\<forall>scr st rest. remaining (reader st) = blk @ rest \<and> currentDelay st = 100 \<longrightarrow>
        (\<exists>st' fs. getFrames_loop scr st = getFrames_loop scr st' \<and>
           frames st' = frames st @ fs \<and>
           map delay fs = map (\<lambda>dl. case dl of None \<Rightarrow> 100 | Some c \<Rightarrow> c) dls \<and>
           currentDelay st' = 100 \<and> remaining (reader st') = rest))"

text \<open>The delay that the reader finds for a frame written with the options \<open>io\<close> by a
  writer with \<open>n\<close> frames.\<close>

definition written_delay :: "nat \<Rightarrow> ImageOptions \<Rightarrow> int option" where
  "written_delay n io =
     (if n > 0 \<or> opt_delay io \<noteq> None \<or> opt_disposal io \<noteq> None \<or>
         opt_transparentIndex io \<noteq> None
      then Some (msToGifDelay (case opt_delay io of None \<Rightarrow> 0 | Some d \<Rightarrow> d) * 10)
      else None)"

text \<open>\<^verbatim>\<open>imageOptions[index] || {}\<close>.\<close>

definition options_at :: "ImageOptions list \<Rightarrow> nat \<Rightarrow> ImageOptions" where
  "options_at imageOptions index =
     (if index < length imageOptions then imageOptions ! index else no_ImageOptions)"

section \<open>The colour quantizer (quantizer.ts)\<close>

record RGBColor =
  red :: nat
  green :: nat
  blue :: nat





subsection \<open>Colour cubes\<close>

record ColorCube =
  colors :: "RGBColor list"






subsection \<open>Quickselect\<close>










subsection \<open>Median cut\<close>










subsection \<open>MedianCutQuantizer\<close>












section \<open>Color tables\<close>

lemma shl32_1: "n < 31 \<Longrightarrow> shl32 1 n = 2 ^ n"
proof -
  assume n: "n < 31"
  have "(2::int) ^ n < 2 ^ 31"
    by (rule power_strict_increasing) (use n in simp_all)
  moreover have "- (2 ^ 31) \<le> (2::int) ^ n"
    by (rule order_trans [of _ 0]) simp_all
  ultimately have "signed_take_bit 31 ((2::int) ^ n) = 2 ^ n"
    by (rule signed_take_bit_int_eq_self [rotated])
  then have "sint (word_of_int (2 ^ n) :: 32 word) = 2 ^ n"
    by (simp only: sint_sbintrunc') simp
  moreover have "push_bit (n mod 32) (word_of_int 1 :: 32 word) = word_of_int (2 ^ n)"
    using n by (simp add: push_bit_of_1)
  ultimately show ?thesis
    unfolding shl32_def by (simp only:)
qed

text \<open>Entered with \<open>pow2 = 2 ^ (sz + 1)\<close>, the loop returns, and returns the first size
  from \<open>sz\<close> on whose power of two reaches the colour count.\<close>

lemma colorTableSize_loop_returns:
  "\<exists>s. colorTableSize_loop sz (2 ^ (sz + 1)) cc = Some s \<and> sz \<le> s \<and>
      cc \<le> 2 ^ (s + 1) \<and> (s = sz \<or> 2 ^ s < cc)"
proof (induction "cc - 2 ^ (sz + 1)" arbitrary: sz rule: less_induct)
  case less
  show ?case
  proof (cases "2 ^ (sz + 1) < cc")
    case False
    then show ?thesis by (subst colorTableSize_loop.simps) auto
  next
    case True
    have "cc - 2 ^ (sz + 1 + 1) < cc - 2 ^ (sz + 1)"
      by (rule diff_less_mono2) (use True in simp_all)
    from less.hyps [OF this]
    obtain s where s: "colorTableSize_loop (sz + 1) (2 ^ (sz + 1 + 1)) cc = Some s" "sz + 1 \<le> s"
      "cc \<le> 2 ^ (s + 1)" "s = sz + 1 \<or> 2 ^ s < cc"
      by auto
    have "colorTableSize_loop sz (2 ^ (sz + 1)) cc = Some s"
      using True s(1) by (subst colorTableSize_loop.simps) simp
    moreover have "2 ^ s < cc"
      using s(4) True by auto
    ultimately show ?thesis using s by auto
  qed
qed

lemma calculateColorTableSize_returns:
  assumes "1 \<le> C" "C \<le> 256"
  shows "\<exists>s. calculateColorTableSize C = Some (Inr s) \<and> s \<le> 7 \<and> C \<le> 2 ^ (s + 1) \<and>
           (\<forall>t. C \<le> 2 ^ (t + 1) \<longrightarrow> s \<le> t)"
proof -
  from colorTableSize_loop_returns [of 0 "nat C"]
  obtain s where s: "colorTableSize_loop 0 2 (nat C) = Some s" "nat C \<le> 2 ^ (s + 1)"
    "s = 0 \<or> 2 ^ s < nat C"
    by auto
  have c: "calculateColorTableSize C = Some (Inr s)"
    using assms s(1) by (simp add: calculateColorTableSize_def MAX_COLORS_def)
  have up: "C \<le> 2 ^ (s + 1)"
  proof -
    have "int (nat C) \<le> int (2 ^ (s + 1))" using s(2) by (simp only: of_nat_le_iff)
    then show ?thesis using assms by simp
  qed
  have low: "s \<le> t" if "C \<le> 2 ^ (t + 1)" for t
  proof (cases "s = 0")
    case False
    then have "2 ^ s < nat C" using s(3) by simp
    moreover have "nat C \<le> 2 ^ (t + 1)" using that by (simp add: nat_le_iff)
    ultimately have "(2::nat) ^ s < 2 ^ (t + 1)" by linarith
    then have "s < t + 1" by (simp only: power_strict_increasing_iff rel_simps)
    then show ?thesis by simp
  qed simp
  have "s \<le> 7" using low [of 7] assms by simp
  then show ?thesis using c up low by blast
qed

lemma third_ge: "(of_int (2 ^ k) \<le> (of_nat L / 3 :: rat)) = (3 * 2 ^ k \<le> L)"
proof -
  have "(of_int (2 ^ k) \<le> (of_nat L / 3 :: rat)) = ((of_nat (2 ^ k * 3) :: rat) \<le> of_nat L)"
    by (simp add: pos_le_divide_eq)
  also have "\<dots> = (2 ^ k * 3 \<le> L)"
    by (simp only: of_nat_le_iff)
  finally show ?thesis by (simp add: mult.commute)
qed

lemma padColorTable_pads:
  assumes "s \<le> 7" "length pal \<le> 3 * 2 ^ (s + 1)"
  shows "padColorTable pal s = pal @ replicate (3 * 2 ^ (s + 1) - length pal) 0"
proof -
  have sh: "shl32 1 (s + 1) = 2 ^ (s + 1)" using assms(1) by (intro shl32_1) simp
  have "nat ((2::int) ^ (s + 1)) = nat 2 ^ (s + 1)" by (rule nat_power_eq) simp
  then have n: "nat ((2::int) ^ (s + 1)) = 2 ^ (s + 1)" by (simp only: nat_numeral)
  have "padColorTable pal s =
      (if 3 * 2 ^ (s + 1) \<le> length pal then pal
       else pal @ replicate (2 ^ (s + 1) * 3 - length pal) 0)"
    unfolding padColorTable_def Let_def sh n third_ge ..
  then show ?thesis using assms(2) by (simp add: mult.commute)
qed

text \<open>C7: for a colour count \<open>C\<close> in \<open>[1, 256]\<close>, \<open>calculateColorTableSize\<close> returns the
  smallest \<open>s\<close> in \<open>[0, 7]\<close> with \<open>2 ^ (s + 1) \<ge> C\<close>, and \<open>padColorTable\<close> of a palette of
  \<open>C\<close> colours with that size is \<open>3 * 2 ^ (s + 1)\<close> bytes long: the palette, then zeros.\<close>

theorem colorTableSize_and_padding:
  assumes "1 \<le> C" "C \<le> 256" "length pal = 3 * nat C"
  shows "\<exists>s. calculateColorTableSize C = Some (Inr s) \<and> s \<le> 7 \<and> C \<le> 2 ^ (s + 1) \<and>
           (\<forall>t. C \<le> 2 ^ (t + 1) \<longrightarrow> s \<le> t) \<and>
           length (padColorTable pal s) = 3 * 2 ^ (s + 1) \<and>
           take (3 * nat C) (padColorTable pal s) = pal \<and>
           drop (3 * nat C) (padColorTable pal s) = replicate (3 * 2 ^ (s + 1) - 3 * nat C) 0"
proof -
  from calculateColorTableSize_returns [OF assms(1,2)]
  obtain s where s: "calculateColorTableSize C = Some (Inr s)" "s \<le> 7" "C \<le> 2 ^ (s + 1)"
    "\<forall>t. C \<le> 2 ^ (t + 1) \<longrightarrow> s \<le> t"
    by blast
  have "nat C \<le> 2 ^ (s + 1)" using s(3) by (simp add: nat_le_iff)
  then have len: "length pal \<le> 3 * 2 ^ (s + 1)" using assms(3) by simp
  note p = padColorTable_pads [OF s(2) len]
  have "length (padColorTable pal s) = 3 * 2 ^ (s + 1)" using len by (simp add: p)
  moreover have "take (3 * nat C) (padColorTable pal s) = pal"
    using assms(3) by (simp add: p)
  moreover have "drop (3 * nat C) (padColorTable pal s) = replicate (3 * 2 ^ (s + 1) - 3 * nat C) 0"
    using assms(3) by (simp add: p)
  ultimately show ?thesis using s by blast
qed

theorem colorTableSize_and_padding_witness:
  "\<exists>s. calculateColorTableSize 3 = Some (Inr s) \<and> s \<le> 7 \<and> (3::int) \<le> 2 ^ (s + 1) \<and>
           (\<forall>t. (3::int) \<le> 2 ^ (t + 1) \<longrightarrow> s \<le> t) \<and>
           length (padColorTable [255, 0, 0, 0, 255, 0, 0, 0, 255] s) = 3 * 2 ^ (s + 1) \<and>
           take (3 * nat 3) (padColorTable [255, 0, 0, 0, 255, 0, 0, 0, 255] s) = [255, 0, 0, 0, 255, 0, 0, 0, 255] \<and>
           drop (3 * nat 3) (padColorTable [255, 0, 0, 0, 255, 0, 0, 0, 255] s) = replicate (3 * 2 ^ (s + 1) - 3 * nat 3) 0"
  using colorTableSize_and_padding [of 3 "[255, 0, 0, 0, 255, 0, 0, 0, 255]"] by simp

section \<open>The writer appends\<close>

lemma extends_refl [simp]: "extends w w"
  by (simp add: extends_def)

lemma extends_trans: "extends w w1 \<Longrightarrow> extends w1 w2 \<Longrightarrow> extends w w2"
  by (auto simp: extends_def)

lemma and_then_extends:
  assumes "extends w (snd r)" and "\<And>w1. extends w1 (snd (f w1))"
  shows "extends w (snd (and_then r f))"
proof (cases r)
  case (Pair oc w1)
  then show ?thesis
    using assms(1) assms(2) [of w1]
    by (cases oc) (auto simp: and_then_def intro: extends_trans)
qed

lemma and_then_Returned:
  "and_then r f = (Returned, w') \<Longrightarrow> \<exists>w1. r = (Returned, w1) \<and> f w1 = (Returned, w')"
  by (cases r; cases "fst r") (auto simp: and_then_def)

lemma writeByte_extends: "extends w (snd (writeByte w b))"
  by (simp add: writeByte_def extends_def)

lemma writeBytes_extends: "extends w (snd (writeBytes w bs))"
  by (induction bs arbitrary: w) (auto intro!: and_then_extends writeByte_extends)

lemma writeBytes_Uint8Array_extends: "extends w (snd (writeBytes_Uint8Array w bs))"
  by (simp add: writeBytes_Uint8Array_def extends_def)

lemma write16_extends: "extends w (snd (write16 w v))"
  by (auto simp: write16_def writeBytes_Uint8Array_extends split: sum.splits)

lemmas prim_extends = writeByte_extends writeBytes_extends writeBytes_Uint8Array_extends
  write16_extends

lemma extends_flags [simp]:
  "extends w (w\<lparr>hasWrittenHeader := True\<rparr>)"
  "extends w (w\<lparr>hasWrittenLogicalScreen := True\<rparr>)"
  "extends w (w\<lparr>frameCount := n\<rparr>)"
  by (simp_all add: extends_def)

lemma writeHeader_extends: "extends w (snd (writeHeader w))"
  by (auto simp: writeHeader_def intro!: and_then_extends prim_extends)

lemma writeLogicalScreen_extends: "extends w (snd (writeLogicalScreen w wd ht go))"
  unfolding writeLogicalScreen_def
  by (auto simp: Let_def split: sum.splits option.splits prod.splits
           intro!: and_then_extends prim_extends)

lemma writeAnimationInfo_extends: "extends w (snd (writeAnimationInfo w ao))"
  unfolding writeAnimationInfo_def
  by (auto simp: Let_def simp del: writeBytes.simps split: sum.splits intro!: prim_extends)

lemma writeGraphicsControl_extends: "extends w (snd (writeGraphicsControl w io))"
  unfolding writeGraphicsControl_def Let_def
  by (intro and_then_extends prim_extends)

lemma writeImageDescriptor_extends: "extends w (snd (writeImageDescriptor w img io))"
  unfolding writeImageDescriptor_def
  by (auto simp: Let_def split: sum.splits option.splits intro!: and_then_extends prim_extends)

lemma writeDataSubBlocks_loop_extends: "extends w (snd (writeDataSubBlocks_loop w d offset))"
proof (induction w d offset rule: writeDataSubBlocks_loop.induct)
  case (1 w d offset)
  show ?case
    by (subst writeDataSubBlocks_loop.simps)
       (auto simp: Let_def intro!: and_then_extends prim_extends "1.IH")
qed

lemma writeImageData_extends: "extends w (snd (writeImageData w img))"
  unfolding writeImageData_def writeDataSubBlocks_def
  by (auto simp: Let_def split: sum.splits
           intro!: and_then_extends prim_extends writeDataSubBlocks_loop_extends)

lemma writeImage_extends: "extends w (snd (writeImage w img io))"
  unfolding writeImage_def
  by (auto simp: Let_def split: sum.splits option.splits
           intro!: and_then_extends prim_extends writeGraphicsControl_extends
                   writeImageDescriptor_extends writeImageData_extends)

lemma writeImages_extends: "extends w (snd (writeImages w imgs ios i))"
  by (induction imgs arbitrary: w i) (auto intro!: and_then_extends writeImage_extends)

lemma writeTrailer_Returned:
  "writeTrailer w = (Returned, w') \<Longrightarrow> output_data w' = output_data w @ [0x3b]"
  by (auto simp: writeTrailer_def writeByte_def GIF_TRAILER_def split: if_splits)

lemma writeHeader_new:
  "writeHeader new_GifWriter = (Returned, w1) \<Longrightarrow> output_data w1 = [0x47, 0x49, 0x46, 0x38, 0x39, 0x61]"
  by (auto simp: writeHeader_def new_GifWriter_def and_then_def writeBytes_Uint8Array_def
        GIF_SIGNATURE_def GIF_VERSION_89A_def)

lemma framed:
  assumes "output_data w1 = [0x47, 0x49, 0x46, 0x38, 0x39, 0x61]" "extends w1 w3"
    "output_data w' = output_data w3 @ [0x3b]"
  shows "take 6 (output_data w') = [0x47, 0x49, 0x46, 0x38, 0x39, 0x61] \<and> last (output_data w') = 0x3b"
  using assms by (auto simp: extends_def)

section \<open>Signature and trailer\<close>

text \<open>C9: the output of a completed \<open>writeStaticGif\<close> or \<open>writeAnimatedGif\<close> on a new
  writer starts with the six bytes of "GIF89a" and ends with the byte \<open>0x3b\<close>.\<close>

theorem encode_signature_and_trailer:
  "(writeStaticGif new_GifWriter img go io = (Returned, w') \<longrightarrow>
      take 6 (output_data w') = [0x47, 0x49, 0x46, 0x38, 0x39, 0x61] \<and> last (output_data w') = 0x3b) \<and>
   (writeAnimatedGif new_GifWriter imgs go ao ios = (Returned, w'') \<longrightarrow>
      take 6 (output_data w'') = [0x47, 0x49, 0x46, 0x38, 0x39, 0x61] \<and> last (output_data w'') = 0x3b)"
proof (intro conjI impI)
  assume "writeStaticGif new_GifWriter img go io = (Returned, w')"
  then obtain w1 w2 w3 where
    h: "writeHeader new_GifWriter = (Returned, w1)"
    and l: "writeLogicalScreen w1 (width img) (height img) go = (Returned, w2)"
    and i: "writeImage w2 img io = (Returned, w3)"
    and t: "writeTrailer w3 = (Returned, w')"
    unfolding writeStaticGif_def by (blast dest!: and_then_Returned)
  have "extends w1 w2" using writeLogicalScreen_extends [of w1 "width img" "height img" go] l by simp
  moreover have "extends w2 w3" using writeImage_extends [of w2 img io] i by simp
  ultimately have "extends w1 w3" by (rule extends_trans)
  from framed [OF writeHeader_new [OF h] this writeTrailer_Returned [OF t]]
  show "take 6 (output_data w') = [0x47, 0x49, 0x46, 0x38, 0x39, 0x61]"
    and "last (output_data w') = 0x3b" by simp_all
next
  assume a: "writeAnimatedGif new_GifWriter imgs go ao ios = (Returned, w'')"
  then have "length imgs \<noteq> 0" by (auto simp: writeAnimatedGif_def)
  with a obtain w1 w2 w3 w4 where
    h: "writeHeader new_GifWriter = (Returned, w1)"
    and l: "writeLogicalScreen w1 (width (hd imgs)) (height (hd imgs)) go = (Returned, w2)"
    and n: "writeAnimationInfo w2 ao = (Returned, w3)"
    and i: "writeImages w3 imgs ios 0 = (Returned, w4)"
    and t: "writeTrailer w4 = (Returned, w'')"
    unfolding writeAnimatedGif_def by (simp only: if_False) (blast dest!: and_then_Returned)
  have "extends w1 w2"
    using writeLogicalScreen_extends [of w1 "width (hd imgs)" "height (hd imgs)" go] l by simp
  moreover have "extends w2 w3" using writeAnimationInfo_extends [of w2 ao] n by simp
  moreover have "extends w3 w4" using writeImages_extends [of w3 imgs ios 0] i by simp
  ultimately have "extends w1 w4" by (blast intro: extends_trans)
  from framed [OF writeHeader_new [OF h] this writeTrailer_Returned [OF t]]
  show "take 6 (output_data w'') = [0x47, 0x49, 0x46, 0x38, 0x39, 0x61]"
    and "last (output_data w'') = 0x3b" by simp_all
qed


lemma writeBytes_valid:
  "\<forall>b \<in> set bs. 0 \<le> b \<and> b \<le> 255 \<Longrightarrow>
     writeBytes w bs = (Returned, w\<lparr>output_data := output_data w @ map nat bs\<rparr>)"
  by (induction bs arbitrary: w) (auto simp: writeByte_def and_then_def)

text \<open>A static and an animated GIF of one red pixel.\<close>

lemma static_example:
  "writeStaticGif new_GifWriter
      \<lparr>width = 1, height = 1, data = [0], palette = [255, 0, 0]\<rparr>
      no_GlobalColorTableOptions no_ImageOptions =
     (Returned, \<lparr>output_data =
        [71, 73, 70, 56, 57, 97, 1, 0, 1, 0, 112, 0, 0,
         44, 0, 0, 0, 0, 1, 0, 1, 0, 128, 255, 0, 0, 0, 0, 0, 2, 2, 68, 1, 0, 59],
        hasWrittenHeader = True, hasWrittenLogicalScreen = True, frameCount = 1\<rparr>)"
  by code_simp

lemma animated_example:
  "writeAnimatedGif new_GifWriter
      [\<lparr>width = 1, height = 1, data = [0], palette = [255, 0, 0]\<rparr>]
      no_GlobalColorTableOptions no_AnimationOptions [] =
     (Returned, \<lparr>output_data =
        [71, 73, 70, 56, 57, 97, 1, 0, 1, 0, 112, 0, 0, 33, 255, 11, 78, 69,
         84, 83, 67, 65, 80, 69, 50, 46, 48, 3, 1, 0, 0, 0,
         44, 0, 0, 0, 0, 1, 0, 1, 0, 128, 255, 0, 0, 0, 0, 0, 2, 2, 68, 1, 0, 59],
        hasWrittenHeader = True, hasWrittenLogicalScreen = True, frameCount = 1\<rparr>)"
proof -
  have h: "writeHeader new_GifWriter =
      (Returned, \<lparr>output_data = [71, 73, 70, 56, 57, 97], hasWrittenHeader = True,
         hasWrittenLogicalScreen = False, frameCount = 0\<rparr>)"
    by code_simp
  have l: "writeLogicalScreen \<lparr>output_data = [71, 73, 70, 56, 57, 97], hasWrittenHeader = True,
         hasWrittenLogicalScreen = False, frameCount = 0\<rparr> 1 1 no_GlobalColorTableOptions =
      (Returned, \<lparr>output_data = [71, 73, 70, 56, 57, 97, 1, 0, 1, 0, 112, 0, 0],
         hasWrittenHeader = True, hasWrittenLogicalScreen = True, frameCount = 0\<rparr>)"
    by code_simp
  have n: "writeAnimationInfo \<lparr>output_data = [71, 73, 70, 56, 57, 97, 1, 0, 1, 0, 112, 0, 0],
         hasWrittenHeader = True, hasWrittenLogicalScreen = True, frameCount = 0\<rparr>
         no_AnimationOptions =
      (Returned, \<lparr>output_data = [71, 73, 70, 56, 57, 97, 1, 0, 1, 0, 112, 0, 0, 33, 255, 11,
           78, 69, 84, 83, 67, 65, 80, 69, 50, 46, 48, 3, 1, 0, 0, 0],
         hasWrittenHeader = True, hasWrittenLogicalScreen = True, frameCount = 0\<rparr>)"
    by (simp add: writeAnimationInfo_def no_AnimationOptions_def write16BitLE_def writeBytes_valid
          NETSCAPE_APPLICATION_IDENTIFIER_def NETSCAPE_APPLICATION_AUTHENTICATION_CODE_def
        del: writeBytes.simps)
  have i: "writeImages \<lparr>output_data = [71, 73, 70, 56, 57, 97, 1, 0, 1, 0, 112, 0, 0, 33, 255, 11,
           78, 69, 84, 83, 67, 65, 80, 69, 50, 46, 48, 3, 1, 0, 0, 0],
         hasWrittenHeader = True, hasWrittenLogicalScreen = True, frameCount = 0\<rparr>
         [\<lparr>width = 1, height = 1, data = [0], palette = [255, 0, 0]\<rparr>] [] 0 =
      (Returned, \<lparr>output_data =
          [71, 73, 70, 56, 57, 97, 1, 0, 1, 0, 112, 0, 0, 33, 255, 11, 78, 69,
           84, 83, 67, 65, 80, 69, 50, 46, 48, 3, 1, 0, 0, 0,
           44, 0, 0, 0, 0, 1, 0, 1, 0, 128, 255, 0, 0, 0, 0, 0, 2, 2, 68, 1, 0],
          hasWrittenHeader = True, hasWrittenLogicalScreen = True, frameCount = 1\<rparr>)"
    by code_simp
  show ?thesis
    by (simp add: writeAnimatedGif_def h l n i and_then_def writeTrailer_def writeByte_def
          GIF_TRAILER_def del: writeImages.simps One_nat_def)
qed

theorem encode_signature_and_trailer_witness:
  "writeStaticGif new_GifWriter
      \<lparr>width = 1, height = 1, data = [0], palette = [255, 0, 0]\<rparr>
      no_GlobalColorTableOptions no_ImageOptions =
     (Returned, \<lparr>output_data =
        [71, 73, 70, 56, 57, 97, 1, 0, 1, 0, 112, 0, 0,
         44, 0, 0, 0, 0, 1, 0, 1, 0, 128, 255, 0, 0, 0, 0, 0, 2, 2, 68, 1, 0, 59],
        hasWrittenHeader = True, hasWrittenLogicalScreen = True, frameCount = 1\<rparr>) \<and>
   take 6 [71, 73, 70, 56, 57, 97, 1, 0, 1, 0, 112, 0, 0,
         44, 0, 0, 0, 0, 1, 0, 1, 0, 128, 255, 0, 0, 0, 0, 0, 2, 2, 68, 1, 0, 59]
     = [0x47, 0x49, 0x46, 0x38, 0x39, 0x61 :: nat] \<and>
   last [71, 73, 70, 56, 57, 97, 1, 0, 1, 0, 112, 0, 0,
         44, 0, 0, 0, 0, 1, 0, 1, 0, 128, 255, 0, 0, 0, 0, 0, 2, 2, 68, 1, 0, 59] = (0x3b :: nat) \<and>
   writeAnimatedGif new_GifWriter
      [\<lparr>width = 1, height = 1, data = [0], palette = [255, 0, 0]\<rparr>]
      no_GlobalColorTableOptions no_AnimationOptions [] =
     (Returned, \<lparr>output_data =
        [71, 73, 70, 56, 57, 97, 1, 0, 1, 0, 112, 0, 0, 33, 255, 11, 78, 69,
         84, 83, 67, 65, 80, 69, 50, 46, 48, 3, 1, 0, 0, 0,
         44, 0, 0, 0, 0, 1, 0, 1, 0, 128, 255, 0, 0, 0, 0, 0, 2, 2, 68, 1, 0, 59],
        hasWrittenHeader = True, hasWrittenLogicalScreen = True, frameCount = 1\<rparr>) \<and>
   take 6 [71, 73, 70, 56, 57, 97, 1, 0, 1, 0, 112, 0, 0, 33, 255, 11, 78, 69,
         84, 83, 67, 65, 80, 69, 50, 46, 48, 3, 1, 0, 0, 0,
         44, 0, 0, 0, 0, 1, 0, 1, 0, 128, 255, 0, 0, 0, 0, 0, 2, 2, 68, 1, 0, 59]
     = [0x47, 0x49, 0x46, 0x38, 0x39, 0x61 :: nat] \<and>
   last [71, 73, 70, 56, 57, 97, 1, 0, 1, 0, 112, 0, 0, 33, 255, 11, 78, 69,
         84, 83, 67, 65, 80, 69, 50, 46, 48, 3, 1, 0, 0, 0,
         44, 0, 0, 0, 0, 1, 0, 1, 0, 128, 255, 0, 0, 0, 0, 0, 2, 2, 68, 1, 0, 59] = (0x3b :: nat)"
  using encode_signature_and_trailer
    [where img = "\<lparr>width = 1, height = 1, data = [0], palette = [255, 0, 0]\<rparr>"
       and go = no_GlobalColorTableOptions and io = no_ImageOptions
       and w' = "\<lparr>output_data =
          [71, 73, 70, 56, 57, 97, 1, 0, 1, 0, 112, 0, 0,
           44, 0, 0, 0, 0, 1, 0, 1, 0, 128, 255, 0, 0, 0, 0, 0, 2, 2, 68, 1, 0, 59],
          hasWrittenHeader = True, hasWrittenLogicalScreen = True, frameCount = 1\<rparr>"
       and imgs = "[\<lparr>width = 1, height = 1, data = [0], palette = [255, 0, 0]\<rparr>]"
       and ao = no_AnimationOptions and ios = "[]"
       and w'' = "\<lparr>output_data =
          [71, 73, 70, 56, 57, 97, 1, 0, 1, 0, 112, 0, 0, 33, 255, 11, 78, 69,
           84, 83, 67, 65, 80, 69, 50, 46, 48, 3, 1, 0, 0, 0,
           44, 0, 0, 0, 0, 1, 0, 1, 0, 128, 255, 0, 0, 0, 0, 0, 2, 2, 68, 1, 0, 59],
          hasWrittenHeader = True, hasWrittenLogicalScreen = True, frameCount = 1\<rparr>"]
    static_example animated_example
  by (simp del: One_nat_def)

section \<open>Delays\<close>

lemma remaining_skip [simp]: "remaining (skip n r) = drop n (remaining r)"
  by (simp add: remaining_def skip_def add.commute)

lemma drop_plus: "drop (m + n) xs = drop n (drop m xs)"
  by (simp add: add.commute)

lemma skip_skip [simp]: "skip m (skip n r) = skip (n + m) r"
  by (simp add: skip_def add.assoc)

lemma r_data_skip [simp]: "r_data (skip n r) = r_data r"
  by (simp add: skip_def)

lemma readByte_remaining:
  "readByte r = (case remaining r of [] \<Rightarrow> Inl GifValidationError | b # bs \<Rightarrow> Inr (b, skip 1 r))"
proof (cases "r_position r < length (r_data r)")
  case True
  then have "remaining r = r_data r ! r_position r # drop (Suc (r_position r)) (r_data r)"
    by (simp add: remaining_def Cons_nth_drop_Suc)
  then show ?thesis using True by (simp add: readByte_def skip_def)
next
  case False
  then show ?thesis by (simp add: readByte_def remaining_def)
qed

lemma read16_remaining:
  "read16 r = (case remaining r of [] \<Rightarrow> Inl GifValidationError
               | lo # bs \<Rightarrow> (case bs of [] \<Rightarrow> Inl GifValidationError
                   | hi # bs' \<Rightarrow> Inr (lo OR push_bit 8 hi, skip 2 r)))"
  by (simp add: read16_def readByte_remaining numeral_2_eq_2 drop_Suc split: list.splits)

lemma readBytes_take:
  assumes "0 < n"
  shows "readBytes r n = (if length (remaining r) < n then Inl GifValidationError
                          else Inr (take n (remaining r), skip n r))"
  using assms by (auto simp: readBytes_def skip_def remaining_def)

lemma readBytes_remaining:
  assumes "remaining r = xs @ rest" "xs \<noteq> []"
  shows "readBytes r (length xs) = Inr (xs, skip (length xs) r)"
proof -
  have "length (remaining r) = length (r_data r) - r_position r"
    by (simp add: remaining_def)
  with assms have "r_position r + length xs \<le> length (r_data r)"
    by (cases xs) auto
  then show ?thesis
    using assms by (simp add: readBytes_def skip_def remaining_def [symmetric])
qed

lemma readDataSubBlocks_loop_block:
  assumes "remaining r = length xs # xs @ rest" "xs \<noteq> []"
  shows "readDataSubBlocks_loop r acc =
           readDataSubBlocks_loop (skip (Suc (length xs)) r) (acc @ xs)"
proof -
  have "remaining (skip 1 r) = xs @ rest" using assms by simp
  from readBytes_remaining [OF this assms(2)] show ?thesis
    using assms by (subst readDataSubBlocks_loop.simps) (simp add: readByte_remaining)
qed

lemma readDataSubBlocks_loop_end:
  assumes "remaining r = 0 # rest"
  shows "readDataSubBlocks_loop r acc = Inr (acc, skip 1 r)"
  using assms by (subst readDataSubBlocks_loop.simps) (simp add: readByte_remaining)

lemma write16BitLE_bytes:
  assumes "0 \<le> v" "v \<le> 65535"
  shows "write16BitLE v = Inr [nat (v mod 256), nat (v div 256)]"
proof -
  have "v AND 255 = v mod 256"
    using take_bit_eq_mod [of 8 v] take_bit_eq_mask [of 8 v]
    by (simp add: mask_eq_exp_minus_1)
  moreover have "drop_bit 8 v AND 255 = v div 256"
  proof -
    have "drop_bit 8 v AND 255 = (v div 256) mod 256"
      using take_bit_eq_mod [of 8 "drop_bit 8 v"] take_bit_eq_mask [of 8 "drop_bit 8 v"]
      by (simp add: mask_eq_exp_minus_1 drop_bit_eq_div)
    also have "\<dots> = v div 256" using assms by simp
    finally show ?thesis .
  qed
  ultimately show ?thesis using assms by (simp add: write16BitLE_def)
qed

lemma read16_value:
  assumes "lo < 256"
  shows "lo OR push_bit 8 hi = lo + 256 * (hi::nat)"
proof -
  have "lo AND push_bit 8 hi = 0"
  proof (rule bit_eqI)
    fix n
    show "bit (lo AND push_bit 8 hi) n = bit (0::nat) n"
    proof (cases "n < 8")
      case True
      then show ?thesis by (simp add: bit_simps)
    next
      case False
      then have "(2::nat) ^ 8 \<le> 2 ^ n" by (intro power_increasing) simp_all
      then have "lo < 2 ^ n" using assms by simp
      then have "\<not> bit lo n" by (simp add: bit_iff_odd)
      then show ?thesis by (simp add: bit_simps)
    qed
  qed
  then have "lo + push_bit 8 hi = lo OR push_bit 8 hi"
    by (rule disjunctive_add_eq_or)
  then show ?thesis by (simp add: push_bit_eq_mult)
qed


lemma gce_packed_byte: "0 \<le> push_bit 2 (int (disposal_value dm) AND 7) OR (if t then 1 else 0)
    \<and> push_bit 2 (int (disposal_value dm) AND 7) OR (if t then 1 else 0) \<le> 255"
  by (cases dm; cases t) simp_all

lemma and_255_byte: "0 \<le> (x::int) AND 255 \<and> x AND 255 \<le> 255"
  by (simp add: AND_upper2')


subsection \<open>What a returning write has appended\<close>

lemma and_then_ReturnedD:
  "and_then r f = (Returned, w') \<Longrightarrow> \<exists>w1. r = (Returned, w1) \<and> f w1 = (Returned, w')"
  by (cases r; cases "fst r") (auto simp: and_then_def)

lemma writeByte_ReturnedD:
  "writeByte w b = (Returned, w') \<Longrightarrow>
     0 \<le> b \<and> b \<le> 255 \<and> w' = w\<lparr>output_data := output_data w @ [nat b]\<rparr>"
  by (auto simp: writeByte_def split: if_splits)

lemma writeBytes_ReturnedD:
  "writeBytes w bs = (Returned, w') \<Longrightarrow> w' = w\<lparr>output_data := output_data w @ map nat bs\<rparr>"
proof (induction bs arbitrary: w)
  case Nil
  then show ?case by simp
next
  case (Cons b bs)
  from Cons.prems obtain w1 where 1: "writeByte w b = (Returned, w1)"
    and 2: "writeBytes w1 bs = (Returned, w')"
    by (auto dest: and_then_ReturnedD)
  show ?case
    using writeByte_ReturnedD [OF 1] Cons.IH [OF 2] by simp
qed

lemma write16_ReturnedD:
  assumes "write16 w v = (Returned, w')"
  shows "\<exists>lo hi. lo < 256 \<and> int lo + 256 * int hi = v \<and> v \<le> 65535 \<and>
           w' = w\<lparr>output_data := output_data w @ [lo, hi]\<rparr>"
proof -
  from assms have v: "0 \<le> v" "v \<le> 65535"
    by (auto simp: write16_def write16BitLE_def split: if_splits)
  have "w' = w\<lparr>output_data := output_data w @ [nat (v mod 256), nat (v div 256)]\<rparr>"
    using assms by (simp add: write16_def write16BitLE_bytes [OF v] writeBytes_Uint8Array_def)
  moreover have "nat (v mod 256) < 256" by (simp add: nat_less_iff)
  moreover have "int (nat (v mod 256)) + 256 * int (nat (v div 256)) = v"
    using v by (simp add: pos_imp_zdiv_nonneg_iff)
  ultimately show ?thesis using v(2) by blast
qed

lemma writeGraphicsControl_ReturnedD:
  assumes "writeGraphicsControl w io = (Returned, w')"
  shows "\<exists>packed lo hi t. lo < 256 \<and>
           int lo + 256 * int hi = msToGifDelay (case opt_delay io of None \<Rightarrow> 0 | Some d \<Rightarrow> d) \<and>
           msToGifDelay (case opt_delay io of None \<Rightarrow> 0 | Some d \<Rightarrow> d) \<le> 65535 \<and>
           w' = w\<lparr>output_data := output_data w @ [0x21, 0xf9, 4, packed, lo, hi, t, 0]\<rparr>"
proof -
  from assms obtain w1 w2 w3 w4 packed t where
    1: "writeBytes w [0x21, 0xf9, 0x04] = (Returned, w1)"
    and 2: "writeByte w1 packed = (Returned, w2)"
    and 3: "write16 w2 (msToGifDelay (case opt_delay io of None \<Rightarrow> 0 | Some d \<Rightarrow> d)) = (Returned, w3)"
    and 4: "writeByte w3 t = (Returned, w4)"
    and 5: "writeByte w4 0x00 = (Returned, w')"
    unfolding writeGraphicsControl_def Let_def
    by (blast dest!: and_then_ReturnedD)
  from write16_ReturnedD [OF 3] obtain lo hi where
    lo: "lo < 256" "int lo + 256 * int hi = msToGifDelay (case opt_delay io of None \<Rightarrow> 0 | Some d \<Rightarrow> d)"
      "msToGifDelay (case opt_delay io of None \<Rightarrow> 0 | Some d \<Rightarrow> d) \<le> 65535"
    and w3: "w3 = w2\<lparr>output_data := output_data w2 @ [lo, hi]\<rparr>"
    by blast
  have "w' = w\<lparr>output_data := output_data w @ [0x21, 0xf9, 4, nat packed, lo, hi, nat t, 0]\<rparr>"
    using writeBytes_ReturnedD [OF 1] writeByte_ReturnedD [OF 2] w3 writeByte_ReturnedD [OF 4]
      writeByte_ReturnedD [OF 5]
    by simp
  with lo show ?thesis by blast
qed

lemma writeDataSubBlocks_loop_ReturnedD:
  assumes "writeDataSubBlocks_loop w d offset = (Returned, w')"
  shows "\<exists>blocks. w' = w\<lparr>output_data := output_data w @ blocks\<rparr> \<and>
           sub_blocks blocks (drop offset d)"
  using assms
proof (induction w d offset rule: writeDataSubBlocks_loop.induct)
  case (1 w d offset)
  show ?case
  proof (cases "offset < length d")
    case False
    then have "w' = w"
      using "1.prems" by (subst (asm) writeDataSubBlocks_loop.simps) simp
    then have "w' = w\<lparr>output_data := output_data w @ []\<rparr>" by simp
    moreover have "sub_blocks [] (drop offset d)"
      using False by (simp add: sub_blocks_def readDataSubBlocks_loop_end)
    ultimately show ?thesis by blast
  next
    case True
    define blockSize where "blockSize = min 255 (length d - offset)"
    define xs where "xs = take blockSize (drop offset d)"
    have bs: "0 < blockSize" "blockSize \<le> 255" "length xs = blockSize"
      using True by (auto simp: blockSize_def xs_def)
    have eq: "writeDataSubBlocks_loop w d offset =
        and_then (writeByte w (int blockSize)) (\<lambda>w.
        and_then (writeBytes w (map int xs)) (\<lambda>w.
        writeDataSubBlocks_loop w d (offset + blockSize)))"
      using True
      by (subst writeDataSubBlocks_loop.simps) (simp add: Let_def blockSize_def xs_def)
    from "1.prems" obtain w1 w2 where
      a: "writeByte w (int blockSize) = (Returned, w1)"
      and b: "writeBytes w1 (map int xs) = (Returned, w2)"
      and c: "writeDataSubBlocks_loop w2 d (offset + blockSize) = (Returned, w')"
      unfolding eq by (blast dest!: and_then_ReturnedD)
    from "1.IH" [OF True blockSize_def c] obtain blocks where
      w': "w' = w2\<lparr>output_data := output_data w2 @ blocks\<rparr>"
      and rd: "\<And>r acc rest. remaining r = blocks @ 0 # rest \<Longrightarrow>
              readDataSubBlocks_loop r acc =
                Inr (acc @ drop (offset + blockSize) d, skip (Suc (length blocks)) r)"
      by (auto simp: sub_blocks_def)
    have w2: "w2 = w\<lparr>output_data := output_data w @ blockSize # xs\<rparr>"
      using writeByte_ReturnedD [OF a] writeBytes_ReturnedD [OF b] by (simp add: comp_def)
    have "w' = w\<lparr>output_data := output_data w @ (blockSize # xs @ blocks)\<rparr>"
      using w' w2 by simp
    moreover have "readDataSubBlocks_loop r acc =
        Inr (acc @ drop offset d, skip (Suc (length (blockSize # xs @ blocks))) r)"
      if rem: "remaining r = (blockSize # xs @ blocks) @ 0 # rest" for r acc rest
    proof -
      have xs0: "xs \<noteq> []" using bs by auto
      have r1: "remaining r = length xs # xs @ (blocks @ 0 # rest)"
        using rem bs by simp
      have "remaining (skip (Suc (length xs)) r) = blocks @ 0 # rest"
        using r1 by simp
      from rd [OF this, of "acc @ xs"]
      have "readDataSubBlocks_loop r acc =
          Inr ((acc @ xs) @ drop (offset + blockSize) d,
               skip (Suc (length blocks)) (skip (Suc (length xs)) r))"
        by (simp only: readDataSubBlocks_loop_block [OF r1 xs0])
      moreover have "xs @ drop (offset + blockSize) d = drop offset d"
        unfolding xs_def by (metis append_take_drop_id drop_drop add.commute)
      ultimately show ?thesis by (simp add: add.commute)
    qed
    then have "sub_blocks (blockSize # xs @ blocks) (drop offset d)"
      by (simp only: sub_blocks_def) blast
    ultimately show ?thesis by blast
  qed
qed

subsection \<open>The reader on the blocks of a frame\<close>

lemma frames_step_gce:
  assumes "remaining (reader st) = [0x21, 0xf9, 4, packed, lo, hi, t, 0] @ rest" and lo: "lo < 256"
  shows "\<exists>st'. frames_step scr st = Inr (True, st') \<and>
           currentDelay st' = (int lo + 256 * int hi) * 10 \<and>
           frames st' = frames st \<and>
           remaining (reader st') = rest"
  using assms(1)
  unfolding frames_step_def read_extension_def read_graphics_control_def
  by (simp add: readByte_remaining read16_remaining Let_def read16_value [OF lo])

lemma frames_step_image:
  assumes rem: "remaining (reader st) =
      [0x2c, l0, l1, t0, t1, w0, w1, h0, h1, p] @ table @ cs # blocks @ 0 # rest"
    and p: "p AND 0x80 \<noteq> 0" and len: "length table = push_bit (p AND 0x07) 2 * 3"
    and blocks: "sub_blocks blocks d"
  shows "\<exists>st' f. frames_step scr st = Inr (True, st') \<and>
           frames st' = frames st @ [f] \<and> delay f = currentDelay st \<and>
           currentDelay st' = 100 \<and> remaining (reader st') = rest"
proof -
  define r6 where "r6 = skip (10 + length table) (reader st)"
  have n0: "0 < push_bit (p AND 0x07) 2 * (3::nat)"
    by (simp add: push_bit_eq_mult)
  have r6: "remaining r6 = cs # blocks @ 0 # rest"
    unfolding r6_def using rem by (simp add: drop_plus del: drop_drop)
  have r7: "remaining (skip 1 r6) = blocks @ 0 # rest"
    using r6 by simp
  have sub: "readDataSubBlocks (skip (Suc 0) r6) = Inr (d, skip (Suc (length blocks)) (skip 1 r6))"
    unfolding readDataSubBlocks_def
    using blocks [unfolded sub_blocks_def, rule_format, OF r7, of "[]"] by simp
  have ten: "Suc (Suc (Suc (Suc (Suc (Suc (Suc (Suc (Suc (Suc 0))))))))) = 10"
    by simp
  have tb: "readBytes (skip (Suc (Suc (Suc (Suc (Suc (Suc (Suc (Suc (Suc (Suc 0))))))))))
              (reader st)) (push_bit (p AND 0x07) 2 * 3) = Inr (table, r6)"
    unfolding readBytes_take [OF n0] r6_def ten using rem len by (simp add: add.commute)
  have "\<exists>st' f. read_image scr (st\<lparr>reader := skip 1 (reader st)\<rparr>) = Inr st' \<and>
           frames st' = frames st @ [f] \<and> delay f = currentDelay st \<and>
           currentDelay st' = 100 \<and> remaining (reader st') = rest"
    unfolding read_image_def
    using rem p r6 r7
    by (cases "decompressLZW d (int cs)")
       (simp_all add: readByte_remaining read16_remaining Let_def tb sub
          emit_frame_def emit_placeholder_def apply_disposal_def)
  then show ?thesis
    unfolding frames_step_def using rem by (auto simp: readByte_remaining)
qed

lemma table_flag_size:
  assumes "sz \<le> 7"
  shows "nat (0x80 OR 0x00 OR 0x00 OR int sz) AND 0x80 \<noteq> 0 \<and>
         nat (0x80 OR 0x00 OR 0x00 OR int sz) AND 0x07 = sz"
proof -
  from assms have "sz = 0 \<or> sz = 1 \<or> sz = 2 \<or> sz = 3 \<or> sz = 4 \<or> sz = 5 \<or> sz = 6 \<or> sz = 7"
    by arith
  then show ?thesis by (elim disjE) simp_all
qed

lemma padded_table_length:
  assumes "validatePalette pal = Inr ()"
    and "calculateColorTableSize (int (length pal div 3)) = Some (Inr sz)"
  shows "sz \<le> 7 \<and> length (padColorTable pal sz) = push_bit sz 2 * 3"
proof -
  from assms(1) have pal: "0 < length pal" "length pal mod 3 = 0" "length pal div 3 \<le> 256"
    by (auto simp: validatePalette_def MAX_COLORS_def split: if_splits)
  have "1 \<le> length pal div 3"
    using pal(1,2) by presburger
  with pal have c: "1 \<le> int (length pal div 3)" "int (length pal div 3) \<le> 256"
    by simp_all
  from calculateColorTableSize_returns [OF c] assms(2)
  have sz: "sz \<le> 7" "int (length pal div 3) \<le> 2 ^ (sz + 1)"
    by auto
  have "length pal div 3 \<le> 2 ^ (sz + 1)"
    using sz(2) by (metis of_nat_le_iff of_nat_numeral of_nat_power)
  then have le: "length pal \<le> 3 * 2 ^ (sz + 1)"
    using pal(2) by auto
  show ?thesis
    using sz(1) le by (simp add: padColorTable_pads [OF sz(1) le] push_bit_eq_mult)
qed

lemma getFrames_loop_step:
  assumes "frames_step scr st = Inr (True, st')" "remaining (reader st) \<noteq> []"
  shows "getFrames_loop scr st = getFrames_loop scr st'"
proof -
  have "r_position (reader st) < length (r_data (reader st))"
    using assms(2) by (simp add: remaining_def)
  then show ?thesis
    using assms(1) by (subst getFrames_loop.simps) simp
qed

lemma image_frame_block:
  assumes p: "p AND 0x80 \<noteq> 0" and len: "length table = push_bit (p AND 0x07) 2 * 3"
    and blocks: "sub_blocks blocks d"
  shows "frame_block ([0x2c, l0, l1, t0, t1, w0, w1, h0, h1, p] @ table @ cs # blocks @ [0]) None"
  unfolding frame_block_def
proof (intro allI impI)
  fix scr :: screen and st :: frames_state and rest :: bytes
  assume "remaining (reader st) =
     ([0x2c, l0, l1, t0, t1, w0, w1, h0, h1, p] @ table @ cs # blocks @ [0]) @ rest"
  then have rem: "remaining (reader st) =
     [0x2c, l0, l1, t0, t1, w0, w1, h0, h1, p] @ table @ cs # blocks @ 0 # rest"
    by simp
  from frames_step_image [OF rem p len blocks, where scr = scr] obtain st' f where
    "frames_step scr st = Inr (True, st')" "frames st' = frames st @ [f]"
    "delay f = currentDelay st" "currentDelay st' = 100" "remaining (reader st') = rest"
    by blast
  moreover from this(1) rem have "getFrames_loop scr st = getFrames_loop scr st'"
    by (intro getFrames_loop_step) simp_all
  ultimately show "\<exists>st' f. getFrames_loop scr st = getFrames_loop scr st' \<and>
           frames st' = frames st @ [f] \<and>
           delay f = (case None of None \<Rightarrow> currentDelay st | Some c \<Rightarrow> c) \<and>
           currentDelay st' = 100 \<and> remaining (reader st') = rest"
    by auto
qed

lemma gce_frame_block:
  assumes blk: "frame_block blk None" and lo: "lo < 256"
  shows "frame_block ([0x21, 0xf9, 4, packed, lo, hi, t, 0] @ blk)
           (Some ((int lo + 256 * int hi) * 10))"
  unfolding frame_block_def
proof (intro allI impI)
  fix scr :: screen and st :: frames_state and rest :: bytes
  assume "remaining (reader st) = ([0x21, 0xf9, 4, packed, lo, hi, t, 0] @ blk) @ rest"
  then have rem: "remaining (reader st) = [0x21, 0xf9, 4, packed, lo, hi, t, 0] @ (blk @ rest)"
    by simp
  from frames_step_gce [OF rem lo, where scr = scr] obtain st1 where
    1: "frames_step scr st = Inr (True, st1)" "currentDelay st1 = (int lo + 256 * int hi) * 10"
      "frames st1 = frames st" "remaining (reader st1) = blk @ rest"
    by blast
  from 1(1) rem have 2: "getFrames_loop scr st = getFrames_loop scr st1"
    by (intro getFrames_loop_step) simp_all
  from blk [unfolded frame_block_def, rule_format, OF 1(4), where scr = scr] obtain st' f where
    "getFrames_loop scr st1 = getFrames_loop scr st'" "frames st' = frames st1 @ [f]"
    "delay f = currentDelay st1" "currentDelay st' = 100" "remaining (reader st') = rest"
    by auto
  with 1 2 show "\<exists>st' f. getFrames_loop scr st = getFrames_loop scr st' \<and>
           frames st' = frames st @ [f] \<and>
           delay f = (case Some ((int lo + 256 * int hi) * 10) of None \<Rightarrow> currentDelay st
                      | Some c \<Rightarrow> c) \<and>
           currentDelay st' = 100 \<and> remaining (reader st') = rest"
    by auto
qed

subsection \<open>The bytes of a written frame\<close>

lemma writeImageDescriptor_ReturnedD:
  assumes "writeImageDescriptor w img io = (Returned, w')"
  shows "\<exists>l0 l1 t0 t1 w0 w1 h0 h1 sz.
           calculateColorTableSize (int (length (palette img) div 3)) = Some (Inr sz) \<and>
           w' = w\<lparr>output_data := output_data w @
                  [0x2c, l0, l1, t0, t1, w0, w1, h0, h1, nat (0x80 OR 0x00 OR 0x00 OR int sz)]\<rparr>"
proof -
  from assms obtain sz where sz: "calculateColorTableSize (int (length (palette img) div 3)) = Some (Inr sz)"
    unfolding writeImageDescriptor_def Let_def
    by (auto split: sum.splits option.splits)
  from assms obtain lf tp w1 w2 w3 w4 w5 where
    1: "writeByte w 0x2c = (Returned, w1)"
    and 2: "write16 w1 lf = (Returned, w2)"
    and 3: "write16 w2 tp = (Returned, w3)"
    and 4: "write16 w3 (width img) = (Returned, w4)"
    and 5: "write16 w4 (height img) = (Returned, w5)"
    and 6: "writeByte w5 (0x80 OR 0x00 OR 0x00 OR int sz) = (Returned, w')"
    unfolding writeImageDescriptor_def Let_def sz
    by (auto split: sum.splits dest!: and_then_ReturnedD)
  from write16_ReturnedD [OF 2] obtain l0 l1 where
    a: "w2 = w1\<lparr>output_data := output_data w1 @ [l0, l1]\<rparr>" by blast
  from write16_ReturnedD [OF 3] obtain t0 t1 where
    b: "w3 = w2\<lparr>output_data := output_data w2 @ [t0, t1]\<rparr>" by blast
  from write16_ReturnedD [OF 4] obtain x0 x1 where
    c: "w4 = w3\<lparr>output_data := output_data w3 @ [x0, x1]\<rparr>" by blast
  from write16_ReturnedD [OF 5] obtain h0 h1 where
    d: "w5 = w4\<lparr>output_data := output_data w4 @ [h0, h1]\<rparr>" by blast
  have "w' = w\<lparr>output_data := output_data w @
                  [0x2c, l0, l1, t0, t1, x0, x1, h0, h1, nat (0x80 OR 0x00 OR 0x00 OR int sz)]\<rparr>"
    using writeByte_ReturnedD [OF 1] writeByte_ReturnedD [OF 6] a b c d by simp
  with sz show ?thesis by blast
qed

lemma writeImageData_ReturnedD:
  assumes "writeImageData w img = (Returned, w')"
  shows "\<exists>cs blocks d. sub_blocks blocks d \<and>
           w' = w\<lparr>output_data := output_data w @ cs # blocks @ [0]\<rparr>"
proof -
  from assms obtain cs d w1 w2 where
    1: "writeByte w cs = (Returned, w1)"
    and 2: "writeDataSubBlocks w1 d = (Returned, w2)"
    and 3: "writeByte w2 0x00 = (Returned, w')"
    unfolding writeImageData_def Let_def
    by (auto split: if_splits sum.splits dest!: and_then_ReturnedD)
  from writeDataSubBlocks_loop_ReturnedD [OF 2 [unfolded writeDataSubBlocks_def]]
  obtain blocks where b: "w2 = w1\<lparr>output_data := output_data w1 @ blocks\<rparr>"
    "sub_blocks blocks (drop 0 d)"
    by blast
  have "w' = w\<lparr>output_data := output_data w @ nat cs # blocks @ [0]\<rparr>"
    using writeByte_ReturnedD [OF 1] writeByte_ReturnedD [OF 3] b(1) by simp
  with b(2) show ?thesis by blast
qed

lemma writeImage_ReturnedD:
  assumes "writeImage w img io = (Returned, w')"
  shows "\<exists>blk. frame_block blk (written_delay (frameCount w) io) \<and>
           (\<forall>c. written_delay (frameCount w) io = Some c \<longrightarrow> c \<le> 655350) \<and>
           w' = w\<lparr>output_data := output_data w @ blk, frameCount := frameCount w + 1\<rparr>"
proof -
  define gc where "gc = (frameCount w > 0 \<or> opt_delay io \<noteq> None \<or>
                        opt_disposal io \<noteq> None \<or> opt_transparentIndex io \<noteq> None)"
  from assms have vp: "validatePalette (palette img) = Inr ()"
    unfolding writeImage_def by (auto split: if_splits sum.splits)
  from assms obtain w1 w2 w3 w4 sz where
    1: "(if gc then writeGraphicsControl w io else (Returned, w)) = (Returned, w1)"
    and 2: "writeImageDescriptor w1 img io = (Returned, w2)"
    and sz: "calculateColorTableSize (int (length (palette img) div 3)) = Some (Inr sz)"
    and 3: "writeBytes_Uint8Array w2 (padColorTable (palette img) sz) = (Returned, w3)"
    and 4: "writeImageData w3 img = (Returned, w4)"
    and 5: "w' = w4\<lparr>frameCount := frameCount w4 + 1\<rparr>"
    unfolding writeImage_def Let_def gc_def [symmetric]
    by (auto split: if_splits sum.splits option.splits dest!: and_then_ReturnedD)
  from writeImageDescriptor_ReturnedD [OF 2] sz obtain l0 l1 t0 t1 w0 w1' h0 h1 where
    w2: "w2 = w1\<lparr>output_data := output_data w1 @
                  [0x2c, l0, l1, t0, t1, w0, w1', h0, h1, nat (0x80 OR 0x00 OR 0x00 OR int sz)]\<rparr>"
    by auto
  from writeImageData_ReturnedD [OF 4] obtain cs blocks d where
    b: "sub_blocks blocks d" and w4: "w4 = w3\<lparr>output_data := output_data w3 @ cs # blocks @ [0]\<rparr>"
    by blast
  define table where "table = padColorTable (palette img) sz"
  define p where "p = nat (0x80 OR 0x00 OR 0x00 OR int sz)"
  from padded_table_length [OF vp sz] have s7: "sz \<le> 7" and tl: "length table = push_bit sz 2 * 3"
    by (simp_all add: table_def)
  from table_flag_size [OF s7] have pf: "p AND 0x80 \<noteq> 0" and ps: "p AND 0x07 = sz"
    by (simp_all add: p_def)
  define img_blk where
    "img_blk = [0x2c, l0, l1, t0, t1, w0, w1', h0, h1, p] @ table @ cs # blocks @ [0]"
  have fb: "frame_block img_blk None"
    unfolding img_blk_def using pf tl b by (intro image_frame_block) (simp_all add: ps)
  have w3: "w3 = w2\<lparr>output_data := output_data w2 @ table\<rparr>"
    using 3 by (auto simp: writeBytes_Uint8Array_def table_def)
  have w': "w' = w1\<lparr>output_data := output_data w1 @ img_blk, frameCount := frameCount w1 + 1\<rparr>"
    using w2 w3 w4 5 by (simp add: img_blk_def p_def)
  show ?thesis
  proof (cases gc)
    case False
    then have "w1 = w" using 1 by simp
    moreover have "written_delay (frameCount w) io = None"
      using False by (simp add: written_delay_def gc_def)
    ultimately show ?thesis using fb w' by auto
  next
    case True
    then have "writeGraphicsControl w io = (Returned, w1)" using 1 by simp
    from writeGraphicsControl_ReturnedD [OF this] obtain packed lo hi t where
      lo: "lo < 256"
      and v: "int lo + 256 * int hi = msToGifDelay (case opt_delay io of None \<Rightarrow> 0 | Some d \<Rightarrow> d)"
      and v2: "msToGifDelay (case opt_delay io of None \<Rightarrow> 0 | Some d \<Rightarrow> d) \<le> 65535"
      and w1: "w1 = w\<lparr>output_data := output_data w @ [0x21, 0xf9, 4, packed, lo, hi, t, 0]\<rparr>"
      by blast
    have "frame_block ([0x21, 0xf9, 4, packed, lo, hi, t, 0] @ img_blk)
            (written_delay (frameCount w) io)"
      using gce_frame_block [OF fb lo, of packed hi t] True v
      by (simp add: written_delay_def gc_def)
    moreover have "w' = w\<lparr>output_data := output_data w @ ([0x21, 0xf9, 4, packed, lo, hi, t, 0] @ img_blk),
        frameCount := frameCount w + 1\<rparr>"
      using w' w1 by simp
    moreover have "\<forall>c. written_delay (frameCount w) io = Some c \<longrightarrow> c \<le> 655350"
      using v2 by (auto simp: written_delay_def split: if_splits)
    ultimately show ?thesis by blast
  qed
qed

subsection \<open>Header, logical screen, animation information and trailer\<close>

lemma writeHeader_ReturnedD:
  "writeHeader w = (Returned, w') \<Longrightarrow>
     w' = w\<lparr>output_data := output_data w @ [71, 73, 70, 56, 57, 97], hasWrittenHeader := True\<rparr>"
  by (auto simp: writeHeader_def writeBytes_Uint8Array_def and_then_def GIF_SIGNATURE_def
        GIF_VERSION_89A_def split: if_splits)

lemma screen_flag_size:
  assumes "sz \<le> 7"
  shows "(nat ((if f then 0x80 else 0x00) OR 0x70 OR (if s then 0x08 else 0x00) OR int sz) AND 0x80 \<noteq> 0) = f \<and>
         nat ((if f then 0x80 else 0x00) OR 0x70 OR (if s then 0x08 else 0x00) OR int sz) AND 0x07 = sz"
proof -
  from assms have "sz = 0 \<or> sz = 1 \<or> sz = 2 \<or> sz = 3 \<or> sz = 4 \<or> sz = 5 \<or> sz = 6 \<or> sz = 7"
    by arith
  then show ?thesis by (cases f; cases s; elim disjE) simp_all
qed

lemma globalColorTable_settings_SomeD:
  assumes "globalColorTable_settings cols = Some (Inr (f, sz, t))"
  shows "sz \<le> 7 \<and> (if f then \<exists>tb. t = Some tb \<and> length tb = push_bit sz 2 * 3 else t = None)"
proof (cases "\<exists>cs. cols = Some cs \<and> length cs > 0")
  case False
  then have "globalColorTable_settings cols = Some (Inr (False, 0, None))"
    by (cases cols) (auto simp: globalColorTable_settings_def)
  with assms show ?thesis by simp
next
  case True
  then obtain cs where cs: "cols = Some cs" "length cs > 0" by blast
  from assms cs have vp: "validatePalette cs = Inr ()"
    and c: "calculateColorTableSize (int (length cs div 3)) = Some (Inr sz)"
    and t: "f" "t = Some (padColorTable cs sz)"
    by (auto simp: globalColorTable_settings_def split: sum.splits option.splits)
  from padded_table_length [OF vp c] t show ?thesis by simp
qed

lemma writeLogicalScreen_ReturnedD:
  assumes "writeLogicalScreen w wd ht go = (Returned, w')"
  shows "\<exists>wl wh hl hh p bg ar table.
           w' = w\<lparr>output_data := output_data w @ [wl, wh, hl, hh, p, bg, ar] @ table,
                   hasWrittenLogicalScreen := True\<rparr> \<and>
           (if p AND 0x80 \<noteq> 0 then length table = push_bit (p AND 0x07) 2 * 3 else table = [])"
proof -
  from assms obtain f sz t where
    g: "globalColorTable_settings (opt_colors go) = Some (Inr (f, sz, t))"
    unfolding writeLogicalScreen_def Let_def
    by (auto split: if_splits sum.splits option.splits)
  define s where "s = (case opt_sorted go of None \<Rightarrow> False | Some b \<Rightarrow> b)"
  define pk where "pk = (if f then 0x80 else 0x00) OR 0x70 OR (if s then 0x08 else 0x00) OR int sz"
  from assms obtain bg ar w1 w2 w3 w4 w5 w6 where
    1: "write16 w wd = (Returned, w1)"
    and 2: "write16 w1 ht = (Returned, w2)"
    and 3: "writeByte w2 pk = (Returned, w3)"
    and 4: "writeByte w3 bg = (Returned, w4)"
    and 5: "writeByte w4 ar = (Returned, w5)"
    and 6: "(case t of None \<Rightarrow> (Returned, w5) | Some t \<Rightarrow> writeBytes_Uint8Array w5 t) = (Returned, w6)"
    and 7: "w' = w6\<lparr>hasWrittenLogicalScreen := True\<rparr>"
    unfolding writeLogicalScreen_def Let_def g pk_def s_def
    by (auto split: if_splits sum.splits dest!: and_then_ReturnedD)
  from write16_ReturnedD [OF 1] obtain wl wh where
    a: "w1 = w\<lparr>output_data := output_data w @ [wl, wh]\<rparr>" by blast
  from write16_ReturnedD [OF 2] obtain hl hh where
    b: "w2 = w1\<lparr>output_data := output_data w1 @ [hl, hh]\<rparr>" by blast
  define table where "table = (case t of None \<Rightarrow> [] | Some tb \<Rightarrow> tb)"
  have w6: "w6 = w5\<lparr>output_data := output_data w5 @ table\<rparr>"
    using 6 by (cases t) (auto simp: writeBytes_Uint8Array_def table_def)
  from globalColorTable_settings_SomeD [OF g]
  have s7: "sz \<le> 7" and tb: "if f then length table = push_bit sz 2 * 3 else table = []"
    by (auto simp: table_def split: if_splits)
  from screen_flag_size [OF s7, of f s]
  have "if nat pk AND 0x80 \<noteq> 0 then length table = push_bit (nat pk AND 0x07) 2 * 3 else table = []"
    using tb unfolding pk_def by (simp only:) 
  moreover have "w' = w\<lparr>output_data := output_data w @ [wl, wh, hl, hh, nat pk, nat bg, nat ar] @ table,
                   hasWrittenLogicalScreen := True\<rparr>"
    using a b writeByte_ReturnedD [OF 3] writeByte_ReturnedD [OF 4] writeByte_ReturnedD [OF 5] w6 7
    by simp
  ultimately show ?thesis by blast
qed

lemma getFrames_screen:
  assumes rem: "drop 6 (r_data r0) = [wl, wh, hl, hh, p, bg, ar] @ table @ rest"
    and tb: "if p AND 0x80 \<noteq> 0 then length table = push_bit (p AND 0x07) 2 * 3 else table = []"
  shows "\<exists>scr st. getFrames r0 = getFrames_loop scr st \<and> remaining (reader st) = rest \<and>
           frames st = [] \<and> currentDelay st = 100"
proof -
  have r: "remaining (r0\<lparr>r_position := 6\<rparr>) = [wl, wh, hl, hh, p, bg, ar] @ table @ rest"
    using rem by (simp add: remaining_def)
  show ?thesis
  proof (cases "p AND 0x80 \<noteq> 0")
    case False
    then have "table = []" using tb by simp
    then show ?thesis
      unfolding getFrames_def using r False
      apply (simp add: readByte_remaining read16_remaining Let_def)
      apply (rule exI, rule exI, rule conjI, rule refl)
      apply simp
      done
  next
    case True
    then have len: "length table = push_bit (p AND 0x07) 2 * 3" using tb by simp
    have n0: "0 < push_bit (p AND 0x07) 2 * (3::nat)"
      by (simp add: push_bit_eq_mult)
    have t: "readBytes (skip 7 (r0\<lparr>r_position := 6\<rparr>)) (push_bit (p AND 0x07) 2 * 3) =
             Inr (table, skip (7 + length table) (r0\<lparr>r_position := 6\<rparr>))"
      unfolding readBytes_take [OF n0] using r len by (simp add: add.commute)
    show ?thesis
      unfolding getFrames_def using r True
      apply (simp add: readByte_remaining read16_remaining Let_def t)
      apply (rule exI, rule exI, rule conjI, rule refl)
      apply (simp add: drop_plus del: drop_drop)
      done
  qed
qed

lemma getFrames_loop_trailer:
  assumes "remaining (reader st) = 0x3b # rest"
  shows "getFrames_loop scr st = Inr (frames st)"
proof -
  have "remaining (reader st) \<noteq> []"
    using assms by simp
  then have "r_position (reader st) < length (r_data (reader st))"
    by (simp add: remaining_def)
  then show ?thesis
    using assms
    by (subst getFrames_loop.simps) (simp add: frames_step_def readByte_remaining)
qed

lemma validateHeader_gif:
  "validateHeader ([71, 73, 70, 56, 57, 97] @ xs) =
     Inr \<lparr>r_data = [71, 73, 70, 56, 57, 97] @ xs, r_position = 6\<rparr>"
  by (simp add: validateHeader_def)

subsection \<open>A written file, read\<close>

lemma writeStaticGif_decodes:
  assumes "writeStaticGif new_GifWriter img go io = (Returned, w')"
  shows "\<exists>f. decodeFrames (output_data w') = Inr [f] \<and>
           delay f = (case written_delay 0 io of None \<Rightarrow> 100 | Some c \<Rightarrow> c) \<and>
           (\<forall>c. written_delay 0 io = Some c \<longrightarrow> c \<le> 655350)"
proof -
  from assms obtain w1 w2 w3 where
    1: "writeHeader new_GifWriter = (Returned, w1)"
    and 2: "writeLogicalScreen w1 (width img) (height img) go = (Returned, w2)"
    and 3: "writeImage w2 img io = (Returned, w3)"
    and 4: "writeTrailer w3 = (Returned, w')"
    unfolding writeStaticGif_def by (blast dest!: and_then_ReturnedD)
  note w1 = writeHeader_ReturnedD [OF 1]
  from writeLogicalScreen_ReturnedD [OF 2] obtain wl wh hl hh p bg ar table where
    w2: "w2 = w1\<lparr>output_data := output_data w1 @ [wl, wh, hl, hh, p, bg, ar] @ table,
                   hasWrittenLogicalScreen := True\<rparr>"
    and tb: "if p AND 0x80 \<noteq> 0 then length table = push_bit (p AND 0x07) 2 * 3 else table = []"
    by blast
  have fc: "frameCount w2 = 0"
    using w1 w2 by (simp add: new_GifWriter_def)
  from writeImage_ReturnedD [OF 3] obtain blk where
    fb: "frame_block blk (written_delay 0 io)"
    and bd: "\<forall>c. written_delay 0 io = Some c \<longrightarrow> c \<le> 655350"
    and w3: "w3 = w2\<lparr>output_data := output_data w2 @ blk, frameCount := frameCount w2 + 1\<rparr>"
    unfolding fc by blast
  have out: "output_data w' =
      [71, 73, 70, 56, 57, 97] @ ([wl, wh, hl, hh, p, bg, ar] @ table @ blk @ [0x3b])"
    using w1 w2 w3 writeByte_ReturnedD [OF 4 [unfolded writeTrailer_def]]
    by (simp add: new_GifWriter_def GIF_TRAILER_def)
  define r0 where "r0 = \<lparr>r_data = output_data w', r_position = 6\<rparr>"
  have d: "decodeFrames (output_data w') = getFrames r0"
    unfolding decodeFrames_def out r0_def validateHeader_gif by simp
  have "drop 6 (r_data r0) = [wl, wh, hl, hh, p, bg, ar] @ table @ (blk @ [0x3b])"
    by (simp add: r0_def out)
  from getFrames_screen [OF this tb] obtain scr st where
    g: "getFrames r0 = getFrames_loop scr st" and st: "remaining (reader st) = blk @ [0x3b]"
      "frames st = []" "currentDelay st = 100"
    by blast
  from fb [unfolded frame_block_def, rule_format, OF st(1), where scr = scr] obtain st' f where
    l: "getFrames_loop scr st = getFrames_loop scr st'" and f: "frames st' = frames st @ [f]"
      "delay f = (case written_delay 0 io of None \<Rightarrow> currentDelay st | Some c \<Rightarrow> c)"
      "remaining (reader st') = [0x3b]"
    by blast
  have "getFrames_loop scr st' = Inr (frames st')"
    using f(3) by (intro getFrames_loop_trailer) simp
  then have "decodeFrames (output_data w') = Inr [f]"
    using d g l f(1) st(2) by simp
  then show ?thesis using f(2) st(3) bd by (auto split: option.splits)
qed

lemma writeAnimationInfo_ReturnedD:
  assumes "writeAnimationInfo w ao = (Returned, w')"
  shows "\<exists>lo hi. w' = w\<lparr>output_data := output_data w @
           [0x21, 0xff, 11, 0x4e, 0x45, 0x54, 0x53, 0x43, 0x41, 0x50, 0x45, 0x32, 0x2e, 0x30,
            3, 1, lo, hi, 0]\<rparr>"
proof -
  from assms obtain lbytes where
    l: "write16BitLE (max 0 (min 65535 (case opt_loops ao of None \<Rightarrow> 0 | Some n \<Rightarrow> n))) = Inr lbytes"
    and w: "writeBytes w ([0x21, 0xff, 11] @ map int NETSCAPE_APPLICATION_IDENTIFIER
                    @ map int NETSCAPE_APPLICATION_AUTHENTICATION_CODE
                    @ [3, 0x01] @ map int lbytes @ [0x00]) = (Returned, w')"
    unfolding writeAnimationInfo_def Let_def by (auto split: if_splits sum.splits)
  from l obtain lo hi where lb: "lbytes = [lo, hi]"
    by (auto simp: write16BitLE_def split: if_splits)
  from writeBytes_ReturnedD [OF w] have "w' = w\<lparr>output_data := output_data w @
           [0x21, 0xff, 11, 0x4e, 0x45, 0x54, 0x53, 0x43, 0x41, 0x50, 0x45, 0x32, 0x2e, 0x30,
            3, 1, lo, hi, 0]\<rparr>"
    unfolding lb NETSCAPE_APPLICATION_IDENTIFIER_def NETSCAPE_APPLICATION_AUTHENTICATION_CODE_def
    by simp
  then show ?thesis by blast
qed

lemma frames_step_netscape:
  assumes "remaining (reader st) =
     [0x21, 0xff, 11, 0x4e, 0x45, 0x54, 0x53, 0x43, 0x41, 0x50, 0x45, 0x32, 0x2e, 0x30,
      3, 1, lo, hi, 0] @ rest"
  shows "\<exists>st'. getFrames_loop scr st = getFrames_loop scr st' \<and> remaining (reader st') = rest \<and>
           frames st' = frames st \<and> currentDelay st' = currentDelay st"
proof -
  have n0: "0 < (11::nat)" by simp
  have sk: "\<And>r n. r\<lparr>r_position := r_position r + n\<rparr> = skip n r"
    by (simp add: skip_def)
  have "\<exists>st'. frames_step scr st = Inr (True, st') \<and> remaining (reader st') = rest \<and>
           frames st' = frames st \<and> currentDelay st' = currentDelay st"
    unfolding frames_step_def read_extension_def
    using assms
    apply (simp add: readByte_remaining readBytes_take [OF n0])
    apply (subst skipDataSubBlocks.simps)
    apply (simp add: readByte_remaining sk)
    apply (subst skipDataSubBlocks.simps)
    apply (simp add: readByte_remaining sk)
    done
  then obtain st' where "frames_step scr st = Inr (True, st')" "remaining (reader st') = rest"
    "frames st' = frames st" "currentDelay st' = currentDelay st"
    by blast
  moreover from this(1) assms have "getFrames_loop scr st = getFrames_loop scr st'"
    by (intro getFrames_loop_step) simp_all
  ultimately show ?thesis by blast
qed

lemma frames_block_Nil: "frames_block [] []"
  unfolding frames_block_def by (intro allI impI, rule_tac x = st in exI) simp

lemma frames_block_Cons:
  assumes a: "frame_block blk dl" and b: "frames_block blks dls"
  shows "frames_block (blk @ blks) (dl # dls)"
  unfolding frames_block_def
proof (intro allI impI)
  fix scr :: screen and st :: frames_state and rest :: bytes
  assume "remaining (reader st) = (blk @ blks) @ rest \<and> currentDelay st = 100"
  then have rem: "remaining (reader st) = blk @ (blks @ rest)" and cd: "currentDelay st = 100"
    by simp_all
  from a [unfolded frame_block_def, rule_format, OF rem, where scr = scr] obtain st1 f where
    1: "getFrames_loop scr st = getFrames_loop scr st1" "frames st1 = frames st @ [f]"
      "delay f = (case dl of None \<Rightarrow> currentDelay st | Some c \<Rightarrow> c)"
      "currentDelay st1 = 100" "remaining (reader st1) = blks @ rest"
    by blast
  from b [unfolded frames_block_def, rule_format, of st1 rest scr] 1(4,5) obtain st' fs where
    2: "getFrames_loop scr st1 = getFrames_loop scr st'" "frames st' = frames st1 @ fs"
      "map delay fs = map (\<lambda>dl. case dl of None \<Rightarrow> 100 | Some c \<Rightarrow> c) dls"
      "currentDelay st' = 100" "remaining (reader st') = rest"
    by blast
  have "frames st' = frames st @ (f # fs)" using 1(2) 2(2) by simp
  moreover have "map delay (f # fs) = map (\<lambda>dl. case dl of None \<Rightarrow> 100 | Some c \<Rightarrow> c) (dl # dls)"
    using 1(3) 2(3) cd by (simp split: option.splits)
  ultimately show "\<exists>st' fs. getFrames_loop scr st = getFrames_loop scr st' \<and>
           frames st' = frames st @ fs \<and>
           map delay fs = map (\<lambda>dl. case dl of None \<Rightarrow> 100 | Some c \<Rightarrow> c) (dl # dls) \<and>
           currentDelay st' = 100 \<and> remaining (reader st') = rest"
    using 1(1) 2(1,4,5) by metis
qed

lemma writeImages_ReturnedD:
  assumes "writeImages w imgs ios index = (Returned, w')"
  shows "\<exists>blk. frames_block blk
             (map (\<lambda>i. written_delay (frameCount w + i) (options_at ios (index + i)))
                [0..<length imgs]) \<and>
           (\<forall>i c. i < length imgs \<and>
              written_delay (frameCount w + i) (options_at ios (index + i)) = Some c \<longrightarrow>
              c \<le> 655350) \<and>
           w' = w\<lparr>output_data := output_data w @ blk,
                   frameCount := frameCount w + length imgs\<rparr>"
  using assms
proof (induction imgs arbitrary: w index)
  case Nil
  then have "w' = w" by simp
  then show ?case
    by (intro exI [of _ "[]"]) (simp add: frames_block_Nil)
next
  case (Cons img imgs)
  from Cons.prems obtain w1 where
    1: "writeImage w img (options_at ios index) = (Returned, w1)"
    and 2: "writeImages w1 imgs ios (index + 1) = (Returned, w')"
    by (auto simp: options_at_def dest!: and_then_ReturnedD)
  from writeImage_ReturnedD [OF 1] obtain blk where
    fb: "frame_block blk (written_delay (frameCount w) (options_at ios index))"
    and bd: "\<forall>c. written_delay (frameCount w) (options_at ios index) = Some c \<longrightarrow> c \<le> 655350"
    and w1: "w1 = w\<lparr>output_data := output_data w @ blk, frameCount := frameCount w + 1\<rparr>"
    by (elim exE conjE)
  from Cons.IH [OF 2] obtain blks where
    fbs: "frames_block blks
             (map (\<lambda>i. written_delay (frameCount w1 + i) (options_at ios (index + 1 + i)))
                [0..<length imgs])"
    and bds: "\<forall>i c. i < length imgs \<and>
              written_delay (frameCount w1 + i) (options_at ios (index + 1 + i)) = Some c \<longrightarrow>
              c \<le> 655350"
    and w': "w' = w1\<lparr>output_data := output_data w1 @ blks,
                   frameCount := frameCount w1 + length imgs\<rparr>"
    by (elim exE conjE)
  have m: "map (\<lambda>i. written_delay (frameCount w + i) (options_at ios (index + i)))
                [0..<length (img # imgs)] =
           written_delay (frameCount w) (options_at ios index) #
           map (\<lambda>i. written_delay (frameCount w1 + i) (options_at ios (index + 1 + i)))
                [0..<length imgs]"
    using w1 by (simp add: map_upt_Suc del: upt_Suc)
  have A: "frames_block (blk @ blks)
          (map (\<lambda>i. written_delay (frameCount w + i) (options_at ios (index + i)))
                [0..<length (img # imgs)])"
    unfolding m using fb fbs by (rule frames_block_Cons)
  have B: "w' = w\<lparr>output_data := output_data w @ (blk @ blks),
                   frameCount := frameCount w + length (img # imgs)\<rparr>"
    using w1 w' by simp
  have C: "\<forall>i c. i < length (img # imgs) \<and>
              written_delay (frameCount w + i) (options_at ios (index + i)) = Some c \<longrightarrow>
              c \<le> 655350"
  proof (intro allI impI)
    fix i c
    assume h: "i < length (img # imgs) \<and>
              written_delay (frameCount w + i) (options_at ios (index + i)) = Some c"
    show "c \<le> 655350"
    proof (cases i)
      case 0
      then show ?thesis using h bd by simp
    next
      case (Suc j)
      then have "j < length imgs \<and>
          written_delay (frameCount w1 + j) (options_at ios (index + 1 + j)) = Some c"
        using h w1 by simp
      then show ?thesis using bds by blast
    qed
  qed
  show ?case
    by (rule exI [of _ "blk @ blks"]) (intro conjI A B C)
qed

lemma writeAnimatedGif_decodes:
  assumes "writeAnimatedGif new_GifWriter imgs go ao ios = (Returned, w')"
  shows "\<exists>fs. decodeFrames (output_data w') = Inr fs \<and>
           map delay fs =
             map (\<lambda>i. case written_delay i (options_at ios i) of None \<Rightarrow> 100 | Some c \<Rightarrow> c)
               [0..<length imgs] \<and>
           (\<forall>i c. i < length imgs \<and> written_delay i (options_at ios i) = Some c \<longrightarrow>
              c \<le> 655350)"
proof -
  from assms obtain w1 w2 w3 w4 where
    1: "writeHeader new_GifWriter = (Returned, w1)"
    and 2: "writeLogicalScreen w1 (width (hd imgs)) (height (hd imgs)) go = (Returned, w2)"
    and 3: "writeAnimationInfo w2 ao = (Returned, w3)"
    and 4: "writeImages w3 imgs ios 0 = (Returned, w4)"
    and 5: "writeTrailer w4 = (Returned, w')"
    unfolding writeAnimatedGif_def by (auto split: if_splits dest!: and_then_ReturnedD)
  note w1 = writeHeader_ReturnedD [OF 1]
  from writeLogicalScreen_ReturnedD [OF 2] obtain wl wh hl hh p bg ar table where
    w2: "w2 = w1\<lparr>output_data := output_data w1 @ [wl, wh, hl, hh, p, bg, ar] @ table,
                   hasWrittenLogicalScreen := True\<rparr>"
    and tb: "if p AND 0x80 \<noteq> 0 then length table = push_bit (p AND 0x07) 2 * 3 else table = []"
    by blast
  from writeAnimationInfo_ReturnedD [OF 3] obtain lo hi where
    w3: "w3 = w2\<lparr>output_data := output_data w2 @
           [0x21, 0xff, 11, 0x4e, 0x45, 0x54, 0x53, 0x43, 0x41, 0x50, 0x45, 0x32, 0x2e, 0x30,
            3, 1, lo, hi, 0]\<rparr>"
    by blast
  have fc: "frameCount w3 = 0"
    using w1 w2 w3 by (simp add: new_GifWriter_def)
  from writeImages_ReturnedD [OF 4] obtain blk where
    fb: "frames_block blk (map (\<lambda>i. written_delay i (options_at ios i)) [0..<length imgs])"
    and bd: "\<forall>i c. i < length imgs \<and> written_delay i (options_at ios i) = Some c \<longrightarrow>
              c \<le> 655350"
    and w4: "w4 = w3\<lparr>output_data := output_data w3 @ blk,
                       frameCount := frameCount w3 + length imgs\<rparr>"
    unfolding fc by auto
  define ns where "ns = [0x21, 0xff, 11, 0x4e, 0x45, 0x54, 0x53, 0x43, 0x41, 0x50, 0x45, 0x32, 0x2e,
     0x30, 3, 1, lo, hi, 0::nat]"
  have out: "output_data w' =
      [71, 73, 70, 56, 57, 97] @ ([wl, wh, hl, hh, p, bg, ar] @ table @ (ns @ blk @ [0x3b]))"
    using w1 w2 w3 w4 writeByte_ReturnedD [OF 5 [unfolded writeTrailer_def]]
    by (simp add: new_GifWriter_def GIF_TRAILER_def ns_def)
  define r0 where "r0 = \<lparr>r_data = output_data w', r_position = 6\<rparr>"
  have d: "decodeFrames (output_data w') = getFrames r0"
    unfolding decodeFrames_def out r0_def validateHeader_gif by simp
  have "drop 6 (r_data r0) = [wl, wh, hl, hh, p, bg, ar] @ table @ (ns @ blk @ [0x3b])"
    by (simp add: r0_def out)
  from getFrames_screen [OF this tb] obtain scr st where
    g: "getFrames r0 = getFrames_loop scr st" and st: "remaining (reader st) = ns @ (blk @ [0x3b])"
      "frames st = []" "currentDelay st = 100"
    by blast
  from frames_step_netscape [OF st(1) [unfolded ns_def], where scr = scr] obtain st1 where
    n: "getFrames_loop scr st = getFrames_loop scr st1" "remaining (reader st1) = blk @ [0x3b]"
      "frames st1 = frames st" "currentDelay st1 = currentDelay st"
    by blast
  from fb [unfolded frames_block_def, rule_format, of st1 "[0x3b]" scr] n st obtain st' fs where
    l: "getFrames_loop scr st1 = getFrames_loop scr st'" and f: "frames st' = frames st1 @ fs"
      "map delay fs = map (\<lambda>dl. case dl of None \<Rightarrow> 100 | Some c \<Rightarrow> c)
          (map (\<lambda>i. written_delay i (options_at ios i)) [0..<length imgs])"
      "remaining (reader st') = [0x3b]"
    by auto
  have "getFrames_loop scr st' = Inr (frames st')"
    using f(3) by (intro getFrames_loop_trailer) simp
  then have "decodeFrames (output_data w') = Inr fs"
    using d g n l f(1) st(2) by simp
  then show ?thesis using f(2) bd by (auto simp: comp_def)
qed

subsection \<open>The delay of a frame, written and read\<close>

text \<open>The eight bytes of a graphics control extension with a delay within 16 bits.\<close>

lemma writeGraphicsControl_bytes:
  assumes "msToGifDelay d \<le> 65535"
  shows "\<exists>packed t. writeGraphicsControl w (io\<lparr>opt_delay := Some d\<rparr>) =
           (Returned, w\<lparr>output_data := output_data w @
              [0x21, 0xf9, 4, packed, nat (msToGifDelay d mod 256), nat (msToGifDelay d div 256), t, 0]\<rparr>)"
proof -
  have d0: "0 \<le> msToGifDelay d" by (simp add: msToGifDelay_def)
  note w16 = write16BitLE_bytes [OF d0 assms]
  define dm where "dm = (case opt_disposal io of None \<Rightarrow> RestoreToBackground | Some d \<Rightarrow> d)"
  define ti where "ti = (case opt_transparentIndex io of None \<Rightarrow> - 1 | Some t \<Rightarrow> t)"
  have b: "0 \<le> ti AND 255" "\<not> 255 < ti AND 255"
    using and_255_byte [of ti] by (simp_all only: not_less)
  let ?run = "and_then (writeBytes w [0x21, 0xf9, 0x04]) (\<lambda>w.
         and_then (writeByte w (push_bit 2 (int (disposal_value dm) AND 0x07) OR
                (if ti \<ge> 0 \<and> ti \<le> 255 then 0x01 else 0x00))) (\<lambda>w.
             and_then (write16 w (msToGifDelay d)) (\<lambda>w.
             and_then (writeByte w (if ti \<ge> 0 \<and> ti \<le> 255 then ti AND 0xff else 0)) (\<lambda>w.
             writeByte w 0x00))))"
  have eq: "writeGraphicsControl w (io\<lparr>opt_delay := Some d\<rparr>) = ?run"
    unfolding writeGraphicsControl_def Let_def dm_def ti_def by simp
  have "\<exists>packed t. ?run =
           (Returned, w\<lparr>output_data := output_data w @
              [0x21, 0xf9, 4, packed, nat (msToGifDelay d mod 256), nat (msToGifDelay d div 256), t, 0]\<rparr>)"
    by (insert b, cases dm; cases "ti \<ge> 0 \<and> ti \<le> 255")
       (auto simp: writeByte_def and_then_def write16_def w16 writeBytes_Uint8Array_def)
  then show ?thesis by (simp only: eq)
qed


lemma writeGraphicsControl_too_long:
  assumes "msToGifDelay d > 65535"
  shows "fst (writeGraphicsControl w (io\<lparr>opt_delay := Some d\<rparr>)) = Thrown GifValidationError"
proof -
  define dm where "dm = (case opt_disposal io of None \<Rightarrow> RestoreToBackground | Some d \<Rightarrow> d)"
  define ti where "ti = (case opt_transparentIndex io of None \<Rightarrow> - 1 | Some t \<Rightarrow> t)"
  let ?run = "and_then (writeBytes w [0x21, 0xf9, 0x04]) (\<lambda>w.
         and_then (writeByte w (push_bit 2 (int (disposal_value dm) AND 0x07) OR
                (if ti \<ge> 0 \<and> ti \<le> 255 then 0x01 else 0x00))) (\<lambda>w.
             and_then (write16 w (msToGifDelay d)) (\<lambda>w.
             and_then (writeByte w (if ti \<ge> 0 \<and> ti \<le> 255 then ti AND 0xff else 0)) (\<lambda>w.
             writeByte w 0x00))))"
  have eq: "writeGraphicsControl w (io\<lparr>opt_delay := Some d\<rparr>) = ?run"
    unfolding writeGraphicsControl_def Let_def dm_def ti_def by simp
  have "fst ?run = Thrown GifValidationError"
    using assms
    by (cases dm; cases "ti \<ge> 0 \<and> ti \<le> 255")
       (auto simp: writeByte_def and_then_def write16_def write16BitLE_def)
  then show ?thesis by (simp only: eq)
qed


text \<open>C6, amended. A delay \<open>d\<close> (milliseconds, whole or not) with \<open>round(d / 10) \<le> 65535\<close>
  is written into the graphics control extension as \<open>round(d / 10)\<close> clamped to
  \<open>[0, 65535]\<close>, a 16-bit little-endian value; a longer delay is not clamped: the write
  throws \<open>GifValidationError\<close>. Whenever \<^verbatim>\<open>writeStaticGif\<close> with the delay \<open>d\<close>, or
  \<^verbatim>\<open>writeAnimatedGif\<close> with the delay \<open>d\<close> for its frame \<open>i\<close>, returns on a new writer, then
  \<open>round(d / 10) \<le> 65535\<close> and \<^verbatim>\<open>getFrames\<close> of a reader of the bytes written returns the
  frames, one for each image, the frame of that image with the delay of the clamped value
  times 10, which is \<open>round(d / 10) * 10\<close> unless \<open>round(d / 10)\<close> is negative.\<close>

theorem delay_round_trip:
  "(Math_round (d / 10) \<le> 65535 \<longrightarrow>
      (\<exists>gce. length gce = 8 \<and>
         writeGraphicsControl w (io\<lparr>opt_delay := Some d\<rparr>) =
           (Returned, w\<lparr>output_data := output_data w @ gce\<rparr>) \<and>
         int (gce ! 4) + 256 * int (gce ! 5) = max 0 (min 65535 (Math_round (d / 10))))) \<and>
   (Math_round (d / 10) > 65535 \<longrightarrow>
      fst (writeGraphicsControl w (io\<lparr>opt_delay := Some d\<rparr>)) = Thrown GifValidationError) \<and>
   (\<forall>img go w'.
      writeStaticGif new_GifWriter img go (io\<lparr>opt_delay := Some d\<rparr>) = (Returned, w') \<longrightarrow>
      Math_round (d / 10) \<le> 65535 \<and>
      (\<exists>f. decodeFrames (output_data w') = Inr [f] \<and>
           delay f = max 0 (min 65535 (Math_round (d / 10))) * 10)) \<and>
   (\<forall>imgs go ao ios w' i.
      writeAnimatedGif new_GifWriter imgs go ao ios = (Returned, w') \<and> i < length imgs \<and>
      i < length ios \<and> opt_delay (ios ! i) = Some d \<longrightarrow>
      Math_round (d / 10) \<le> 65535 \<and>
      (\<exists>fs. decodeFrames (output_data w') = Inr fs \<and> length fs = length imgs \<and>
            delay (fs ! i) = max 0 (min 65535 (Math_round (d / 10))) * 10))"
proof (intro conjI impI allI)
  assume a: "Math_round (d / 10) \<le> 65535"
  then have le: "msToGifDelay d \<le> 65535" by (simp add: msToGifDelay_def)
  have d0: "0 \<le> msToGifDelay d" by (simp add: msToGifDelay_def)
  from writeGraphicsControl_bytes [OF le, of w io] obtain packed t where
    wr: "writeGraphicsControl w (io\<lparr>opt_delay := Some d\<rparr>) =
           (Returned, w\<lparr>output_data := output_data w @
              [0x21, 0xf9, 4, packed, nat (msToGifDelay d mod 256), nat (msToGifDelay d div 256), t, 0]\<rparr>)"
    by blast
  let ?gce = "[0x21, 0xf9, 4, packed, nat (msToGifDelay d mod 256), nat (msToGifDelay d div 256), t, 0]"
  have v: "int (nat (msToGifDelay d mod 256)) + 256 * int (nat (msToGifDelay d div 256)) = msToGifDelay d"
    using d0 by (simp add: pos_imp_zdiv_nonneg_iff)
  have "int (?gce ! 4) + 256 * int (?gce ! 5) = max 0 (min 65535 (Math_round (d / 10)))"
    using v a by (simp add: msToGifDelay_def)
  then show "\<exists>gce. length gce = 8 \<and>
         writeGraphicsControl w (io\<lparr>opt_delay := Some d\<rparr>) =
           (Returned, w\<lparr>output_data := output_data w @ gce\<rparr>) \<and>
         int (gce ! 4) + 256 * int (gce ! 5) = max 0 (min 65535 (Math_round (d / 10)))"
    using wr by (intro exI [of _ ?gce]) simp
next
  assume "65535 < Math_round (d / 10)"
  then have "msToGifDelay d > 65535" by (simp add: msToGifDelay_def)
  then show "fst (writeGraphicsControl w (io\<lparr>opt_delay := Some d\<rparr>)) = Thrown GifValidationError"
    by (rule writeGraphicsControl_too_long)
next
  fix img go w'
  assume e: "writeStaticGif new_GifWriter img go (io\<lparr>opt_delay := Some d\<rparr>) = (Returned, w')"
  have wd: "written_delay 0 (io\<lparr>opt_delay := Some d\<rparr>) = Some (msToGifDelay d * 10)"
    by (simp add: written_delay_def)
  from writeStaticGif_decodes [OF e] obtain f where
    f: "decodeFrames (output_data w') = Inr [f]" "delay f = msToGifDelay d * 10"
    and b: "msToGifDelay d * 10 \<le> 655350"
    unfolding wd by auto
  from b show r: "Math_round (d / 10) \<le> 65535" by (simp add: msToGifDelay_def)
  then have "msToGifDelay d = max 0 (min 65535 (Math_round (d / 10)))"
    by (simp add: msToGifDelay_def)
  with f show "\<exists>f. decodeFrames (output_data w') = Inr [f] \<and>
           delay f = max 0 (min 65535 (Math_round (d / 10))) * 10"
    by auto
next
  fix imgs go ao ios w' i
  assume "writeAnimatedGif new_GifWriter imgs go ao ios = (Returned, w') \<and> i < length imgs \<and>
      i < length ios \<and> opt_delay (ios ! i) = Some d"
  then have e: "writeAnimatedGif new_GifWriter imgs go ao ios = (Returned, w')"
    and i: "i < length imgs" "i < length ios" "opt_delay (ios ! i) = Some d"
    by simp_all
  have wd: "written_delay i (options_at ios i) = Some (msToGifDelay d * 10)"
    using i by (simp add: written_delay_def options_at_def)
  from writeAnimatedGif_decodes [OF e] obtain fs where
    fs: "decodeFrames (output_data w') = Inr fs"
    and m: "map delay fs =
             map (\<lambda>i. case written_delay i (options_at ios i) of None \<Rightarrow> 100 | Some c \<Rightarrow> c)
               [0..<length imgs]"
    and b: "\<forall>i c. i < length imgs \<and> written_delay i (options_at ios i) = Some c \<longrightarrow>
              c \<le> 655350"
    by (elim exE conjE)
  from b i(1) wd have "msToGifDelay d * 10 \<le> 655350" by blast
  then show r: "Math_round (d / 10) \<le> 65535" by (simp add: msToGifDelay_def)
  then have c: "msToGifDelay d = max 0 (min 65535 (Math_round (d / 10)))"
    by (simp add: msToGifDelay_def)
  from m have l: "length fs = length imgs"
    by (metis length_map length_upt minus_nat.diff_0)
  have "delay (fs ! i) = map delay fs ! i"
    using i(1) l by simp
  also have "\<dots> = msToGifDelay d * 10"
    unfolding m using i(1) wd by simp
  finally show "\<exists>fs. decodeFrames (output_data w') = Inr fs \<and> length fs = length imgs \<and>
            delay (fs ! i) = max 0 (min 65535 (Math_round (d / 10))) * 10"
    using fs l c by auto
qed

theorem delay_round_trip_witness:
  "Math_round (2049 / 10 / 10) \<le> 65535 \<and>
   (\<exists>gce. length gce = 8 \<and>
      writeGraphicsControl new_GifWriter (no_ImageOptions\<lparr>opt_delay := Some (2049 / 10)\<rparr>) =
        (Returned, new_GifWriter\<lparr>output_data := output_data new_GifWriter @ gce\<rparr>) \<and>
      int (gce ! 4) + 256 * int (gce ! 5) = 20) \<and>
   Math_round (655360 / 10) > 65535 \<and>
   fst (writeGraphicsControl new_GifWriter (no_ImageOptions\<lparr>opt_delay := Some 655360\<rparr>)) =
     Thrown GifValidationError \<and>
   writeStaticGif new_GifWriter \<lparr>width = 1, height = 1, data = [0], palette = [255, 0, 0]\<rparr> no_GlobalColorTableOptions (no_ImageOptions\<lparr>opt_delay := Some (2049 / 10)\<rparr>) =
     (Returned, \<lparr>output_data = [71, 73, 70, 56, 57, 97, 1, 0, 1, 0, 112, 0, 0, 33, 249, 4, 8, 20, 0, 0, 0, 44, 0, 0, 0, 0, 1, 0, 1, 0, 128, 255, 0, 0, 0, 0, 0, 2, 2, 68, 1, 0, 59], hasWrittenHeader = True, hasWrittenLogicalScreen = True, frameCount = 1\<rparr>) \<and>
   (\<exists>f. decodeFrames [71, 73, 70, 56, 57, 97, 1, 0, 1, 0, 112, 0, 0, 33, 249, 4, 8, 20, 0, 0, 0, 44, 0, 0, 0, 0, 1, 0, 1, 0, 128, 255, 0, 0, 0, 0, 0, 2, 2, 68, 1, 0, 59] = Inr [f] \<and> delay f = 200) \<and>
   writeAnimatedGif new_GifWriter [\<lparr>width = 1, height = 1, data = [0], palette = [255, 0, 0]\<rparr>, \<lparr>width = 1, height = 1, data = [0], palette = [255, 0, 0]\<rparr>] no_GlobalColorTableOptions no_AnimationOptions
       [no_ImageOptions, (no_ImageOptions\<lparr>opt_delay := Some (2049 / 10)\<rparr>)] =
     (Returned, \<lparr>output_data = [71, 73, 70, 56, 57, 97, 1, 0, 1, 0, 112, 0, 0, 33, 255, 11, 78, 69, 84, 83, 67, 65, 80, 69, 50, 46, 48, 3, 1, 0, 0, 0, 44, 0, 0, 0, 0, 1, 0, 1, 0, 128, 255, 0, 0, 0, 0, 0, 2, 2, 68, 1, 0, 33, 249, 4, 8, 20, 0, 0, 0, 44, 0, 0, 0, 0, 1, 0, 1, 0, 128, 255, 0, 0, 0, 0, 0, 2, 2, 68, 1, 0, 59], hasWrittenHeader = True, hasWrittenLogicalScreen = True, frameCount = 2\<rparr>) \<and>
   (1::nat) < length [\<lparr>width = 1, height = 1, data = [0], palette = [255, 0, 0]\<rparr>, \<lparr>width = 1, height = 1, data = [0], palette = [255, 0, 0]\<rparr>] \<and>
   (1::nat) < length [no_ImageOptions, (no_ImageOptions\<lparr>opt_delay := Some (2049 / 10)\<rparr>)] \<and>
   opt_delay ([no_ImageOptions, (no_ImageOptions\<lparr>opt_delay := Some (2049 / 10)\<rparr>)] ! 1) = Some (2049 / 10) \<and>
   (\<exists>fs. decodeFrames [71, 73, 70, 56, 57, 97, 1, 0, 1, 0, 112, 0, 0, 33, 255, 11, 78, 69, 84, 83, 67, 65, 80, 69, 50, 46, 48, 3, 1, 0, 0, 0, 44, 0, 0, 0, 0, 1, 0, 1, 0, 128, 255, 0, 0, 0, 0, 0, 2, 2, 68, 1, 0, 33, 249, 4, 8, 20, 0, 0, 0, 44, 0, 0, 0, 0, 1, 0, 1, 0, 128, 255, 0, 0, 0, 0, 0, 2, 2, 68, 1, 0, 59] = Inr fs \<and> length fs = 2 \<and> delay (fs ! 1) = 200)"
proof -
  have a: "Math_round (2049 / 10 / 10) = 20"
    by code_simp
  have b: "Math_round (655360 / 10) > 65535"
    by code_simp
  have s: "writeStaticGif new_GifWriter \<lparr>width = 1, height = 1, data = [0], palette = [255, 0, 0]\<rparr> no_GlobalColorTableOptions (no_ImageOptions\<lparr>opt_delay := Some (2049 / 10)\<rparr>) = (Returned, \<lparr>output_data = [71, 73, 70, 56, 57, 97, 1, 0, 1, 0, 112, 0, 0, 33, 249, 4, 8, 20, 0, 0, 0, 44, 0, 0, 0, 0, 1, 0, 1, 0, 128, 255, 0, 0, 0, 0, 0, 2, 2, 68, 1, 0, 59], hasWrittenHeader = True, hasWrittenLogicalScreen = True, frameCount = 1\<rparr>)"
    by code_simp
  have h: "writeHeader new_GifWriter =
      (Returned, \<lparr>output_data = [71, 73, 70, 56, 57, 97], hasWrittenHeader = True,
         hasWrittenLogicalScreen = False, frameCount = 0\<rparr>)"
    by code_simp
  have l: "writeLogicalScreen \<lparr>output_data = [71, 73, 70, 56, 57, 97], hasWrittenHeader = True,
         hasWrittenLogicalScreen = False, frameCount = 0\<rparr> 1 1 no_GlobalColorTableOptions =
      (Returned, \<lparr>output_data = [71, 73, 70, 56, 57, 97, 1, 0, 1, 0, 112, 0, 0],
         hasWrittenHeader = True, hasWrittenLogicalScreen = True, frameCount = 0\<rparr>)"
    by code_simp
  have n: "writeAnimationInfo \<lparr>output_data = [71, 73, 70, 56, 57, 97, 1, 0, 1, 0, 112, 0, 0],
         hasWrittenHeader = True, hasWrittenLogicalScreen = True, frameCount = 0\<rparr>
         no_AnimationOptions =
      (Returned, \<lparr>output_data = [71, 73, 70, 56, 57, 97, 1, 0, 1, 0, 112, 0, 0, 33, 255, 11, 78, 69, 84, 83, 67, 65, 80, 69, 50, 46, 48, 3, 1, 0, 0, 0], hasWrittenHeader = True, hasWrittenLogicalScreen = True, frameCount = 0\<rparr>)"
    by (simp add: writeAnimationInfo_def no_AnimationOptions_def write16BitLE_def writeBytes_valid
          NETSCAPE_APPLICATION_IDENTIFIER_def NETSCAPE_APPLICATION_AUTHENTICATION_CODE_def
        del: writeBytes.simps)
  have i: "writeImages \<lparr>output_data = [71, 73, 70, 56, 57, 97, 1, 0, 1, 0, 112, 0, 0, 33, 255, 11, 78, 69, 84, 83, 67, 65, 80, 69, 50, 46, 48, 3, 1, 0, 0, 0], hasWrittenHeader = True, hasWrittenLogicalScreen = True, frameCount = 0\<rparr> [\<lparr>width = 1, height = 1, data = [0], palette = [255, 0, 0]\<rparr>, \<lparr>width = 1, height = 1, data = [0], palette = [255, 0, 0]\<rparr>] [no_ImageOptions, (no_ImageOptions\<lparr>opt_delay := Some (2049 / 10)\<rparr>)] 0 = (Returned, \<lparr>output_data = [71, 73, 70, 56, 57, 97, 1, 0, 1, 0, 112, 0, 0, 33, 255, 11, 78, 69, 84, 83, 67, 65, 80, 69, 50, 46, 48, 3, 1, 0, 0, 0, 44, 0, 0, 0, 0, 1, 0, 1, 0, 128, 255, 0, 0, 0, 0, 0, 2, 2, 68, 1, 0, 33, 249, 4, 8, 20, 0, 0, 0, 44, 0, 0, 0, 0, 1, 0, 1, 0, 128, 255, 0, 0, 0, 0, 0, 2, 2, 68, 1, 0], hasWrittenHeader = True, hasWrittenLogicalScreen = True, frameCount = 2\<rparr>)"
    by code_simp
  have an: "writeAnimatedGif new_GifWriter [\<lparr>width = 1, height = 1, data = [0], palette = [255, 0, 0]\<rparr>, \<lparr>width = 1, height = 1, data = [0], palette = [255, 0, 0]\<rparr>] no_GlobalColorTableOptions
       no_AnimationOptions [no_ImageOptions, (no_ImageOptions\<lparr>opt_delay := Some (2049 / 10)\<rparr>)] = (Returned, \<lparr>output_data = [71, 73, 70, 56, 57, 97, 1, 0, 1, 0, 112, 0, 0, 33, 255, 11, 78, 69, 84, 83, 67, 65, 80, 69, 50, 46, 48, 3, 1, 0, 0, 0, 44, 0, 0, 0, 0, 1, 0, 1, 0, 128, 255, 0, 0, 0, 0, 0, 2, 2, 68, 1, 0, 33, 249, 4, 8, 20, 0, 0, 0, 44, 0, 0, 0, 0, 1, 0, 1, 0, 128, 255, 0, 0, 0, 0, 0, 2, 2, 68, 1, 0, 59], hasWrittenHeader = True, hasWrittenLogicalScreen = True, frameCount = 2\<rparr>)"
    by (simp add: writeAnimatedGif_def h l n i and_then_def writeTrailer_def writeByte_def
          GIF_TRAILER_def del: writeImages.simps One_nat_def)
  note t = delay_round_trip [of "2049 / 10" new_GifWriter no_ImageOptions]
  have a': "Math_round (2049 / 10 / 10) \<le> 65535"
    unfolding a by simp
  have c: "max 0 (min 65535 (20::int)) = 20" "(20::int) * 10 = 200"
    by simp_all
  have len: "length [\<lparr>width = 1, height = 1, data = [0], palette = [255, 0, 0]\<rparr>, \<lparr>width = 1, height = 1, data = [0], palette = [255, 0, 0]\<rparr>] = 2"
    by simp
  have g: "\<exists>gce. length gce = 8 \<and>
      writeGraphicsControl new_GifWriter (no_ImageOptions\<lparr>opt_delay := Some (2049 / 10)\<rparr>) =
        (Returned, new_GifWriter\<lparr>output_data := output_data new_GifWriter @ gce\<rparr>) \<and>
      int (gce ! 4) + 256 * int (gce ! 5) = 20"
    using t [THEN conjunct1, rule_format, OF a'] unfolding a c .
  have th: "fst (writeGraphicsControl new_GifWriter (no_ImageOptions\<lparr>opt_delay := Some 655360\<rparr>)) =
     Thrown GifValidationError"
    using delay_round_trip [of 655360 new_GifWriter no_ImageOptions,
        THEN conjunct2, THEN conjunct1, rule_format, OF b] .
  have st: "\<exists>f. decodeFrames [71, 73, 70, 56, 57, 97, 1, 0, 1, 0, 112, 0, 0, 33, 249, 4, 8, 20, 0, 0, 0, 44, 0, 0, 0, 0, 1, 0, 1, 0, 128, 255, 0, 0, 0, 0, 0, 2, 2, 68, 1, 0, 59] = Inr [f] \<and> delay f = 200"
    using t [THEN conjunct2, THEN conjunct2, THEN conjunct1, rule_format, OF s, THEN conjunct2]
    unfolding a c GifWriter.simps .
  have i1: "(1::nat) < length [\<lparr>width = 1, height = 1, data = [0], palette = [255, 0, 0]\<rparr>, \<lparr>width = 1, height = 1, data = [0], palette = [255, 0, 0]\<rparr>]" "(1::nat) < length [no_ImageOptions, (no_ImageOptions\<lparr>opt_delay := Some (2049 / 10)\<rparr>)]"
    "opt_delay ([no_ImageOptions, (no_ImageOptions\<lparr>opt_delay := Some (2049 / 10)\<rparr>)] ! 1) = Some (2049 / 10)"
    by simp_all
  have at: "\<exists>fs. decodeFrames [71, 73, 70, 56, 57, 97, 1, 0, 1, 0, 112, 0, 0, 33, 255, 11, 78, 69, 84, 83, 67, 65, 80, 69, 50, 46, 48, 3, 1, 0, 0, 0, 44, 0, 0, 0, 0, 1, 0, 1, 0, 128, 255, 0, 0, 0, 0, 0, 2, 2, 68, 1, 0, 33, 249, 4, 8, 20, 0, 0, 0, 44, 0, 0, 0, 0, 1, 0, 1, 0, 128, 255, 0, 0, 0, 0, 0, 2, 2, 68, 1, 0, 59] = Inr fs \<and> length fs = 2 \<and> delay (fs ! 1) = 200"
    using t [THEN conjunct2, THEN conjunct2, THEN conjunct2, rule_format,
        OF conjI [OF an conjI [OF i1(1) conjI [OF i1(2) i1(3)]]], THEN conjunct2]
    unfolding a c len GifWriter.simps .
  show ?thesis
    by (intro conjI a' g b th s st an i1 at)
qed

text \<open>C6 as stated fails at 655360 ms: 65536 centiseconds are not clamped to 65535, the
  write throws after the first four bytes of the extension, and no file is encoded.\<close>

theorem delay_not_clamped:
  "msToGifDelay 655360 = 65536 \<and>
   writeGraphicsControl new_GifWriter (no_ImageOptions\<lparr>opt_delay := Some 655360\<rparr>) =
     (Thrown GifValidationError, new_GifWriter\<lparr>output_data := [0x21, 0xf9, 4, 8]\<rparr>) \<and>
   writeStaticGif new_GifWriter \<lparr>width = 1, height = 1, data = [0], palette = [255, 0, 0]\<rparr> no_GlobalColorTableOptions
       (no_ImageOptions\<lparr>opt_delay := Some 655360\<rparr>) =
     (Thrown GifValidationError, \<lparr>output_data = [71, 73, 70, 56, 57, 97, 1, 0, 1, 0, 112, 0, 0, 33, 249, 4, 8], hasWrittenHeader = True, hasWrittenLogicalScreen = True, frameCount = 0\<rparr>)"
proof -
  have d: "msToGifDelay 655360 = 65536"
    by code_simp
  have g: "writeGraphicsControl new_GifWriter (no_ImageOptions\<lparr>opt_delay := Some 655360\<rparr>) =
     (Thrown GifValidationError, new_GifWriter\<lparr>output_data := [0x21, 0xf9, 4, 8]\<rparr>)"
    using d
    by (simp add: writeGraphicsControl_def no_ImageOptions_def new_GifWriter_def
          writeByte_def and_then_def write16_def write16BitLE_def)
  have s: "writeStaticGif new_GifWriter \<lparr>width = 1, height = 1, data = [0], palette = [255, 0, 0]\<rparr> no_GlobalColorTableOptions
       (no_ImageOptions\<lparr>opt_delay := Some 655360\<rparr>) =
     (Thrown GifValidationError, \<lparr>output_data = [71, 73, 70, 56, 57, 97, 1, 0, 1, 0, 112, 0, 0, 33, 249, 4, 8], hasWrittenHeader = True, hasWrittenLogicalScreen = True, frameCount = 0\<rparr>)"
    by code_simp
  show ?thesis using d g s by simp
qed

section \<open>Order of calls\<close>

lemma writeHeader_sets: "hasWrittenHeader (snd (writeHeader w))"
  by (simp add: writeHeader_def and_then_def writeBytes_Uint8Array_def)

lemma writeLogicalScreen_sets:
  "writeLogicalScreen w wd ht go = (Returned, w') \<Longrightarrow> hasWrittenLogicalScreen w'"
  unfolding writeLogicalScreen_def
  by (auto simp: Let_def split: if_splits sum.splits option.splits prod.splits
           dest!: and_then_Returned)

lemma perform_extends: "extends w (snd (perform w c))"
  by (cases c)
     (simp_all add: writeHeader_extends writeLogicalScreen_extends writeAnimationInfo_extends
        writeImage_extends writeTrailer_def writeByte_extends)

lemma run_extends: "extends w (run w cs)"
  by (induction cs arbitrary: w) (auto intro: extends_trans perform_extends)

lemma run_append: "run w (cs1 @ cs2) = run (run w cs1) cs2"
  by (induction cs1 arbitrary: w) simp_all

text \<open>Before a header, no call but \<open>writeHeader\<close> changes a flag; before a logical screen, no
  call but \<open>writeLogicalScreen\<close> sets its flag.\<close>

lemma perform_no_header:
  assumes "\<not> hasWrittenHeader w" "\<not> hasWrittenLogicalScreen w" "c \<noteq> WriteHeader"
  shows "\<not> hasWrittenHeader (snd (perform w c)) \<and> \<not> hasWrittenLogicalScreen (snd (perform w c))"
  using assms
  by (cases c)
     (simp_all add: writeLogicalScreen_def writeAnimationInfo_def writeImage_def writeTrailer_def
        writeByte_def)

lemma run_no_header:
  assumes "\<not> hasWrittenHeader w" "\<not> hasWrittenLogicalScreen w" "WriteHeader \<notin> set cs"
  shows "\<not> hasWrittenHeader (run w cs) \<and> \<not> hasWrittenLogicalScreen (run w cs)"
  using assms
proof (induction cs arbitrary: w)
  case Nil
  then show ?case by simp
next
  case (Cons c cs)
  then have "c \<noteq> WriteHeader" "WriteHeader \<notin> set cs" by auto
  with Cons perform_no_header [of w c] show ?case by simp
qed

lemma perform_no_screen:
  assumes "\<not> hasWrittenLogicalScreen w" "\<forall>a b g. c \<noteq> WriteLogicalScreen a b g"
  shows "\<not> hasWrittenLogicalScreen (snd (perform w c))"
  using assms
  by (cases c)
     (simp_all add: writeHeader_def writeAnimationInfo_def writeImage_def writeTrailer_def
        writeByte_def and_then_def writeBytes_Uint8Array_def)

lemma run_no_screen:
  assumes "\<not> hasWrittenLogicalScreen w" "\<forall>a b g. WriteLogicalScreen a b g \<notin> set cs"
  shows "\<not> hasWrittenLogicalScreen (run w cs)"
  using assms
proof (induction cs arbitrary: w)
  case Nil
  then show ?case by simp
next
  case (Cons c cs)
  then have "\<forall>a b g. c \<noteq> WriteLogicalScreen a b g" "\<forall>a b g. WriteLogicalScreen a b g \<notin> set cs"
    by auto
  with Cons perform_no_screen [of w c] show ?case by simp
qed

lemma run_header:
  assumes "WriteHeader \<in> set cs"
  shows "hasWrittenHeader (run w cs)"
proof -
  from assms obtain cs1 cs2 where cs: "cs = cs1 @ WriteHeader # cs2"
    by (auto simp: in_set_conv_decomp)
  have "hasWrittenHeader (snd (perform (run w cs1) WriteHeader))"
    by (simp add: writeHeader_sets)
  moreover have "extends (snd (perform (run w cs1) WriteHeader)) (run w cs)"
    unfolding cs run_append by (simp add: run_extends)
  ultimately show ?thesis by (simp add: extends_def)
qed

text \<open>C5, amended: on a writer that has received any calls \<open>cs\<close>, \<open>writeHeader\<close> after
  an earlier \<open>writeHeader\<close>, \<open>writeLogicalScreen\<close> with no \<open>writeHeader\<close> before it or after
  a \<open>writeLogicalScreen\<close> that returned, and \<open>writeAnimationInfo\<close> and \<open>writeImage\<close> with no
  \<open>writeLogicalScreen\<close> before them throw \<open>GifEncodingError\<close> and leave the writer as it
  was. (\<open>writeTrailer\<close> has no such guard.)\<close>

theorem call_order_guards:
  "(WriteHeader \<in> set cs \<longrightarrow>
      perform (run new_GifWriter cs) WriteHeader =
        (Thrown GifEncodingError, run new_GifWriter cs)) \<and>
   (WriteHeader \<notin> set cs \<longrightarrow>
      perform (run new_GifWriter cs) (WriteLogicalScreen wd ht go) =
        (Thrown GifEncodingError, run new_GifWriter cs)) \<and>
   ((\<exists>cs1 cs2 a b g. cs = cs1 @ WriteLogicalScreen a b g # cs2 \<and>
        fst (perform (run new_GifWriter cs1) (WriteLogicalScreen a b g)) = Returned) \<longrightarrow>
      perform (run new_GifWriter cs) (WriteLogicalScreen wd ht go) =
        (Thrown GifEncodingError, run new_GifWriter cs)) \<and>
   ((\<forall>a b g. WriteLogicalScreen a b g \<notin> set cs) \<longrightarrow>
      perform (run new_GifWriter cs) (WriteAnimationInfo ao) =
        (Thrown GifEncodingError, run new_GifWriter cs) \<and>
      perform (run new_GifWriter cs) (WriteImage img io) =
        (Thrown GifEncodingError, run new_GifWriter cs))"
proof (intro conjI impI)
  assume "WriteHeader \<in> set cs"
  then show "perform (run new_GifWriter cs) WriteHeader =
      (Thrown GifEncodingError, run new_GifWriter cs)"
    by (simp add: run_header writeHeader_def)
next
  assume "WriteHeader \<notin> set cs"
  then have "\<not> hasWrittenHeader (run new_GifWriter cs)"
    using run_no_header [of new_GifWriter cs] by (simp add: new_GifWriter_def)
  then show "perform (run new_GifWriter cs) (WriteLogicalScreen wd ht go) =
      (Thrown GifEncodingError, run new_GifWriter cs)"
    by (simp add: writeLogicalScreen_def)
next
  assume "\<exists>cs1 cs2 a b g. cs = cs1 @ WriteLogicalScreen a b g # cs2 \<and>
        fst (perform (run new_GifWriter cs1) (WriteLogicalScreen a b g)) = Returned"
  then obtain cs1 cs2 a b g where cs: "cs = cs1 @ WriteLogicalScreen a b g # cs2"
    and r: "fst (perform (run new_GifWriter cs1) (WriteLogicalScreen a b g)) = Returned"
    by blast
  have "hasWrittenLogicalScreen (snd (perform (run new_GifWriter cs1) (WriteLogicalScreen a b g)))"
    using r writeLogicalScreen_sets [of "run new_GifWriter cs1" a b g]
    by (cases "writeLogicalScreen (run new_GifWriter cs1) a b g") simp
  moreover have "extends (snd (perform (run new_GifWriter cs1) (WriteLogicalScreen a b g)))
      (run new_GifWriter cs)"
    unfolding cs run_append by (simp add: run_extends)
  ultimately have "hasWrittenLogicalScreen (run new_GifWriter cs)"
    by (simp add: extends_def)
  then show "perform (run new_GifWriter cs) (WriteLogicalScreen wd ht go) =
      (Thrown GifEncodingError, run new_GifWriter cs)"
    by (simp add: writeLogicalScreen_def)
next
  assume a: "\<forall>a b g. WriteLogicalScreen a b g \<notin> set cs"
  have n: "\<not> hasWrittenLogicalScreen (run new_GifWriter cs)"
    using run_no_screen [OF _ a, of new_GifWriter] by (simp add: new_GifWriter_def)
  show "perform (run new_GifWriter cs) (WriteAnimationInfo ao) =
      (Thrown GifEncodingError, run new_GifWriter cs)"
    using n by (simp add: writeAnimationInfo_def)
  show "perform (run new_GifWriter cs) (WriteImage img io) =
      (Thrown GifEncodingError, run new_GifWriter cs)"
    using n by (simp add: writeImage_def)
qed

theorem call_order_guards_witness:
  "WriteHeader \<in> set [WriteHeader] \<and>
   perform (run new_GifWriter [WriteHeader]) WriteHeader =
     (Thrown GifEncodingError, run new_GifWriter [WriteHeader]) \<and>
   WriteHeader \<notin> set [] \<and>
   perform (run new_GifWriter []) (WriteLogicalScreen 1 1 no_GlobalColorTableOptions) =
     (Thrown GifEncodingError, run new_GifWriter []) \<and>
   (\<exists>cs1 cs2 a b g.
      [WriteHeader, WriteLogicalScreen 1 1 no_GlobalColorTableOptions] =
        cs1 @ WriteLogicalScreen a b g # cs2 \<and>
      fst (perform (run new_GifWriter cs1) (WriteLogicalScreen a b g)) = Returned) \<and>
   perform (run new_GifWriter [WriteHeader, WriteLogicalScreen 1 1 no_GlobalColorTableOptions])
       (WriteLogicalScreen 1 1 no_GlobalColorTableOptions) =
     (Thrown GifEncodingError,
      run new_GifWriter [WriteHeader, WriteLogicalScreen 1 1 no_GlobalColorTableOptions]) \<and>
   (\<forall>a b g. WriteLogicalScreen a b g \<notin> set [WriteHeader]) \<and>
   perform (run new_GifWriter [WriteHeader]) (WriteAnimationInfo no_AnimationOptions) =
     (Thrown GifEncodingError, run new_GifWriter [WriteHeader]) \<and>
   perform (run new_GifWriter [WriteHeader])
       (WriteImage \<lparr>width = 1, height = 1, data = [0], palette = [255, 0, 0]\<rparr> no_ImageOptions) =
     (Thrown GifEncodingError, run new_GifWriter [WriteHeader])"
proof -
  have r: "fst (perform (run new_GifWriter [WriteHeader])
              (WriteLogicalScreen 1 1 no_GlobalColorTableOptions)) = Returned"
    by code_simp
  have e: "\<exists>cs1 cs2 a b g.
      [WriteHeader, WriteLogicalScreen 1 1 no_GlobalColorTableOptions] =
        cs1 @ WriteLogicalScreen a b g # cs2 \<and>
      fst (perform (run new_GifWriter cs1) (WriteLogicalScreen a b g)) = Returned"
    by (rule exI [of _ "[WriteHeader]"], rule exI [of _ "[]"], rule exI [of _ 1],
        rule exI [of _ 1], rule exI [of _ no_GlobalColorTableOptions]) (simp only: r append.simps simp_thms)
  show ?thesis
    using e
      call_order_guards [of "[WriteHeader]" 1 1 no_GlobalColorTableOptions no_AnimationOptions
        "\<lparr>width = 1, height = 1, data = [0], palette = [255, 0, 0]\<rparr>" no_ImageOptions]
      call_order_guards [of "[]" 1 1 no_GlobalColorTableOptions no_AnimationOptions
        "\<lparr>width = 1, height = 1, data = [0], palette = [255, 0, 0]\<rparr>" no_ImageOptions]
      call_order_guards [of "[WriteHeader, WriteLogicalScreen 1 1 no_GlobalColorTableOptions]"
        1 1 no_GlobalColorTableOptions no_AnimationOptions
        "\<lparr>width = 1, height = 1, data = [0], palette = [255, 0, 0]\<rparr>" no_ImageOptions]
    by (simp del: run.simps perform.simps One_nat_def)
qed

text \<open>C5 as stated fails: \<open>writeTrailer\<close> on a new writer, before any frame and even before
  the header, returns and appends \<open>0x3b\<close>.\<close>

theorem writeTrailer_unguarded:
  "perform (run new_GifWriter []) WriteTrailer =
     (Returned, new_GifWriter\<lparr>output_data := [0x3b]\<rparr>)"
  by (simp add: writeTrailer_def writeByte_def GIF_TRAILER_def new_GifWriter_def)

section \<open>Validation before writing\<close>

text \<open>C4, amended: when \<open>writeImage\<close> throws because the dimensions are out of range or the
  palette is empty, not a multiple of 3 bytes or longer than 256 colours, the writer is as it
  was: no byte has been appended. (The checks of the pixel count and of the pixel indices
  are made later, by \<open>writeImageData\<close>.)\<close>

theorem writeImage_validates_first:
  assumes "hasWrittenLogicalScreen w"
    and "width img \<le> 0 \<or> width img > 65535 \<or> height img \<le> 0 \<or> height img > 65535 \<or>
         length (palette img) = 0 \<or> length (palette img) mod 3 \<noteq> 0 \<or>
         length (palette img) div 3 > 256"
  shows "writeImage w img io = (Thrown GifValidationError, w)"
  using assms
  by (auto simp: writeImage_def validateDimensions_def validatePalette_def MAX_COLORS_def)

theorem writeImage_validates_first_witness:
  "hasWrittenLogicalScreen
     \<lparr>output_data = [71, 73, 70, 56, 57, 97, 1, 0, 1, 0, 112, 0, 0], hasWrittenHeader = True,
      hasWrittenLogicalScreen = True, frameCount = 0\<rparr> \<and>
   length (palette \<lparr>width = 1, height = 1, data = [0], palette = [0, 0]\<rparr>) mod 3 \<noteq> 0 \<and>
   writeImage
     \<lparr>output_data = [71, 73, 70, 56, 57, 97, 1, 0, 1, 0, 112, 0, 0], hasWrittenHeader = True,
      hasWrittenLogicalScreen = True, frameCount = 0\<rparr>
     \<lparr>width = 1, height = 1, data = [0], palette = [0, 0]\<rparr> no_ImageOptions =
     (Thrown GifValidationError,
      \<lparr>output_data = [71, 73, 70, 56, 57, 97, 1, 0, 1, 0, 112, 0, 0], hasWrittenHeader = True,
       hasWrittenLogicalScreen = True, frameCount = 0\<rparr>)"
  using writeImage_validates_first
    [of "\<lparr>output_data = [71, 73, 70, 56, 57, 97, 1, 0, 1, 0, 112, 0, 0], hasWrittenHeader = True,
          hasWrittenLogicalScreen = True, frameCount = 0\<rparr>"
        "\<lparr>width = 1, height = 1, data = [0], palette = [0, 0]\<rparr>" no_ImageOptions]
  by simp

text \<open>C4 as stated fails: with two pixel bytes for a 1 by 1 image, \<open>writeImage\<close> throws
  \<open>GifValidationError\<close> after the image descriptor and the colour table were appended.\<close>

theorem writeImage_writes_before_pixel_check:
  "writeImage
     \<lparr>output_data = [71, 73, 70, 56, 57, 97, 1, 0, 1, 0, 112, 0, 0], hasWrittenHeader = True,
      hasWrittenLogicalScreen = True, frameCount = 0\<rparr>
     \<lparr>width = 1, height = 1, data = [0, 0], palette = [0, 0, 0]\<rparr> no_ImageOptions =
     (Thrown GifValidationError,
      \<lparr>output_data = [71, 73, 70, 56, 57, 97, 1, 0, 1, 0, 112, 0, 0,
                      44, 0, 0, 0, 0, 1, 0, 1, 0, 128, 0, 0, 0, 0, 0, 0],
       hasWrittenHeader = True, hasWrittenLogicalScreen = True, frameCount = 0\<rparr>)"
  by code_simp



section \<open>Decompression of data that ends early\<close>

lemma decode_data_code_known:
  assumes "known_code code st"
  shows "\<exists>st1. decode_data_code code st = Inr st1 \<and>
           dec_output st1 = dec_output st @ code_string code st \<and>
           dec_currentBits st \<le> dec_currentBits st1 \<and>
           dec_currentBits st1 \<le> max 12 (dec_currentBits st)"
  using assms
  by (auto simp: decode_data_code_def known_code_def code_string_def Let_def)


lemma readCode_returns:
  "0 < n \<Longrightarrow> n \<le> 16 \<Longrightarrow> \<exists>c conv1. readCode conv n = Inr (c, conv1)"
  by (simp add: readCode_def Let_def)

lemma decompress_loop_known:
  assumes "\<forall>(code, s) \<in> set (codes_read_loop ics st). known_code code s"
    and "0 < dec_currentBits st" "dec_currentBits st \<le> 12" "ics \<le> 11"
  shows "decompress_loop ics st =
           Inr (dec_output st @ concat (map (\<lambda>(code, s). code_string code s) (codes_read_loop ics st)))"
  using assms
proof (induction ics st rule: decompress_loop.induct)
  case (1 ics st)
  show ?case
  proof (cases "hasMore (dec_converter st)")
    case False
    then show ?thesis
      by (subst decompress_loop.simps, subst codes_read_loop.simps) simp
  next
    case True
    from readCode_returns [of "dec_currentBits st" "dec_converter st"] "1.prems"
    obtain c conv1 where rc: "readCode (dec_converter st) (dec_currentBits st) = Inr (c, conv1)"
      by auto
    show ?thesis
    proof (cases c)
      case None
      then show ?thesis
        using True rc by (subst decompress_loop.simps, subst codes_read_loop.simps) simp
    next
      case (Some code)
      consider (clear) "code = dec_clearCode (dec_dict st)"
        | (stop) "code \<noteq> dec_clearCode (dec_dict st)" "code = dec_endCode (dec_dict st)"
        | (data) "code \<noteq> dec_clearCode (dec_dict st)" "code \<noteq> dec_endCode (dec_dict st)"
        by blast
      then show ?thesis
      proof cases
        case clear
        let ?st1 = "st\<lparr>dec_converter := conv1,
                    dec_dict := LZWDecodeDictionary_reset (dec_dict st),
                    dec_currentBits := ics + 1,
                    previousString := []\<rparr>"
        have tr: "codes_read_loop ics st = codes_read_loop ics ?st1"
          using True rc Some clear by (subst codes_read_loop.simps) simp
        have "decompress_loop ics ?st1 =
           Inr (dec_output ?st1 @ concat (map (\<lambda>(code, s). code_string code s) (codes_read_loop ics ?st1)))"
          using "1.IH"(1) [OF True rc refl Some clear] "1.prems" tr by simp
        moreover have "decompress_loop ics st = decompress_loop ics ?st1"
          using True rc Some clear by (subst decompress_loop.simps) simp
        ultimately show ?thesis using tr by simp
      next
        case stop
        then show ?thesis
          using True rc Some by (subst decompress_loop.simps, subst codes_read_loop.simps) simp
      next
        case data
        let ?st0 = "st\<lparr>dec_converter := conv1\<rparr>"
        have tr: "codes_read_loop ics st =
            (code, ?st0) # (case decode_data_code code ?st0 of Inl e \<Rightarrow> []
                           | Inr st1 \<Rightarrow> codes_read_loop ics st1)"
          using True rc Some data by (subst codes_read_loop.simps) simp
        then have "known_code code ?st0" using "1.prems"(1) by simp
        from decode_data_code_known [OF this] obtain st1 where
          d: "decode_data_code code ?st0 = Inr st1"
          and o: "dec_output st1 = dec_output st @ code_string code ?st0"
          and b: "dec_currentBits ?st0 \<le> dec_currentBits st1"
             "dec_currentBits st1 \<le> max 12 (dec_currentBits ?st0)"
          by auto
        have tr1: "codes_read_loop ics st = (code, ?st0) # codes_read_loop ics st1"
          using tr d by simp
        have "decompress_loop ics st1 =
            Inr (dec_output st1 @ concat (map (\<lambda>(code, s). code_string code s) (codes_read_loop ics st1)))"
          using "1.IH"(2) [OF True rc refl Some data d] "1.prems" tr1 b by simp
        moreover have "decompress_loop ics st = decompress_loop ics st1"
          using True rc Some data d by (subst decompress_loop.simps) simp
        ultimately show ?thesis using tr1 o by simp
      qed
    qed
  qed
qed

text \<open>C10, amended: with an initial code size in \<open>[1, 8]\<close> (or no data at all),
  \<open>decompressLZW\<close> does not throw as long as every data code it reads is below the next
  code to be assigned, or equal to it when there is a previous string: it returns the
  strings of the codes read, also when the data ends before an end code. For no data it
  returns no indices.\<close>

theorem decompressLZW_returns_decoded:
  assumes "length compressedData = 0 \<or> (1 \<le> k \<and> k \<le> 8)"
    and "\<forall>(code, s) \<in> set (codes_read compressedData k). known_code code s"
  shows "decompressLZW compressedData k =
           Inr (concat (map (\<lambda>(code, s). code_string code s) (codes_read compressedData k))) \<and>
         (length compressedData = 0 \<longrightarrow> decompressLZW compressedData k = Inr [])"
proof (cases "length compressedData = 0")
  case True
  then show ?thesis by (simp add: decompressLZW_def codes_read_def)
next
  case False
  with assms(1) have k: "1 \<le> k" "k \<le> 8" by simp_all
  let ?st = "\<lparr>dec_converter = new_BytesToCodeConverter compressedData,
           dec_dict = new_LZWDecodeDictionary (nat k),
           dec_output = [],
           dec_currentBits = nat k + 1,
           previousString = []\<rparr>"
  have cr: "codes_read compressedData k = codes_read_loop (nat k) ?st"
    using False k by (simp add: codes_read_def)
  have "decompress_loop (nat k) ?st =
      Inr (dec_output ?st @ concat (map (\<lambda>(code, s). code_string code s) (codes_read_loop (nat k) ?st)))"
    by (rule decompress_loop_known) (use assms(2) k in \<open>simp_all add: cr\<close>)
  then show ?thesis
    using False k by (simp add: decompressLZW_def cr)
qed

theorem decompressLZW_returns_decoded_witness:
  "(length [68, 100 :: nat] = 0 \<or> (1 \<le> (2 :: int) \<and> (2 :: int) \<le> 8)) \<and>
   list_all (\<lambda>(code, s). known_code code s) (codes_read [68, 100] 2) \<and>
   decompressLZW [68, 100] 2 = Inr [0, 1, 2, 0, 1]"
proof -
  have h: "list_all (\<lambda>(code, s). known_code code s) (codes_read [68, 100] 2)"
    by code_simp
  have d: "decompressLZW [68, 100] 2 = Inr [0, 1, 2, 0, 1]"
    by code_simp
  show ?thesis
    using decompressLZW_returns_decoded [of "[68, 100]" 2] h d by (simp add: list_all_iff)
qed

text \<open>C10 as stated fails: the one byte 6 holds the three-bit code 6, which is the next code
  to be assigned, so at most that code, and no end code; there is no previous string and
  \<open>decompressLZW\<close> throws.\<close>

theorem decompressLZW_throws_on_first_code:
  "decompressLZW [6] 2 = Inl GifEncodingError \<and>
   list_all (\<lambda>(code, s). code \<le> dec_nextCode (dec_dict s)) (codes_read [6] 2)"
  by code_simp


section \<open>Frames with corrupt data\<close>

lemma read_image_corrupt:
  assumes rem: "remaining r = [l0, l1, t0, t1, w0, w1, h0, h1, p] @ table @ cs # rest"
    and tb: "if p AND 0x80 \<noteq> 0 then length table = push_bit (p AND 0x07) 2 * 3 else table = []"
    and sub: "readDataSubBlocks (skip (10 + length table) r) = Inr (d, r')"
    and bad: "decompressLZW d (int cs) = Inl e"
    and r: "reader st = r"
  shows "read_image scr st =
           Inr (emit_placeholder
                  (apply_disposal scr (st\<lparr>reader := r'\<rparr>) (l0 OR push_bit 8 l1)
                     (t0 OR push_bit 8 t1) (w0 OR push_bit 8 w1) (h0 OR push_bit 8 h1))
                  (l0 OR push_bit 8 l1) (t0 OR push_bit 8 t1) (w0 OR push_bit 8 w1)
                  (h0 OR push_bit 8 h1))"
proof -
  define r6 where "r6 = skip (9 + length table) r"
  have r6: "remaining r6 = cs # rest"
    unfolding r6_def using rem by (simp add: drop_plus del: drop_drop)
  have r7: "skip (Suc 0) r6 = skip (10 + length table) r"
    by (simp add: r6_def)
  show ?thesis
  proof (cases "p AND 0x80 \<noteq> 0")
    case True
    then have len: "length table = push_bit (p AND 0x07) 2 * 3" using tb by simp
    have n0: "0 < push_bit (p AND 0x07) 2 * (3::nat)"
      by (simp add: push_bit_eq_mult)
    have t: "readBytes (skip 9 r) (push_bit (p AND 0x07) 2 * 3) = Inr (table, r6)"
      unfolding readBytes_take [OF n0] r6_def using rem len by (simp add: add.commute)
    show ?thesis
      unfolding read_image_def r
      using rem True r6 bad
      by (simp add: readByte_remaining read16_remaining Let_def t r7 sub)
  next
    case False
    then have e: "table = []" using tb by simp
    have r6': "r6 = skip 9 r"
      unfolding r6_def e by simp
    show ?thesis
      unfolding read_image_def r
      using rem False r6 [unfolded r6'] bad r7 [unfolded r6'] sub
      by (simp add: readByte_remaining read16_remaining Let_def e)
  qed
qed

text \<open>C2, amended: when the sub-blocks of a frame are read (\<^verbatim>\<open>readDataSubBlocks\<close> returns) and
  \<^verbatim>\<open>decompressLZW\<close> throws on their bytes, \<^verbatim>\<open>getFrames\<close> does not abort: the loop goes on
  behind the sub-blocks with one more frame, a placeholder of white pixels with the width,
  height, left and top of the image descriptor. (The descriptor is the nine bytes after
  the separator \<open>0x2c\<close>, a local colour table follows it if its flag is set.)\<close>

theorem corrupt_frame_gives_placeholder:
  assumes "remaining (reader st) = 0x2c # [l0, l1, t0, t1, w0, w1, h0, h1, p] @ table @ cs # rest"
    and "if p AND 0x80 \<noteq> 0 then length table = push_bit (p AND 0x07) 2 * 3 else table = []"
    and "readDataSubBlocks (skip (11 + length table) (reader st)) = Inr (d, r')"
    and "decompressLZW d (int cs) = Inl e"
  shows "\<exists>st'. getFrames_loop scr st = getFrames_loop scr st' \<and> reader st' = r' \<and>
           frames st' = frames st @
             [\<lparr>imageData =
                 \<lparr>width = int (w0 OR push_bit 8 w1), height = int (h0 OR push_bit 8 h1),
                  data = replicate ((w0 OR push_bit 8 w1) * (h0 OR push_bit 8 h1) * 4) 255\<rparr>,
               delay = currentDelay st, disposal = currentDisposal st,
               left = int (l0 OR push_bit 8 l1), top' = int (t0 OR push_bit 8 t1),
               transparentIndex = currentTransparentIndex st\<rparr>]"
proof -
  define r where "r = skip 1 (reader st)"
  have rem: "remaining r = [l0, l1, t0, t1, w0, w1, h0, h1, p] @ table @ cs # rest"
    using assms(1) by (simp add: r_def)
  have sub: "readDataSubBlocks (skip (10 + length table) r) = Inr (d, r')"
    using assms(3) by (simp add: r_def add.commute)
  define st' where "st' = emit_placeholder
                  (apply_disposal scr (st\<lparr>reader := r'\<rparr>) (l0 OR push_bit 8 l1)
                     (t0 OR push_bit 8 t1) (w0 OR push_bit 8 w1) (h0 OR push_bit 8 h1))
                  (l0 OR push_bit 8 l1) (t0 OR push_bit 8 t1) (w0 OR push_bit 8 w1)
                  (h0 OR push_bit 8 h1)"
  have "read_image scr (st\<lparr>reader := r\<rparr>) = Inr st'"
    using read_image_corrupt [OF rem assms(2) sub assms(4), of "st\<lparr>reader := r\<rparr>" scr]
    by (simp add: st'_def)
  then have "frames_step scr st = Inr (True, st')"
    unfolding frames_step_def using assms(1) by (simp add: readByte_remaining r_def)
  then have "getFrames_loop scr st = getFrames_loop scr st'"
    using assms(1) by (intro getFrames_loop_step) simp_all
  moreover have "reader st' = r'"
    by (simp add: st'_def)
  moreover have "frames st' = frames st @
             [\<lparr>imageData =
                 \<lparr>width = int (w0 OR push_bit 8 w1), height = int (h0 OR push_bit 8 h1),
                  data = replicate ((w0 OR push_bit 8 w1) * (h0 OR push_bit 8 h1) * 4) 255\<rparr>,
               delay = currentDelay st, disposal = currentDisposal st,
               left = int (l0 OR push_bit 8 l1), top' = int (t0 OR push_bit 8 t1),
               transparentIndex = currentTransparentIndex st\<rparr>]"
    by (simp add: st'_def emit_placeholder_def apply_disposal_def Let_def)
  ultimately show ?thesis by blast
qed

text \<open>Three frames of one pixel on a screen of two, the second with the one code 6 for its
  data: the state of the loop before the second frame, and the three frames decoded.\<close>

theorem corrupt_frame_gives_placeholder_witness:
  "remaining (reader \<lparr>reader = \<lparr>r_data = [71, 73, 70, 56, 57, 97, 2, 0, 1, 0, 128, 0, 0, 255, 0, 0, 0, 0, 255, 44, 0, 0, 0, 0, 1, 0, 1, 0, 0, 2, 2, 76, 1, 0, 44, 1, 0, 0, 0, 1, 0, 1, 0, 0, 2, 1, 6, 0, 44, 0, 0, 0, 0, 1, 0, 1, 0, 0, 2, 2, 76, 1, 0, 59], r_position = 34\<rparr>, canvas = [0, 0, 255, 255, 255, 0, 0, 255], previousCanvas = None, currentDelay = 100, currentDisposal = DoNotDispose, currentTransparentIndex = - 1, frames = [\<lparr>imageData = \<lparr>width = 2, height = 1, data = [0, 0, 255, 255, 255, 0, 0, 255]\<rparr>, delay = 100, disposal = DoNotDispose, left = 0, top' = 0, transparentIndex = - 1\<rparr>]\<rparr>) =
     0x2c # [1, 0, 0, 0, 1, 0, 1, 0, 0] @ [] @ 2 # [1, 6, 0, 44, 0, 0, 0, 0, 1, 0, 1, 0, 0, 2, 2, 76, 1, 0, 59] \<and>
   (if (0::nat) AND 0x80 \<noteq> 0 then length ([]::bytes) = push_bit ((0::nat) AND 0x07) 2 * 3
    else ([]::bytes) = []) \<and>
   readDataSubBlocks (skip (11 + length ([]::bytes)) (reader \<lparr>reader = \<lparr>r_data = [71, 73, 70, 56, 57, 97, 2, 0, 1, 0, 128, 0, 0, 255, 0, 0, 0, 0, 255, 44, 0, 0, 0, 0, 1, 0, 1, 0, 0, 2, 2, 76, 1, 0, 44, 1, 0, 0, 0, 1, 0, 1, 0, 0, 2, 1, 6, 0, 44, 0, 0, 0, 0, 1, 0, 1, 0, 0, 2, 2, 76, 1, 0, 59], r_position = 34\<rparr>, canvas = [0, 0, 255, 255, 255, 0, 0, 255], previousCanvas = None, currentDelay = 100, currentDisposal = DoNotDispose, currentTransparentIndex = - 1, frames = [\<lparr>imageData = \<lparr>width = 2, height = 1, data = [0, 0, 255, 255, 255, 0, 0, 255]\<rparr>, delay = 100, disposal = DoNotDispose, left = 0, top' = 0, transparentIndex = - 1\<rparr>]\<rparr>)) =
     Inr ([6], \<lparr>r_data = [71, 73, 70, 56, 57, 97, 2, 0, 1, 0, 128, 0, 0, 255, 0, 0, 0, 0, 255, 44, 0, 0, 0, 0, 1, 0, 1, 0, 0, 2, 2, 76, 1, 0, 44, 1, 0, 0, 0, 1, 0, 1, 0, 0, 2, 1, 6, 0, 44, 0, 0, 0, 0, 1, 0, 1, 0, 0, 2, 2, 76, 1, 0, 59], r_position = 48\<rparr>) \<and>
   decompressLZW [6] (int 2) = Inl GifEncodingError \<and>
   (\<exists>st'. getFrames_loop \<lparr>screen_width = 2, screen_height = 1, globalColorTable = Some [255, 0, 0, 0, 0, 255], backgroundColorIndex = 0\<rparr> \<lparr>reader = \<lparr>r_data = [71, 73, 70, 56, 57, 97, 2, 0, 1, 0, 128, 0, 0, 255, 0, 0, 0, 0, 255, 44, 0, 0, 0, 0, 1, 0, 1, 0, 0, 2, 2, 76, 1, 0, 44, 1, 0, 0, 0, 1, 0, 1, 0, 0, 2, 1, 6, 0, 44, 0, 0, 0, 0, 1, 0, 1, 0, 0, 2, 2, 76, 1, 0, 59], r_position = 34\<rparr>, canvas = [0, 0, 255, 255, 255, 0, 0, 255], previousCanvas = None, currentDelay = 100, currentDisposal = DoNotDispose, currentTransparentIndex = - 1, frames = [\<lparr>imageData = \<lparr>width = 2, height = 1, data = [0, 0, 255, 255, 255, 0, 0, 255]\<rparr>, delay = 100, disposal = DoNotDispose, left = 0, top' = 0, transparentIndex = - 1\<rparr>]\<rparr> = getFrames_loop \<lparr>screen_width = 2, screen_height = 1, globalColorTable = Some [255, 0, 0, 0, 0, 255], backgroundColorIndex = 0\<rparr> st' \<and>
      reader st' = \<lparr>r_data = [71, 73, 70, 56, 57, 97, 2, 0, 1, 0, 128, 0, 0, 255, 0, 0, 0, 0, 255, 44, 0, 0, 0, 0, 1, 0, 1, 0, 0, 2, 2, 76, 1, 0, 44, 1, 0, 0, 0, 1, 0, 1, 0, 0, 2, 1, 6, 0, 44, 0, 0, 0, 0, 1, 0, 1, 0, 0, 2, 2, 76, 1, 0, 59], r_position = 48\<rparr> \<and>
      frames st' = [\<lparr>imageData = \<lparr>width = 2, height = 1, data = [0, 0, 255, 255, 255, 0, 0, 255]\<rparr>, delay = 100, disposal = DoNotDispose, left = 0, top' = 0, transparentIndex = - 1\<rparr>, \<lparr>imageData = \<lparr>width = 1, height = 1, data = [255, 255, 255, 255]\<rparr>, delay = 100, disposal = DoNotDispose, left = 1, top' = 0, transparentIndex = - 1\<rparr>]) \<and>
   decodeFrames [71, 73, 70, 56, 57, 97, 2, 0, 1, 0, 128, 0, 0, 255, 0, 0, 0, 0, 255, 44, 0, 0, 0, 0, 1, 0, 1, 0, 0, 2, 2, 76, 1, 0, 44, 1, 0, 0, 0, 1, 0, 1, 0, 0, 2, 1, 6, 0, 44, 0, 0, 0, 0, 1, 0, 1, 0, 0, 2, 2, 76, 1, 0, 59] = Inr [\<lparr>imageData = \<lparr>width = 2, height = 1, data = [0, 0, 255, 255, 255, 0, 0, 255]\<rparr>, delay = 100, disposal = DoNotDispose, left = 0, top' = 0, transparentIndex = - 1\<rparr>, \<lparr>imageData = \<lparr>width = 1, height = 1, data = [255, 255, 255, 255]\<rparr>, delay = 100, disposal = DoNotDispose, left = 1, top' = 0, transparentIndex = - 1\<rparr>, \<lparr>imageData = \<lparr>width = 2, height = 1, data = [0, 0, 255, 255, 255, 0, 0, 255]\<rparr>, delay = 100, disposal = DoNotDispose, left = 0, top' = 0, transparentIndex = - 1\<rparr>]"
proof -
  have 1: "remaining (reader \<lparr>reader = \<lparr>r_data = [71, 73, 70, 56, 57, 97, 2, 0, 1, 0, 128, 0, 0, 255, 0, 0, 0, 0, 255, 44, 0, 0, 0, 0, 1, 0, 1, 0, 0, 2, 2, 76, 1, 0, 44, 1, 0, 0, 0, 1, 0, 1, 0, 0, 2, 1, 6, 0, 44, 0, 0, 0, 0, 1, 0, 1, 0, 0, 2, 2, 76, 1, 0, 59], r_position = 34\<rparr>, canvas = [0, 0, 255, 255, 255, 0, 0, 255], previousCanvas = None, currentDelay = 100, currentDisposal = DoNotDispose, currentTransparentIndex = - 1, frames = [\<lparr>imageData = \<lparr>width = 2, height = 1, data = [0, 0, 255, 255, 255, 0, 0, 255]\<rparr>, delay = 100, disposal = DoNotDispose, left = 0, top' = 0, transparentIndex = - 1\<rparr>]\<rparr>) =
     0x2c # [1, 0, 0, 0, 1, 0, 1, 0, 0] @ [] @ 2 # [1, 6, 0, 44, 0, 0, 0, 0, 1, 0, 1, 0, 0, 2, 2, 76, 1, 0, 59]"
    by (simp add: remaining_def)
  have 2: "if (0::nat) AND 0x80 \<noteq> 0 then length ([]::bytes) = push_bit ((0::nat) AND 0x07) 2 * 3
    else ([]::bytes) = []"
    by simp
  have 3: "readDataSubBlocks (skip (11 + length ([]::bytes)) (reader \<lparr>reader = \<lparr>r_data = [71, 73, 70, 56, 57, 97, 2, 0, 1, 0, 128, 0, 0, 255, 0, 0, 0, 0, 255, 44, 0, 0, 0, 0, 1, 0, 1, 0, 0, 2, 2, 76, 1, 0, 44, 1, 0, 0, 0, 1, 0, 1, 0, 0, 2, 1, 6, 0, 44, 0, 0, 0, 0, 1, 0, 1, 0, 0, 2, 2, 76, 1, 0, 59], r_position = 34\<rparr>, canvas = [0, 0, 255, 255, 255, 0, 0, 255], previousCanvas = None, currentDelay = 100, currentDisposal = DoNotDispose, currentTransparentIndex = - 1, frames = [\<lparr>imageData = \<lparr>width = 2, height = 1, data = [0, 0, 255, 255, 255, 0, 0, 255]\<rparr>, delay = 100, disposal = DoNotDispose, left = 0, top' = 0, transparentIndex = - 1\<rparr>]\<rparr>)) =
     Inr ([6], \<lparr>r_data = [71, 73, 70, 56, 57, 97, 2, 0, 1, 0, 128, 0, 0, 255, 0, 0, 0, 0, 255, 44, 0, 0, 0, 0, 1, 0, 1, 0, 0, 2, 2, 76, 1, 0, 44, 1, 0, 0, 0, 1, 0, 1, 0, 0, 2, 1, 6, 0, 44, 0, 0, 0, 0, 1, 0, 1, 0, 0, 2, 2, 76, 1, 0, 59], r_position = 48\<rparr>)"
    by code_simp
  have 4: "decompressLZW [6] (int 2) = Inl GifEncodingError"
    by code_simp
  have 5: "decodeFrames [71, 73, 70, 56, 57, 97, 2, 0, 1, 0, 128, 0, 0, 255, 0, 0, 0, 0, 255, 44, 0, 0, 0, 0, 1, 0, 1, 0, 0, 2, 2, 76, 1, 0, 44, 1, 0, 0, 0, 1, 0, 1, 0, 0, 2, 1, 6, 0, 44, 0, 0, 0, 0, 1, 0, 1, 0, 0, 2, 2, 76, 1, 0, 59] = Inr [\<lparr>imageData = \<lparr>width = 2, height = 1, data = [0, 0, 255, 255, 255, 0, 0, 255]\<rparr>, delay = 100, disposal = DoNotDispose, left = 0, top' = 0, transparentIndex = - 1\<rparr>, \<lparr>imageData = \<lparr>width = 1, height = 1, data = [255, 255, 255, 255]\<rparr>, delay = 100, disposal = DoNotDispose, left = 1, top' = 0, transparentIndex = - 1\<rparr>, \<lparr>imageData = \<lparr>width = 2, height = 1, data = [0, 0, 255, 255, 255, 0, 0, 255]\<rparr>, delay = 100, disposal = DoNotDispose, left = 0, top' = 0, transparentIndex = - 1\<rparr>]"
    by code_simp
  have "\<exists>st'. getFrames_loop \<lparr>screen_width = 2, screen_height = 1, globalColorTable = Some [255, 0, 0, 0, 0, 255], backgroundColorIndex = 0\<rparr> \<lparr>reader = \<lparr>r_data = [71, 73, 70, 56, 57, 97, 2, 0, 1, 0, 128, 0, 0, 255, 0, 0, 0, 0, 255, 44, 0, 0, 0, 0, 1, 0, 1, 0, 0, 2, 2, 76, 1, 0, 44, 1, 0, 0, 0, 1, 0, 1, 0, 0, 2, 1, 6, 0, 44, 0, 0, 0, 0, 1, 0, 1, 0, 0, 2, 2, 76, 1, 0, 59], r_position = 34\<rparr>, canvas = [0, 0, 255, 255, 255, 0, 0, 255], previousCanvas = None, currentDelay = 100, currentDisposal = DoNotDispose, currentTransparentIndex = - 1, frames = [\<lparr>imageData = \<lparr>width = 2, height = 1, data = [0, 0, 255, 255, 255, 0, 0, 255]\<rparr>, delay = 100, disposal = DoNotDispose, left = 0, top' = 0, transparentIndex = - 1\<rparr>]\<rparr> = getFrames_loop \<lparr>screen_width = 2, screen_height = 1, globalColorTable = Some [255, 0, 0, 0, 0, 255], backgroundColorIndex = 0\<rparr> st' \<and>
      reader st' = \<lparr>r_data = [71, 73, 70, 56, 57, 97, 2, 0, 1, 0, 128, 0, 0, 255, 0, 0, 0, 0, 255, 44, 0, 0, 0, 0, 1, 0, 1, 0, 0, 2, 2, 76, 1, 0, 44, 1, 0, 0, 0, 1, 0, 1, 0, 0, 2, 1, 6, 0, 44, 0, 0, 0, 0, 1, 0, 1, 0, 0, 2, 2, 76, 1, 0, 59], r_position = 48\<rparr> \<and>
      frames st' = frames \<lparr>reader = \<lparr>r_data = [71, 73, 70, 56, 57, 97, 2, 0, 1, 0, 128, 0, 0, 255, 0, 0, 0, 0, 255, 44, 0, 0, 0, 0, 1, 0, 1, 0, 0, 2, 2, 76, 1, 0, 44, 1, 0, 0, 0, 1, 0, 1, 0, 0, 2, 1, 6, 0, 44, 0, 0, 0, 0, 1, 0, 1, 0, 0, 2, 2, 76, 1, 0, 59], r_position = 34\<rparr>, canvas = [0, 0, 255, 255, 255, 0, 0, 255], previousCanvas = None, currentDelay = 100, currentDisposal = DoNotDispose, currentTransparentIndex = - 1, frames = [\<lparr>imageData = \<lparr>width = 2, height = 1, data = [0, 0, 255, 255, 255, 0, 0, 255]\<rparr>, delay = 100, disposal = DoNotDispose, left = 0, top' = 0, transparentIndex = - 1\<rparr>]\<rparr> @
             [\<lparr>imageData =
                 \<lparr>width = int (1 OR push_bit 8 0), height = int (1 OR push_bit 8 0),
                  data = replicate ((1 OR push_bit 8 0) * (1 OR push_bit 8 0) * 4) 255\<rparr>,
               delay = currentDelay \<lparr>reader = \<lparr>r_data = [71, 73, 70, 56, 57, 97, 2, 0, 1, 0, 128, 0, 0, 255, 0, 0, 0, 0, 255, 44, 0, 0, 0, 0, 1, 0, 1, 0, 0, 2, 2, 76, 1, 0, 44, 1, 0, 0, 0, 1, 0, 1, 0, 0, 2, 1, 6, 0, 44, 0, 0, 0, 0, 1, 0, 1, 0, 0, 2, 2, 76, 1, 0, 59], r_position = 34\<rparr>, canvas = [0, 0, 255, 255, 255, 0, 0, 255], previousCanvas = None, currentDelay = 100, currentDisposal = DoNotDispose, currentTransparentIndex = - 1, frames = [\<lparr>imageData = \<lparr>width = 2, height = 1, data = [0, 0, 255, 255, 255, 0, 0, 255]\<rparr>, delay = 100, disposal = DoNotDispose, left = 0, top' = 0, transparentIndex = - 1\<rparr>]\<rparr>, disposal = currentDisposal \<lparr>reader = \<lparr>r_data = [71, 73, 70, 56, 57, 97, 2, 0, 1, 0, 128, 0, 0, 255, 0, 0, 0, 0, 255, 44, 0, 0, 0, 0, 1, 0, 1, 0, 0, 2, 2, 76, 1, 0, 44, 1, 0, 0, 0, 1, 0, 1, 0, 0, 2, 1, 6, 0, 44, 0, 0, 0, 0, 1, 0, 1, 0, 0, 2, 2, 76, 1, 0, 59], r_position = 34\<rparr>, canvas = [0, 0, 255, 255, 255, 0, 0, 255], previousCanvas = None, currentDelay = 100, currentDisposal = DoNotDispose, currentTransparentIndex = - 1, frames = [\<lparr>imageData = \<lparr>width = 2, height = 1, data = [0, 0, 255, 255, 255, 0, 0, 255]\<rparr>, delay = 100, disposal = DoNotDispose, left = 0, top' = 0, transparentIndex = - 1\<rparr>]\<rparr>,
               left = int (1 OR push_bit 8 0), top' = int (0 OR push_bit 8 0),
               transparentIndex = currentTransparentIndex \<lparr>reader = \<lparr>r_data = [71, 73, 70, 56, 57, 97, 2, 0, 1, 0, 128, 0, 0, 255, 0, 0, 0, 0, 255, 44, 0, 0, 0, 0, 1, 0, 1, 0, 0, 2, 2, 76, 1, 0, 44, 1, 0, 0, 0, 1, 0, 1, 0, 0, 2, 1, 6, 0, 44, 0, 0, 0, 0, 1, 0, 1, 0, 0, 2, 2, 76, 1, 0, 59], r_position = 34\<rparr>, canvas = [0, 0, 255, 255, 255, 0, 0, 255], previousCanvas = None, currentDelay = 100, currentDisposal = DoNotDispose, currentTransparentIndex = - 1, frames = [\<lparr>imageData = \<lparr>width = 2, height = 1, data = [0, 0, 255, 255, 255, 0, 0, 255]\<rparr>, delay = 100, disposal = DoNotDispose, left = 0, top' = 0, transparentIndex = - 1\<rparr>]\<rparr>\<rparr>]"
    by (rule corrupt_frame_gives_placeholder [OF 1 2 3 4])
  then have 6: "\<exists>st'. getFrames_loop \<lparr>screen_width = 2, screen_height = 1, globalColorTable = Some [255, 0, 0, 0, 0, 255], backgroundColorIndex = 0\<rparr> \<lparr>reader = \<lparr>r_data = [71, 73, 70, 56, 57, 97, 2, 0, 1, 0, 128, 0, 0, 255, 0, 0, 0, 0, 255, 44, 0, 0, 0, 0, 1, 0, 1, 0, 0, 2, 2, 76, 1, 0, 44, 1, 0, 0, 0, 1, 0, 1, 0, 0, 2, 1, 6, 0, 44, 0, 0, 0, 0, 1, 0, 1, 0, 0, 2, 2, 76, 1, 0, 59], r_position = 34\<rparr>, canvas = [0, 0, 255, 255, 255, 0, 0, 255], previousCanvas = None, currentDelay = 100, currentDisposal = DoNotDispose, currentTransparentIndex = - 1, frames = [\<lparr>imageData = \<lparr>width = 2, height = 1, data = [0, 0, 255, 255, 255, 0, 0, 255]\<rparr>, delay = 100, disposal = DoNotDispose, left = 0, top' = 0, transparentIndex = - 1\<rparr>]\<rparr> = getFrames_loop \<lparr>screen_width = 2, screen_height = 1, globalColorTable = Some [255, 0, 0, 0, 0, 255], backgroundColorIndex = 0\<rparr> st' \<and>
      reader st' = \<lparr>r_data = [71, 73, 70, 56, 57, 97, 2, 0, 1, 0, 128, 0, 0, 255, 0, 0, 0, 0, 255, 44, 0, 0, 0, 0, 1, 0, 1, 0, 0, 2, 2, 76, 1, 0, 44, 1, 0, 0, 0, 1, 0, 1, 0, 0, 2, 1, 6, 0, 44, 0, 0, 0, 0, 1, 0, 1, 0, 0, 2, 2, 76, 1, 0, 59], r_position = 48\<rparr> \<and>
      frames st' = [\<lparr>imageData = \<lparr>width = 2, height = 1, data = [0, 0, 255, 255, 255, 0, 0, 255]\<rparr>, delay = 100, disposal = DoNotDispose, left = 0, top' = 0, transparentIndex = - 1\<rparr>, \<lparr>imageData = \<lparr>width = 1, height = 1, data = [255, 255, 255, 255]\<rparr>, delay = 100, disposal = DoNotDispose, left = 1, top' = 0, transparentIndex = - 1\<rparr>]"
    by (simp add: numeral_eq_Suc)
  show ?thesis
    by (intro conjI 1 2 3 4 5 6)
qed

text \<open>C2 as stated fails. With the data of the second frame cut to its first byte, the
  codes read are a clear code and the code 1: \<^verbatim>\<open>decompressLZW\<close> returns, and the second frame
  is no placeholder but the canvas with that pixel. With the sub-block of the second frame
  cut to one byte of its two, the separator of the third frame is taken for data, and the
  decode is aborted with \<open>GifValidationError\<close>.\<close>

theorem truncated_frame_no_placeholder:
  "decodeFrames [71, 73, 70, 56, 57, 97, 2, 0, 1, 0, 128, 0, 0, 255, 0, 0, 0, 0, 255, 44, 0, 0, 0, 0, 1, 0, 1, 0, 0, 2, 2, 76, 1, 0, 44, 1, 0, 0, 0, 1, 0, 1, 0, 0, 2, 1, 76, 0, 44, 0, 0, 0, 0, 1, 0, 1, 0, 0, 2, 2, 76, 1, 0, 59] = Inr [\<lparr>imageData = \<lparr>width = 2, height = 1, data = [0, 0, 255, 255, 255, 0, 0, 255]\<rparr>, delay = 100, disposal = DoNotDispose, left = 0, top' = 0, transparentIndex = - 1\<rparr>, \<lparr>imageData = \<lparr>width = 2, height = 1, data = [0, 0, 255, 255, 0, 0, 255, 255]\<rparr>, delay = 100, disposal = DoNotDispose, left = 0, top' = 0, transparentIndex = - 1\<rparr>, \<lparr>imageData = \<lparr>width = 2, height = 1, data = [0, 0, 255, 255, 0, 0, 255, 255]\<rparr>, delay = 100, disposal = DoNotDispose, left = 0, top' = 0, transparentIndex = - 1\<rparr>] \<and>
   decodeFrames [71, 73, 70, 56, 57, 97, 2, 0, 1, 0, 128, 0, 0, 255, 0, 0, 0, 0, 255, 44, 0, 0, 0, 0, 1, 0, 1, 0, 0, 2, 2, 76, 1, 0, 44, 1, 0, 0, 0, 1, 0, 1, 0, 0, 2, 2, 76, 44, 0, 0, 0, 0, 1, 0, 1, 0, 0, 2, 2, 76, 1, 0, 59] = Inl GifValidationError"
  by code_simp

section \<open>Disposal\<close>

text \<open>C3: the code does not do this. The disposal step that \<^verbatim>\<open>getFrames\<close> makes before a frame
  is composited uses \<^verbatim>\<open>currentDisposal\<close> and the rectangle of the frame that is about to be
  composited, and \<^verbatim>\<open>currentDisposal\<close> is set back to \<open>DoNotDispose\<close> after every frame.
  Two frames of one blue pixel on a red screen of two pixels, the first at the left with
  the disposal code 2 (then 3), the second at the right with no graphics control
  extension: the canvas of the second frame still shows the pixel of the first, which was
  neither cleared to the background nor restored.\<close>

theorem disposal_of_previous_frame_not_applied:
  "decodeFrames
      [71, 73, 70, 56, 57, 97, 2, 0, 1, 0, 128, 0, 0, 255, 0, 0, 0, 0, 255,
       33, 249, 4, 8, 0, 0, 0, 0, 44, 0, 0, 0, 0, 1, 0, 1, 0, 0, 2, 2, 76, 1, 0,
       44, 1, 0, 0, 0, 1, 0, 1, 0, 0, 2, 2, 76, 1, 0, 59] =
     Inr [\<lparr>imageData = \<lparr>width = 2, height = 1, data = [0, 0, 255, 255, 255, 0, 0, 255]\<rparr>, delay = 0, disposal = RestoreToBackground, left = 0, top' = 0, transparentIndex = - 1\<rparr>,
          \<lparr>imageData = \<lparr>width = 2, height = 1, data = [0, 0, 255, 255, 0, 0, 255, 255]\<rparr>, delay = 100, disposal = DoNotDispose, left = 0, top' = 0, transparentIndex = - 1\<rparr>] \<and>
   decodeFrames
      [71, 73, 70, 56, 57, 97, 2, 0, 1, 0, 128, 0, 0, 255, 0, 0, 0, 0, 255,
       33, 249, 4, 12, 0, 0, 0, 0, 44, 0, 0, 0, 0, 1, 0, 1, 0, 0, 2, 2, 76, 1, 0,
       44, 1, 0, 0, 0, 1, 0, 1, 0, 0, 2, 2, 76, 1, 0, 59] =
     Inr [\<lparr>imageData = \<lparr>width = 2, height = 1, data = [0, 0, 255, 255, 255, 0, 0, 255]\<rparr>, delay = 0, disposal = RestoreToPrevious, left = 0, top' = 0, transparentIndex = - 1\<rparr>,
          \<lparr>imageData = \<lparr>width = 2, height = 1, data = [0, 0, 255, 255, 0, 0, 255, 255]\<rparr>, delay = 100, disposal = DoNotDispose, left = 0, top' = 0, transparentIndex = - 1\<rparr>]"
  by code_simp


section \<open>The quantizer's result\<close>



















end
